(* ===== verification/Canvas_Prelude.thy ===== *)
theory Canvas_Prelude
  imports Complex_Main "HOL-Library.Multiset"
begin

text \<open>
  Shared vocabulary of the canvas-app development: the numeric types of the model, the
  named collections of rewrite rules the component theories feed, and generic facts on
  lists that the components share (first-match index search, adjacent swaps).

  JavaScript numbers are IEEE doubles. Every coordinate the application computes is a
  sum or difference of pointer offsets, image sizes and the constants 50 and 10/2, far
  below \<open>2^53\<close>, so the model reads them as exact rationals (\<open>coord = rat\<close>):
  mouse offsets may be fractional in current browsers, and \<open>handleSize / 2\<close> is an
  exact division. Identifiers handed out by \<open>nextId++\<close> are natural numbers.
\<close>

type_synonym coord = rat
type_synonym ref = nat

named_theorems js_simps "evaluation rules of the JavaScript array primitives on total callbacks"
named_theorems wf_intros "preservation facts of the heap well-formedness invariant"

lemma nat_int_plus_one [simp]: "nat (int n + 1) = Suc n" "nat (1 + int n) = Suc n"
  by simp_all

section \<open>First-match index search\<close>

text \<open>
  \<open>find_idx P xs\<close> is the index of the first element of \<open>xs\<close> satisfying \<open>P\<close>, or
  \<open>-1\<close> when there is none: the value \<open>Array.prototype.findIndex\<close> returns when its
  callback does not throw.
\<close>

fun find_idx :: "('a \<Rightarrow> bool) \<Rightarrow> 'a list \<Rightarrow> int" where
  "find_idx P [] = -1"
| "find_idx P (v # vs) = (if P v then 0 else (let i = find_idx P vs in if i < 0 then -1 else i + 1))"

lemma find_idx_neg_iff: "find_idx P xs < 0 \<longleftrightarrow> (\<forall>v\<in>set xs. \<not> P v)"
  by (induction xs) (auto simp: Let_def)

lemma find_idx_ge: "-1 \<le> find_idx P xs"
  by (induction xs) (auto simp: Let_def)

lemma find_idx_less_length: "find_idx P xs < int (length xs)"
  by (induction xs) (auto simp: Let_def)

lemma find_idx_minus_one: "(\<forall>v\<in>set xs. \<not> P v) \<Longrightarrow> find_idx P xs = -1"
  by (induction xs) (auto simp: Let_def)

lemma find_idx_nonneg:
  assumes "0 \<le> find_idx P xs"
  shows "nat (find_idx P xs) < length xs \<and> P (xs ! nat (find_idx P xs))
         \<and> (\<forall>j < nat (find_idx P xs). \<not> P (xs ! j))"
  using assms
proof (induction xs)
  case Nil
  then show ?case by simp
next
  case (Cons v vs)
  show ?case
  proof (cases "P v")
    case True
    then show ?thesis by simp
  next
    case False
    with Cons.prems have ge: "0 \<le> find_idx P vs"
      by (auto simp: Let_def split: if_splits)
    with False have eq: "find_idx P (v # vs) = find_idx P vs + 1"
      by (simp add: Let_def)
    have "nat (find_idx P vs + 1) = Suc (nat (find_idx P vs))"
      using ge by simp
    with Cons.IH [OF ge] False eq show ?thesis
      by (auto simp: less_Suc_eq_0_disj)
  qed
qed

text \<open>The index found for a value that identifies a unique element is that element's position.\<close>

lemma find_idx_at:
  assumes "i < length xs" and "P (xs ! i)" and "\<forall>j < i. \<not> P (xs ! j)"
  shows "find_idx P xs = int i"
  using assms
proof (induction xs arbitrary: i)
  case Nil
  then show ?case by simp
next
  case (Cons v vs)
  show ?case
  proof (cases i)
    case 0
    with Cons.prems show ?thesis by simp
  next
    case (Suc k)
    with Cons.prems have "\<not> P v" by auto
    moreover from Cons.prems Suc have "find_idx P vs = int k"
      by (intro Cons.IH) auto
    ultimately show ?thesis using Suc by (simp add: Let_def)
  qed
qed

lemma find_idx_map: "find_idx P (map f xs) = find_idx (P \<circ> f) xs"
  by (induction xs) (auto simp: Let_def)

lemma find_append_first:
  "\<forall>u\<in>set us. \<not> P u \<Longrightarrow> P v \<Longrightarrow> find P (us @ v # vs) = Some v"
  by (induction us) auto

text \<open>Overwriting an element by one that agrees with it under \<open>f\<close> leaves the image under \<open>f\<close> alone.\<close>

lemma map_update_same:
  assumes "f x = f (xs ! i)"
  shows "map f (xs[i := x]) = map f xs"
proof (cases "i < length xs")
  case True
  have "map f (xs[i := x]) = (map f xs)[i := f x]" by (simp add: map_update)
  also have "f x = map f xs ! i" using assms True by simp
  finally show ?thesis by simp
next
  case False
  then show ?thesis by (simp add: list_update_beyond)
qed

section \<open>Swapping two positions\<close>

text \<open>
  \<open>swap_at xs i j\<close> exchanges the elements at positions \<open>i\<close> and \<open>j\<close>: the effect of
  the destructuring assignment \<open>[a[i], a[j]] = [a[j], a[i]]\<close> on two in-range indices.
\<close>

definition swap_at :: "'a list \<Rightarrow> nat \<Rightarrow> nat \<Rightarrow> 'a list" where
  "swap_at xs i j = xs[i := xs ! j, j := xs ! i]"

lemma length_swap_at [simp]: "length (swap_at xs i j) = length xs"
  by (simp add: swap_at_def)

lemma mset_swap_at:
  "i < length xs \<Longrightarrow> j < length xs \<Longrightarrow> mset (swap_at xs i j) = mset xs"
  unfolding swap_at_def by (cases "i = j") (simp_all add: mset_swap)

lemma set_swap_at:
  "i < length xs \<Longrightarrow> j < length xs \<Longrightarrow> set (swap_at xs i j) = set xs"
  using mset_swap_at [of i xs j] by (simp only: flip: set_mset_mset)

lemma map_swap_at:
  "i < length xs \<Longrightarrow> j < length xs \<Longrightarrow> map f (swap_at xs i j) = swap_at (map f xs) i j"
  by (simp add: swap_at_def map_update)

lemma distinct_swap_at:
  "i < length xs \<Longrightarrow> j < length xs \<Longrightarrow> distinct (swap_at xs i j) = distinct xs"
  by (rule mset_eq_imp_distinct_iff) (rule mset_swap_at)

lemma nth_swap_at:
  "i < length xs \<Longrightarrow> j < length xs \<Longrightarrow>
   swap_at xs i j ! k = (if k = j then xs ! i else if k = i then xs ! j else xs ! k)"
  by (simp add: swap_at_def nth_list_update)

lemma swap_at_swap_at:
  "i < length xs \<Longrightarrow> j < length xs \<Longrightarrow> swap_at (swap_at xs i j) j i = xs"
  by (rule nth_equalityI) (simp_all add: nth_swap_at)

lemma swap_at_Cons_Suc [simp]: "swap_at (a # xs) (Suc i) (Suc j) = a # swap_at xs i j"
  by (simp add: swap_at_def)

lemma swap_at_01 [simp]: "swap_at (a # b # xs) (Suc 0) 0 = b # a # xs" "swap_at (a # b # xs) 0 (Suc 0) = b # a # xs"
  by (simp_all add: swap_at_def)

text \<open>Swapping two neighbours written as a split of the list.\<close>

lemma swap_at_Suc_append:
  "swap_at (us @ a # b # vs) (length us) (Suc (length us)) = us @ b # a # vs"
  by (rule nth_equalityI) (auto simp: nth_swap_at nth_append nth_Cons' split: if_splits)

end
