(* ===== verification/Js_Runtime.thy ===== *)
theory Js_Runtime
  imports Canvas_Prelude
begin

text \<open>
  The parts of the JavaScript runtime the application relies on, written from the
  ECMAScript semantics: array slots that hold an object reference or \<open>undefined\<close>,
  reads and writes of an array element by index (reads out of range give
  \<open>undefined\<close>; a write to a negative index sets an ordinary property that is not an
  element; a write past the end extends the array), and the array methods \<open>findIndex\<close>,
  \<open>find\<close> and \<open>filter\<close> with a callback that may throw. The only exception the
  application can raise is the \<open>TypeError\<close> of reading a property of \<open>undefined\<close>.
\<close>

datatype error = TypeError

text \<open>An array slot of \<open>imageLayers\<close>: an \<open>ImageLayer\<close> object reference or \<open>undefined\<close>.\<close>

datatype jsval = Undefined | Obj ref

section \<open>Element access by index\<close>

definition js_get :: "jsval list \<Rightarrow> int \<Rightarrow> jsval" where
  "js_get xs i = (if 0 \<le> i \<and> i < int (length xs) then xs ! nat i else Undefined)"

text \<open>
  A write past the end extends the array; the positions in between are holes, which
  \<open>findIndex\<close> and \<open>find\<close> read as \<open>undefined\<close>. The application only writes indices
  from \<open>-1\<close> to \<open>length - 1\<close> (lemma \<open>js_set_in_range\<close> below is the case it uses).
\<close>

definition js_set :: "jsval list \<Rightarrow> int \<Rightarrow> jsval \<Rightarrow> jsval list" where
  "js_set xs i v =
     (if i < 0 then xs
      else if i < int (length xs) then xs[nat i := v]
      else xs @ replicate (nat i - length xs) Undefined @ [v])"

text \<open>
  \<open>[a[i], a[j]] = [a[j], a[i]]\<close>: the right-hand array literal reads both elements
  first, then the targets are assigned from left to right.
\<close>

definition js_swap :: "jsval list \<Rightarrow> int \<Rightarrow> int \<Rightarrow> jsval list" where
  "js_swap xs i j = (let vj = js_get xs j; vi = js_get xs i in js_set (js_set xs i vj) j vi)"

section \<open>Array methods with a throwing callback\<close>

type_synonym 'a callback = "'a \<Rightarrow> error + bool"

fun js_findIndex_from :: "'a callback \<Rightarrow> 'a list \<Rightarrow> int \<Rightarrow> error + int" where
  "js_findIndex_from p [] k = Inr (-1)"
| "js_findIndex_from p (v # vs) k =
     (case p v of
        Inl e \<Rightarrow> Inl e
      | Inr b \<Rightarrow> (if b then Inr k else js_findIndex_from p vs (k + 1)))"

definition js_findIndex :: "'a callback \<Rightarrow> 'a list \<Rightarrow> error + int" where
  "js_findIndex p xs = js_findIndex_from p xs 0"

fun js_find :: "'a callback \<Rightarrow> 'a list \<Rightarrow> error + 'a option" where
  "js_find p [] = Inr None"
| "js_find p (v # vs) =
     (case p v of
        Inl e \<Rightarrow> Inl e
      | Inr b \<Rightarrow> (if b then Inr (Some v) else js_find p vs))"

fun js_filter :: "'a callback \<Rightarrow> 'a list \<Rightarrow> error + 'a list" where
  "js_filter p [] = Inr []"
| "js_filter p (v # vs) =
     (case p v of
        Inl e \<Rightarrow> Inl e
      | Inr b \<Rightarrow> (case js_filter p vs of
                   Inl e \<Rightarrow> Inl e
                 | Inr ws \<Rightarrow> Inr (if b then v # ws else ws)))"

section \<open>The primitives on callbacks that do not throw\<close>

lemma js_findIndex_from_total [js_simps]:
  "js_findIndex_from (\<lambda>v. Inr (P v)) xs k =
     Inr (let i = find_idx P xs in if i < 0 then -1 else i + k)"
  by (induction xs arbitrary: k) (auto simp: Let_def algebra_simps)

lemma js_findIndex_total [js_simps]:
  "js_findIndex (\<lambda>v. Inr (P v)) xs = Inr (find_idx P xs)"
  using find_idx_ge [of P xs]
  by (auto simp: js_findIndex_def js_findIndex_from_total Let_def)

lemma js_find_total [js_simps]:
  "js_find (\<lambda>v. Inr (P v)) xs = Inr (find P xs)"
  by (induction xs) auto

lemma js_filter_total [js_simps]:
  "js_filter (\<lambda>v. Inr (P v)) xs = Inr (filter P xs)"
  by (induction xs) auto

text \<open>Callbacks that agree on the elements give the same result.\<close>

lemma js_findIndex_from_cong:
  "(\<And>v. v \<in> set xs \<Longrightarrow> p v = q v) \<Longrightarrow> js_findIndex_from p xs k = js_findIndex_from q xs k"
  by (induction xs arbitrary: k) (auto split: sum.splits)

lemma js_findIndex_cong:
  "(\<And>v. v \<in> set xs \<Longrightarrow> p v = q v) \<Longrightarrow> js_findIndex p xs = js_findIndex q xs"
  unfolding js_findIndex_def by (rule js_findIndex_from_cong)

lemma js_find_cong:
  "(\<And>v. v \<in> set xs \<Longrightarrow> p v = q v) \<Longrightarrow> js_find p xs = js_find q xs"
  by (induction xs) (auto split: sum.splits)

lemma js_filter_cong:
  "(\<And>v. v \<in> set xs \<Longrightarrow> p v = q v) \<Longrightarrow> js_filter p xs = js_filter q xs"
  by (induction xs) (auto split: sum.splits)

text \<open>A callback that throws on the first element makes each method throw at once.\<close>

lemma js_methods_throw_first:
  assumes "p v = Inl e"
  shows "js_findIndex p (v # vs) = Inl e" and "js_find p (v # vs) = Inl e"
    and "js_filter p (v # vs) = Inl e"
  using assms by (simp_all add: js_findIndex_def)

text \<open>Whatever the callback does, a result that is returned is of the expected shape.\<close>

lemma js_filter_Inr:
  "js_filter p xs = Inr ys \<Longrightarrow> ys = filter (\<lambda>v. p v = Inr True) xs"
  by (induction xs arbitrary: ys) (auto split: sum.splits if_splits)

lemma js_findIndex_from_range:
  "js_findIndex_from p xs k = Inr i \<Longrightarrow> i = -1 \<or> (k \<le> i \<and> i < k + int (length xs))"
  by (induction xs arbitrary: k) (fastforce split: sum.splits if_splits)+

lemma js_findIndex_range:
  "js_findIndex p xs = Inr i \<Longrightarrow> -1 \<le> i \<and> i < int (length xs)"
  using js_findIndex_from_range [of p xs 0 i] by (auto simp: js_findIndex_def)

lemma js_find_Inr_Some:
  "js_find p xs = Inr (Some v) \<Longrightarrow> v \<in> set xs \<and> p v = Inr True"
  by (induction xs) (auto split: sum.splits if_splits)

section \<open>Index reads and writes in range\<close>

lemma js_get_in_range [simp]: "i < length xs \<Longrightarrow> js_get xs (int i) = xs ! i"
  by (simp add: js_get_def)

lemma js_get_neg [simp]: "i < 0 \<Longrightarrow> js_get xs i = Undefined"
  by (simp add: js_get_def)

lemma js_set_in_range [simp]: "i < length xs \<Longrightarrow> js_set xs (int i) v = xs[i := v]"
  by (simp add: js_set_def)

lemma js_set_neg [simp]: "i < 0 \<Longrightarrow> js_set xs i v = xs"
  by (simp add: js_set_def)

lemma js_swap_in_range:
  "i < length xs \<Longrightarrow> j < length xs \<Longrightarrow> js_swap xs (int i) (int j) = swap_at xs i j"
  by (simp add: js_swap_def swap_at_def)

text \<open>
  The swap of position \<open>-1\<close> with position \<open>0\<close>: the first element is moved into the
  non-element property \<open>"-1"\<close>, where no array method sees it, and the first slot
  becomes \<open>undefined\<close>.
\<close>

lemma js_swap_minus_one:
  "xs \<noteq> [] \<Longrightarrow> js_swap xs (-1) 0 = Undefined # tl xs"
  by (cases xs) (simp_all add: js_swap_def js_get_def js_set_def)

end
