(* ===== verification/Layer.thy ===== *)
theory Layer
  imports Js_Runtime
begin

text \<open>
  One image layer of \<open>src/src/app/canvas/canvas.component.ts\<close>: the \<open>ImageLayer\<close>
  interface (lines 3--13) as a record, the decoded \<open>HTMLImageElement\<close> it owns, the
  pure geometric tests the pointer handlers apply to one layer (\<open>isMouseOverLayer\<close>
  and the resize-handle test of \<open>onMouseDown\<close>), the construction of a new layer in
  the image-load callback, and the drawing commands \<open>redrawCanvas\<close> and
  \<open>drawResizeHandles\<close> issue for it.
\<close>

section \<open>Images, layers, drawing commands\<close>

text \<open>
  The decoded image: its source (the data URL read from the file) and its natural size
  in pixels, which \<open>img.width\<close> and \<open>img.height\<close> give once \<open>img.onload\<close> fires.
\<close>

record image_el =
  img_src :: string
  img_width :: nat
  img_height :: nat

text \<open>
  \<open>ImageLayer\<close>. The fields keep the source's names; \<open>id\<close> and \<open>image\<close> are
  \<open>layer_id\<close> and \<open>layer_image\<close>, as \<open>id\<close> and \<open>image\<close> are constants of HOL.
\<close>

record image_layer =
  layer_id :: nat
  layer_image :: image_el
  x :: coord
  y :: coord
  width :: coord
  height :: coord
  isDragging :: bool
  isResizing :: bool
  resizeHandleSize :: coord

text \<open>
  The immediate-mode drawing calls on the 2D context. \<open>fillStyle\<close> is set right
  before every \<open>fillRect\<close> of the component, so the colour is part of the command.
\<close>

datatype colour = White | Blue

datatype draw_cmd =
    ClearRect coord coord coord coord
  | FillRect colour coord coord coord coord
  | DrawImage image_el coord coord coord coord

section \<open>The operations on one layer\<close>

text \<open>\<open>isMouseOverLayer\<close> (lines 174--177): the closed bounding rectangle.\<close>

definition isMouseOverLayer :: "coord \<Rightarrow> coord \<Rightarrow> image_layer \<Rightarrow> bool" where
  "isMouseOverLayer mouseX mouseY layer \<longleftrightarrow>
     mouseX \<ge> x layer \<and> mouseX \<le> x layer + width layer \<and>
     mouseY \<ge> y layer \<and> mouseY \<le> y layer + height layer"

text \<open>
  The resize-handle test of \<open>onMouseDown\<close> (lines 121--125): the closed square of side
  \<open>handleSize\<close> centred on the bottom-right corner.
\<close>

definition onResizeHandle :: "coord \<Rightarrow> coord \<Rightarrow> image_layer \<Rightarrow> bool" where
  "onResizeHandle offsetX offsetY sel \<longleftrightarrow>
     (let handleSize = resizeHandleSize sel in
      offsetX \<ge> x sel + width sel - handleSize / 2 \<and>
      offsetX \<le> x sel + width sel + handleSize / 2 \<and>
      offsetY \<ge> y sel + height sel - handleSize / 2 \<and>
      offsetY \<le> y sel + height sel + handleSize / 2)"

text \<open>
  The layer pushed by \<open>img.onload\<close> (lines 49--62): the size is the image's, clamped
  to the canvas, the origin is (50, 50), both flags are clear and the handle is 10
  pixels wide.
\<close>

definition new_layer :: "nat \<Rightarrow> image_el \<Rightarrow> nat \<Rightarrow> nat \<Rightarrow> image_layer" where
  "new_layer nid img canvasW canvasH =
     (let w = min (img_width img) canvasW; h = min (img_height img) canvasH in
      \<lparr>layer_id = nid, layer_image = img, x = 50, y = 50,
       width = of_nat w, height = of_nat h,
       isDragging = False, isResizing = False, resizeHandleSize = 10\<rparr>)"

text \<open>\<open>drawResizeHandles\<close> (lines 83--87).\<close>

definition drawResizeHandles :: "image_layer \<Rightarrow> draw_cmd" where
  "drawResizeHandles layer =
     (let handleSize = resizeHandleSize layer in
      FillRect Blue (x layer + width layer - handleSize / 2) (y layer + height layer - handleSize / 2)
        handleSize handleSize)"

text \<open>The body of the \<open>forEach\<close> callback of \<open>redrawCanvas\<close> (lines 78--79) for one layer.\<close>

definition paint_layer :: "image_layer \<Rightarrow> draw_cmd list" where
  "paint_layer layer =
     [DrawImage (layer_image layer) (x layer) (y layer) (width layer) (height layer),
      drawResizeHandles layer]"

section \<open>Lemmas\<close>

lemma new_layer_fields [simp]:
  "layer_id (new_layer nid img cw ch) = nid"
  "layer_image (new_layer nid img cw ch) = img"
  "x (new_layer nid img cw ch) = 50"
  "y (new_layer nid img cw ch) = 50"
  "width (new_layer nid img cw ch) = of_nat (min (img_width img) cw)"
  "height (new_layer nid img cw ch) = of_nat (min (img_height img) ch)"
  "isDragging (new_layer nid img cw ch) = False"
  "isResizing (new_layer nid img cw ch) = False"
  "resizeHandleSize (new_layer nid img cw ch) = 10"
  by (simp_all add: new_layer_def Let_def)

text \<open>The flags are not read by the drawing or the geometric tests.\<close>

lemma paint_layer_flags [simp]:
  "paint_layer (l\<lparr>isDragging := b\<rparr>) = paint_layer l"
  "paint_layer (l\<lparr>isResizing := b\<rparr>) = paint_layer l"
  by (simp_all add: paint_layer_def drawResizeHandles_def)

lemma isMouseOverLayer_flags [simp]:
  "isMouseOverLayer mx my (l\<lparr>isDragging := b\<rparr>) = isMouseOverLayer mx my l"
  "isMouseOverLayer mx my (l\<lparr>isResizing := b\<rparr>) = isMouseOverLayer mx my l"
  by (simp_all add: isMouseOverLayer_def)

text \<open>
  Where a press can start a resize: inside the layer's rectangle and inside the handle
  square, which is the quarter of the drawn handle lying over the layer when the layer
  is at least half a handle wide and high.
\<close>

lemma resize_zone:
  assumes "0 \<le> resizeHandleSize l" and "resizeHandleSize l / 2 \<le> width l" and "resizeHandleSize l / 2 \<le> height l"
  shows "(isMouseOverLayer mx my l \<and> onResizeHandle mx my l) \<longleftrightarrow>
         (x l + width l - resizeHandleSize l / 2 \<le> mx \<and> mx \<le> x l + width l \<and>
          y l + height l - resizeHandleSize l / 2 \<le> my \<and> my \<le> y l + height l)"
  using assms by (auto simp: isMouseOverLayer_def onResizeHandle_def Let_def)

end
