(* ===== verification/Canvas.thy ===== *)
theory Canvas
  imports Layer
begin

text \<open>
  The \<open>CanvasComponent\<close> of \<open>src/src/app/canvas/canvas.component.ts\<close>. Its private
  fields (lines 21--29) are the record \<open>canvas_state\<close>. The layers are JavaScript
  objects shared by reference between the array \<open>imageLayers\<close> and the field
  \<open>selectedImageLayer\<close>, and the pointer handlers mutate them through either, so
  the model keeps an explicit heap of layer objects: \<open>imageLayers\<close> is a list of array
  slots (\<open>Obj r\<close> or \<open>undefined\<close>) and \<open>selectedImageLayer\<close> a reference. The
  pixels of the canvas element are the list of drawing commands issued since it was
  last cleared (\<open>frame\<close>), and the element's fixed size is part of the state.

  Every handler returns the new state together with the exception it raised, if any:
  the Angular event loop reports an exception thrown by a handler and keeps the
  component with every mutation made before the throw.
\<close>

section \<open>State\<close>

text \<open>
  The heap of layer objects: reference \<open>r\<close> names the \<open>r\<close>-th object ever allocated,
  and allocation appends. Objects are never freed by the model; one that no slot and
  no selection references is garbage the program cannot reach.
\<close>

type_synonym heap = "image_layer list"

record canvas_state =
  canvas_width :: nat
  canvas_height :: nat
  layer_heap :: heap
  imageLayers :: "jsval list"
  selectedImageLayer :: "ref option"
  nextId :: nat
  startX :: coord
  startY :: coord
  frame :: "draw_cmd list"

type_synonym outcome = "canvas_state \<times> error option"

text \<open>
  Sequencing of two statements of a handler: the second runs only if the first did not
  throw.
\<close>

definition and_then :: "outcome \<Rightarrow> (canvas_state \<Rightarrow> outcome) \<Rightarrow> outcome" where
  "and_then r f = (case r of (s, None) \<Rightarrow> f s | (s, Some e) \<Rightarrow> (s, Some e))"

text \<open>
  Dereferencing. A reference always names an allocated object in JavaScript; the
  \<open>None\<close> case is excluded by the invariant \<open>wf_canvas\<close> of theory \<open>Canvas_Inv\<close>.
\<close>

definition obj_at :: "canvas_state \<Rightarrow> ref \<Rightarrow> image_layer option" where
  "obj_at s r = (if r < length (layer_heap s) then Some (layer_heap s ! r) else None)"

definition set_obj :: "ref \<Rightarrow> image_layer \<Rightarrow> canvas_state \<Rightarrow> canvas_state" where
  "set_obj r l s = s\<lparr>layer_heap := (layer_heap s)[r := l]\<rparr>"

text \<open>Reading a property of an array slot: \<open>undefined\<close> throws \<open>TypeError\<close>.\<close>

definition layer_of :: "canvas_state \<Rightarrow> jsval \<Rightarrow> error + image_layer" where
  "layer_of s v =
     (case v of
        Undefined \<Rightarrow> Inl TypeError
      | Obj r \<Rightarrow> (case obj_at s r of None \<Rightarrow> Inl TypeError | Some l \<Rightarrow> Inr l))"

text \<open>An array-method callback that reads the element's fields and tests them.\<close>

definition layer_test :: "canvas_state \<Rightarrow> (image_layer \<Rightarrow> bool) \<Rightarrow> jsval callback" where
  "layer_test s P v = (case layer_of s v of Inl e \<Rightarrow> Inl e | Inr l \<Rightarrow> Inr (P l))"

text \<open>Writing fields of the object a reference names.\<close>

definition modify_obj :: "ref \<Rightarrow> (image_layer \<Rightarrow> image_layer) \<Rightarrow> canvas_state \<Rightarrow> canvas_state" where
  "modify_obj r f s = (case obj_at s r of None \<Rightarrow> s | Some l \<Rightarrow> set_obj r (f l) s)"

section \<open>Set-up and drawing\<close>

text \<open>Field initialisers (lines 24--29), then \<open>ngAfterViewInit\<close> and \<open>setupCanvas\<close> (31--41).\<close>

definition setupCanvas :: "canvas_state \<Rightarrow> canvas_state" where
  "setupCanvas s =
     s\<lparr>frame := [FillRect White 0 0 (of_nat (canvas_width s)) (of_nat (canvas_height s))]\<rparr>"

definition init_canvas :: "nat \<Rightarrow> nat \<Rightarrow> canvas_state" where
  "init_canvas w h = setupCanvas
     \<lparr>canvas_width = w, canvas_height = h, layer_heap = [],
      imageLayers = [], selectedImageLayer = None, nextId = 0, startX = 0, startY = 0,
      frame = []\<rparr>"

text \<open>
  The \<open>forEach\<close> of \<open>redrawCanvas\<close> (lines 77--80): the commands issued layer by layer,
  up to the first slot whose property read throws.
\<close>

fun paint_slots :: "canvas_state \<Rightarrow> jsval list \<Rightarrow> draw_cmd list \<times> error option" where
  "paint_slots s [] = ([], None)"
| "paint_slots s (v # vs) =
     (case layer_of s v of
        Inl e \<Rightarrow> ([], Some e)
      | Inr l \<Rightarrow> (let (cs, e) = paint_slots s vs in (paint_layer l @ cs, e)))"

text \<open>\<open>redrawCanvas\<close> (lines 71--81).\<close>

definition redrawCanvas :: "canvas_state \<Rightarrow> outcome" where
  "redrawCanvas s =
     (let w = of_nat (canvas_width s); h = of_nat (canvas_height s);
          (cs, e) = paint_slots s (imageLayers s)
      in (s\<lparr>frame := [ClearRect 0 0 w h, FillRect White 0 0 w h] @ cs\<rparr>, e))"

section \<open>File ingestion\<close>

text \<open>
  The \<open>file\<close> input setter (lines 43--69) starts a \<open>FileReader\<close> when the file is not
  \<open>null\<close> and changes no field of the component; the reader's \<open>onload\<close> sets
  \<open>img.src\<close>, and the image's \<open>onload\<close> runs \<open>image_onload\<close> below. The browser
  runs these callbacks later, in an order it chooses and not at all for a file it cannot
  decode; theory \<open>App\<close> models that queue. The setter's one decision is whether a read
  starts.
\<close>

definition file_setter :: "'f option \<Rightarrow> 'f list" where
  "file_setter file = (case file of Some f \<Rightarrow> [f] | None \<Rightarrow> [])"

text \<open>
  \<open>onFileSelected\<close> (lines 89--91) assigns the input property, which runs the setter:
  a \<open>File\<close> is never \<open>null\<close>, so every call starts one read.
\<close>

definition onFileSelected :: "'f \<Rightarrow> 'f list" where
  "onFileSelected file = file_setter (Some file)"

text \<open>\<open>img.onload\<close> (lines 48--64): allocate the layer object, push it, redraw.\<close>

definition image_onload :: "image_el \<Rightarrow> canvas_state \<Rightarrow> outcome" where
  "image_onload img s =
     (let r = length (layer_heap s);
          l = new_layer (nextId s) img (canvas_width s) (canvas_height s)
      in redrawCanvas
           (s\<lparr>layer_heap := layer_heap s @ [l],
              imageLayers := imageLayers s @ [Obj r], nextId := Suc (nextId s)\<rparr>))"

section \<open>Layer list operations\<close>

text \<open>\<open>onDeleteSelected\<close> (lines 93--96).\<close>

definition onDeleteSelected :: "nat \<Rightarrow> canvas_state \<Rightarrow> outcome" where
  "onDeleteSelected lid s =
     (case js_filter (layer_test s (\<lambda>layer. layer_id layer \<noteq> lid)) (imageLayers s) of
        Inl e \<Rightarrow> (s, Some e)
      | Inr xs \<Rightarrow> redrawCanvas (s\<lparr>imageLayers := xs\<rparr>))"

text \<open>\<open>onMoveUpSelected\<close> (lines 98--104).\<close>

definition onMoveUpSelected :: "nat \<Rightarrow> canvas_state \<Rightarrow> outcome" where
  "onMoveUpSelected lid s =
     (case js_findIndex (layer_test s (\<lambda>layer. layer_id layer = lid)) (imageLayers s) of
        Inl e \<Rightarrow> (s, Some e)
      | Inr index \<Rightarrow>
          if index > 0
          then redrawCanvas (s\<lparr>imageLayers := js_swap (imageLayers s) index (index - 1)\<rparr>)
          else (s, None))"

text \<open>
  \<open>onMoveDownSelected\<close> (lines 106--112). The guard compares with \<open>length - 1\<close> only,
  so an index of \<open>-1\<close> (no such layer) passes it whenever the array is not empty.
\<close>

definition onMoveDownSelected :: "nat \<Rightarrow> canvas_state \<Rightarrow> outcome" where
  "onMoveDownSelected lid s =
     (case js_findIndex (layer_test s (\<lambda>layer. layer_id layer = lid)) (imageLayers s) of
        Inl e \<Rightarrow> (s, Some e)
      | Inr index \<Rightarrow>
          if index < int (length (imageLayers s)) - 1
          then redrawCanvas (s\<lparr>imageLayers := js_swap (imageLayers s) index (index + 1)\<rparr>)
          else (s, None))"

section \<open>Pointer gestures\<close>

text \<open>
  \<open>onMouseDown\<close> (lines 114--132): record the anchor, take the first layer in array
  order whose rectangle holds the pointer, and flag it resizing or dragging. A slot
  \<open>find\<close> returns is an object (the callback throws on \<open>undefined\<close>), so the
  \<open>if (selectedLayer)\<close> test is the \<open>Some (Obj r)\<close> case.
\<close>

definition onMouseDown :: "coord \<Rightarrow> coord \<Rightarrow> canvas_state \<Rightarrow> outcome" where
  "onMouseDown offsetX offsetY s0 =
     (let s = s0\<lparr>startX := offsetX, startY := offsetY\<rparr> in
      case js_find (layer_test s (isMouseOverLayer offsetX offsetY)) (imageLayers s) of
        Inl e \<Rightarrow> (s, Some e)
      | Inr (Some (Obj r)) \<Rightarrow>
          (case obj_at s r of
             None \<Rightarrow> (s, Some TypeError)
           | Some sel \<Rightarrow>
               let sel' = (if onResizeHandle offsetX offsetY sel
                           then sel\<lparr>isResizing := True\<rparr> else sel\<lparr>isDragging := True\<rparr>)
               in ((set_obj r sel' s)\<lparr>selectedImageLayer := Some r\<rparr>, None))
      | Inr _ \<Rightarrow> (s, None))"

text \<open>\<open>onMouseUp\<close> (lines 134--140).\<close>

definition onMouseUp :: "canvas_state \<Rightarrow> outcome" where
  "onMouseUp s =
     (case selectedImageLayer s of
        None \<Rightarrow> (s, None)
      | Some r \<Rightarrow>
          (modify_obj r (\<lambda>l. l\<lparr>isDragging := False, isResizing := False\<rparr>) s
             \<lparr>selectedImageLayer := None\<rparr>, None))"

text \<open>
  The dragging branch of \<open>onMouseMove\<close> (lines 147--157): move the layer by the
  pointer's displacement since the last event and make the pointer the new anchor.
\<close>

definition drag_step :: "ref \<Rightarrow> coord \<Rightarrow> coord \<Rightarrow> canvas_state \<Rightarrow> outcome" where
  "drag_step r offsetX offsetY s =
     (case obj_at s r of
        None \<Rightarrow> (s, Some TypeError)
      | Some sel \<Rightarrow>
          if isDragging sel then
            (let dx = offsetX - startX s; dy = offsetY - startY s in
             redrawCanvas
               (set_obj r (sel\<lparr>x := x sel + dx, y := y sel + dy\<rparr>)
                  (s\<lparr>startX := offsetX, startY := offsetY\<rparr>)))
          else (s, None))"

text \<open>
  The resizing branch of \<open>onMouseMove\<close> (lines 159--171): the new size is the pointer
  minus the origin, committed only when both sides are positive and within the canvas;
  the canvas is redrawn either way.
\<close>

definition resize_step :: "ref \<Rightarrow> coord \<Rightarrow> coord \<Rightarrow> canvas_state \<Rightarrow> outcome" where
  "resize_step r offsetX offsetY s =
     (case obj_at s r of
        None \<Rightarrow> (s, Some TypeError)
      | Some sel \<Rightarrow>
          if isResizing sel then
            (let newWidth = offsetX - x sel; newHeight = offsetY - y sel in
             redrawCanvas
               (if newWidth > 0 \<and> newHeight > 0 \<and>
                   newWidth \<le> of_nat (canvas_width s) \<and> newHeight \<le> of_nat (canvas_height s)
                then set_obj r (sel\<lparr>width := newWidth, height := newHeight\<rparr>) s
                else s))
          else (s, None))"

text \<open>\<open>onMouseMove\<close> (lines 142--172): the two branches in sequence.\<close>

definition onMouseMove :: "coord \<Rightarrow> coord \<Rightarrow> canvas_state \<Rightarrow> outcome" where
  "onMouseMove offsetX offsetY s =
     (case selectedImageLayer s of
        None \<Rightarrow> (s, None)
      | Some r \<Rightarrow> and_then (drag_step r offsetX offsetY s) (resize_step r offsetX offsetY))"

section \<open>Events of the component\<close>

text \<open>
  The inputs the component reacts to: the three outputs of the sidebar it is bound to
  (the file itself goes through \<open>file_setter\<close>), the completion of an image load, and
  the three mouse events of the canvas element.
\<close>

datatype canvas_event =
    ImageLoaded image_el
  | DeleteLayer nat
  | MoveUpLayer nat
  | MoveDownLayer nat
  | MouseDown coord coord
  | MouseMove coord coord
  | MouseUp

fun canvas_step :: "canvas_state \<Rightarrow> canvas_event \<Rightarrow> outcome" where
  "canvas_step s (ImageLoaded img) = image_onload img s"
| "canvas_step s (DeleteLayer k) = onDeleteSelected k s"
| "canvas_step s (MoveUpLayer k) = onMoveUpSelected k s"
| "canvas_step s (MoveDownLayer k) = onMoveDownSelected k s"
| "canvas_step s (MouseDown mx my) = onMouseDown mx my s"
| "canvas_step s (MouseMove mx my) = onMouseMove mx my s"
| "canvas_step s MouseUp = onMouseUp s"

text \<open>A run over a sequence of events; an exception ends the handler, not the component.\<close>

fun canvas_run :: "canvas_state \<Rightarrow> canvas_event list \<Rightarrow> canvas_state" where
  "canvas_run s [] = s"
| "canvas_run s (ev # evs) = canvas_run (fst (canvas_step s ev)) evs"

end
