(* ===== verification/Canvas_Inv.thy ===== *)
theory Canvas_Inv
  imports Canvas
begin

text \<open>
  The invariants of the canvas component and the facts that make its handlers
  computable on the states they keep. \<open>wf_canvas\<close> says what JavaScript's object
  model and the code's \<open>nextId++\<close> keep true: every reference held by a slot or by
  the selection names an allocated object, no object sits in two slots, and the ids of
  all objects ever allocated are distinct and below \<open>nextId\<close>. \<open>intact\<close> says that no
  slot of \<open>imageLayers\<close> holds \<open>undefined\<close>. On well-formed intact states no callback
  throws, and the array primitives reduce to \<open>filter\<close>, \<open>find\<close> and \<open>find_idx\<close>
  over the list of layer values \<open>layers s\<close>, the abstraction used in theory
  \<open>Canvas_Spec\<close>.
\<close>

section \<open>Definitions\<close>

fun slot_refs :: "jsval \<Rightarrow> ref list" where
  "slot_refs Undefined = []"
| "slot_refs (Obj r) = [r]"

definition refs_of :: "jsval list \<Rightarrow> ref list" where
  "refs_of vs = concat (map slot_refs vs)"

definition intact :: "canvas_state \<Rightarrow> bool" where
  "intact s \<longleftrightarrow> Undefined \<notin> set (imageLayers s)"

definition wf_canvas :: "canvas_state \<Rightarrow> bool" where
  "wf_canvas s \<longleftrightarrow>
     list_all (\<lambda>r. r < length (layer_heap s)) (refs_of (imageLayers s)) \<and>
     distinct (refs_of (imageLayers s)) \<and>
     pred_option (\<lambda>r. r < length (layer_heap s)) (selectedImageLayer s) \<and>
     list_all (\<lambda>l. layer_id l < nextId s) (layer_heap s) \<and>
     distinct (map layer_id (layer_heap s))"

text \<open>The layer value a slot refers to (only applied to slots holding an object).\<close>

definition slot_layer :: "canvas_state \<Rightarrow> jsval \<Rightarrow> image_layer" where
  "slot_layer s v = layer_heap s ! hd (slot_refs v)"

definition layers :: "canvas_state \<Rightarrow> image_layer list" where
  "layers s = map (slot_layer s) (imageLayers s)"

text \<open>What \<open>redrawCanvas\<close> paints for a list of layers, back to front.\<close>

definition render :: "nat \<Rightarrow> nat \<Rightarrow> image_layer list \<Rightarrow> draw_cmd list" where
  "render w h ls =
     [ClearRect 0 0 (of_nat w) (of_nat h), FillRect White 0 0 (of_nat w) (of_nat h)]
     @ concat (map paint_layer ls)"

section \<open>Slots and references\<close>

lemma refs_of_simps [simp]:
  "refs_of [] = []"
  "refs_of (Obj r # vs) = r # refs_of vs"
  "refs_of (Undefined # vs) = refs_of vs"
  "refs_of (vs @ ws) = refs_of vs @ refs_of ws"
  by (simp_all add: refs_of_def)

lemma mset_refs_of: "mset vs = mset ws \<Longrightarrow> mset (refs_of vs) = mset (refs_of ws)"
proof -
  have "mset (refs_of vs) = sum_mset (image_mset (mset \<circ> slot_refs) (mset vs))" for vs
    by (induction vs) (simp_all add: refs_of_def)
  then show "mset vs = mset ws \<Longrightarrow> mset (refs_of vs) = mset (refs_of ws)" by metis
qed

lemma refs_of_filter:
  "set (refs_of (filter P vs)) \<subseteq> set (refs_of vs)
   \<and> (distinct (refs_of vs) \<longrightarrow> distinct (refs_of (filter P vs)))"
proof (induction vs)
  case (Cons v vs)
  then show ?case by (cases v) auto
qed simp

lemma refs_of_map_Obj [simp]: "refs_of (map Obj rs) = rs"
  by (induction rs) simp_all

lemma intact_map_Obj: "Undefined \<notin> set vs \<Longrightarrow> vs = map Obj (refs_of vs)"
proof (induction vs)
  case (Cons v vs)
  then show ?case by (cases v) simp_all
qed simp

lemma set_refs_of: "r \<in> set (refs_of vs) \<longleftrightarrow> Obj r \<in> set vs"
proof (induction vs)
  case (Cons v vs)
  then show ?case by (cases v) auto
qed simp

text \<open>The swap a move performs never duplicates a reference or invents one.\<close>

lemma refs_of_js_swap:
  assumes "-1 \<le> i" and "i < int (length vs)" and "0 \<le> j" and "j < int (length vs)"
    and "i < 0 \<Longrightarrow> j = 0"
  shows "set (refs_of (js_swap vs i j)) \<subseteq> set (refs_of vs)
         \<and> (distinct (refs_of vs) \<longrightarrow> distinct (refs_of (js_swap vs i j)))"
proof (cases "i < 0")
  case True
  with assms have "i = -1" "j = 0" "vs \<noteq> []" by auto
  then obtain v ws where vs: "vs = v # ws" by (cases vs) auto
  with \<open>i = -1\<close> \<open>j = 0\<close> have "js_swap vs i j = Undefined # ws" by (simp add: js_swap_minus_one)
  moreover have "refs_of vs = slot_refs v @ refs_of ws" by (simp add: vs refs_of_def)
  ultimately show ?thesis by auto
next
  case False
  define a b where "a = nat i" and "b = nat j"
  with False assms have i: "i = int a" and j: "j = int b"
    and a: "a < length vs" and b: "b < length vs" by auto
  have "js_swap vs i j = swap_at vs a b"
    unfolding i j by (rule js_swap_in_range [OF a b])
  then have eq: "mset (refs_of (js_swap vs i j)) = mset (refs_of vs)"
    using mset_refs_of [OF mset_swap_at [OF a b]] by simp
  show ?thesis
    using mset_eq_setD [OF eq] mset_eq_imp_distinct_iff [OF eq] by simp
qed

section \<open>The heap\<close>

lemma obj_at_Some: "obj_at s r = Some l \<longleftrightarrow> r < length (layer_heap s) \<and> l = layer_heap s ! r"
  by (auto simp: obj_at_def)

lemma set_obj_fields [simp]:
  "layer_heap (set_obj r l s) = (layer_heap s)[r := l]"
  "imageLayers (set_obj r l s) = imageLayers s"
  "selectedImageLayer (set_obj r l s) = selectedImageLayer s"
  "nextId (set_obj r l s) = nextId s"
  "canvas_width (set_obj r l s) = canvas_width s"
  "canvas_height (set_obj r l s) = canvas_height s"
  "startX (set_obj r l s) = startX s"
  "startY (set_obj r l s) = startY s"
  by (simp_all add: set_obj_def)

text \<open>Writing an object's fields other than its id keeps the heap well-formed.\<close>

lemma map_set_obj:
  "f l = f (layer_heap s ! r) \<Longrightarrow> map f (layer_heap (set_obj r l s)) = map f (layer_heap s)"
  by (simp add: map_update_same)

lemma wf_set_obj [wf_intros]:
  assumes "wf_canvas s" and "r < length (layer_heap s)"
    and "layer_id l = layer_id (layer_heap s ! r)"
  shows "wf_canvas (set_obj r l s)"
proof -
  have ids: "map layer_id ((layer_heap s)[r := l]) = map layer_id (layer_heap s)"
    using assms(2,3) by (metis list_update_id map_update nth_map)
  have "set ((layer_heap s)[r := l]) \<subseteq> insert l (set (layer_heap s))"
    by (rule set_update_subset_insert)
  moreover have "layer_id l < nextId s"
    using assms by (auto simp: wf_canvas_def list_all_iff)
  ultimately show ?thesis
    using assms(1) ids by (auto simp: wf_canvas_def list_all_iff)
qed

lemma wf_frame [simp]: "wf_canvas (s\<lparr>frame := f\<rparr>) = wf_canvas s"
  by (simp add: wf_canvas_def)

lemma wf_start [simp]: "wf_canvas (s\<lparr>startX := a, startY := b\<rparr>) = wf_canvas s"
  by (simp add: wf_canvas_def)

lemma intact_frame [simp]: "intact (s\<lparr>frame := f\<rparr>) = intact s"
  by (simp add: intact_def)

lemma intact_start [simp]: "intact (s\<lparr>startX := a, startY := b\<rparr>) = intact s"
  by (simp add: intact_def)

lemma intact_set_obj [simp]: "intact (set_obj r l s) = intact s"
  by (simp add: intact_def)

section \<open>Every handler keeps the heap well-formed\<close>

lemma redrawCanvas_state:
  "fst (redrawCanvas s) =
     s\<lparr>frame := [ClearRect 0 0 (of_nat (canvas_width s)) (of_nat (canvas_height s)),
                FillRect White 0 0 (of_nat (canvas_width s)) (of_nat (canvas_height s))]
               @ fst (paint_slots s (imageLayers s))\<rparr>"
  by (simp add: redrawCanvas_def Let_def split: prod.splits)

lemma redrawCanvas_fields [simp]:
  "layer_heap (fst (redrawCanvas s)) = layer_heap s"
  "imageLayers (fst (redrawCanvas s)) = imageLayers s"
  "selectedImageLayer (fst (redrawCanvas s)) = selectedImageLayer s"
  "nextId (fst (redrawCanvas s)) = nextId s"
  "canvas_width (fst (redrawCanvas s)) = canvas_width s"
  "canvas_height (fst (redrawCanvas s)) = canvas_height s"
  by (simp_all add: redrawCanvas_state)

lemma wf_redrawCanvas [wf_intros]: "wf_canvas s \<Longrightarrow> wf_canvas (fst (redrawCanvas s))"
  by (simp add: redrawCanvas_state)

lemma wf_and_then [wf_intros]:
  "wf_canvas (fst r) \<Longrightarrow> (\<And>s. wf_canvas s \<Longrightarrow> wf_canvas (fst (f s))) \<Longrightarrow>
   wf_canvas (fst (and_then r f))"
  by (auto simp: and_then_def split: prod.splits option.splits)

text \<open>Allocating an object with the next id and pushing its reference.\<close>

lemma wf_push_layer:
  assumes "wf_canvas s" and "layer_id l = nextId s"
  shows "wf_canvas (s\<lparr>layer_heap := layer_heap s @ [l],
            imageLayers := imageLayers s @ [Obj (length (layer_heap s))], nextId := Suc (nextId s)\<rparr>)"
proof -
  from assms have "length (layer_heap s) \<notin> set (refs_of (imageLayers s))"
    by (auto simp: wf_canvas_def list_all_iff)
  moreover from assms have "nextId s \<notin> set (map layer_id (layer_heap s))"
    by (auto simp: wf_canvas_def list_all_iff)
  ultimately show ?thesis
    using assms by (auto simp: wf_canvas_def list_all_iff pred_option_def)
qed

lemma wf_image_onload [wf_intros]:
  "wf_canvas s \<Longrightarrow> wf_canvas (fst (image_onload img s))"
  by (simp add: image_onload_def wf_redrawCanvas wf_push_layer)

lemma wf_filter_slots: "wf_canvas s \<Longrightarrow> wf_canvas (s\<lparr>imageLayers := filter P (imageLayers s)\<rparr>)"
  using refs_of_filter [of P "imageLayers s"] by (auto simp: wf_canvas_def list_all_iff)

lemma wf_onDeleteSelected [wf_intros]:
  assumes "wf_canvas s"
  shows "wf_canvas (fst (onDeleteSelected k s))"
proof (cases "js_filter (layer_test s (\<lambda>layer. layer_id layer \<noteq> k)) (imageLayers s)")
  case (Inl e)
  with assms show ?thesis by (simp add: onDeleteSelected_def)
next
  case (Inr xs)
  then obtain P where "xs = filter P (imageLayers s)" by (blast dest: js_filter_Inr)
  with Inr assms show ?thesis by (simp add: onDeleteSelected_def wf_redrawCanvas wf_filter_slots)
qed

text \<open>A swap of a found index with a neighbour keeps the slots' references well-formed.\<close>

lemma wf_js_swap:
  assumes "wf_canvas s" and "-1 \<le> i" and "i < int (length (imageLayers s))"
    and "0 \<le> j" and "j < int (length (imageLayers s))" and "i < 0 \<Longrightarrow> j = 0"
  shows "wf_canvas (s\<lparr>imageLayers := js_swap (imageLayers s) i j\<rparr>)"
  using refs_of_js_swap [OF assms(2-6)] assms(1) by (auto simp: wf_canvas_def list_all_iff)

lemma wf_onMoveUpSelected [wf_intros]:
  assumes "wf_canvas s"
  shows "wf_canvas (fst (onMoveUpSelected k s))"
proof (cases "js_findIndex (layer_test s (\<lambda>layer. layer_id layer = k)) (imageLayers s)")
  case (Inl e)
  with assms show ?thesis by (simp add: onMoveUpSelected_def)
next
  case (Inr i)
  then have "-1 \<le> i \<and> i < int (length (imageLayers s))" by (rule js_findIndex_range)
  with assms Inr show ?thesis
    by (auto simp: onMoveUpSelected_def intro!: wf_redrawCanvas wf_js_swap)
qed

lemma wf_onMoveDownSelected [wf_intros]:
  assumes "wf_canvas s"
  shows "wf_canvas (fst (onMoveDownSelected k s))"
proof (cases "js_findIndex (layer_test s (\<lambda>layer. layer_id layer = k)) (imageLayers s)")
  case (Inl e)
  with assms show ?thesis by (simp add: onMoveDownSelected_def)
next
  case (Inr i)
  then have "-1 \<le> i \<and> i < int (length (imageLayers s))" by (rule js_findIndex_range)
  with assms Inr show ?thesis
    by (auto simp: onMoveDownSelected_def intro!: wf_redrawCanvas wf_js_swap)
qed

lemma wf_onMouseDown [wf_intros]:
  assumes "wf_canvas s"
  shows "wf_canvas (fst (onMouseDown mx my s))"
proof -
  let ?s = "s\<lparr>startX := mx, startY := my\<rparr>"
  have wf: "wf_canvas ?s" using assms by simp
  have "wf_canvas ((set_obj r l ?s)\<lparr>selectedImageLayer := Some r\<rparr>)"
    if "obj_at ?s r = Some sel" and "layer_id l = layer_id sel" for r l sel
  proof -
    from that have r: "r < length (layer_heap ?s)" and "sel = layer_heap ?s ! r"
      by (auto simp: obj_at_Some)
    with that wf have "wf_canvas (set_obj r l ?s)" by (auto intro: wf_set_obj)
    with r show ?thesis by (simp add: wf_canvas_def set_obj_def)
  qed
  with wf show ?thesis
    by (auto simp: onMouseDown_def Let_def split: sum.splits option.splits jsval.splits)
qed

lemma wf_onMouseUp [wf_intros]:
  assumes "wf_canvas s"
  shows "wf_canvas (fst (onMouseUp s))"
proof -
  have "wf_canvas (modify_obj r f s)" if "\<And>l. layer_id (f l) = layer_id l" for r f
    using assms that by (auto simp: modify_obj_def obj_at_Some intro: wf_set_obj split: option.splits)
  then have "wf_canvas ((modify_obj r (\<lambda>l. l\<lparr>isDragging := False, isResizing := False\<rparr>) s)
                         \<lparr>selectedImageLayer := None\<rparr>)" for r
    by (simp add: wf_canvas_def)
  with assms show ?thesis by (simp add: onMouseUp_def split: option.splits)
qed

lemma wf_drag_step [wf_intros]:
  "wf_canvas s \<Longrightarrow> wf_canvas (fst (drag_step r mx my s))"
  by (auto simp: drag_step_def Let_def obj_at_Some intro!: wf_redrawCanvas wf_set_obj
           split: option.splits)

lemma wf_resize_step [wf_intros]:
  "wf_canvas s \<Longrightarrow> wf_canvas (fst (resize_step r mx my s))"
  by (auto simp: resize_step_def Let_def obj_at_Some intro!: wf_redrawCanvas wf_set_obj
           split: option.splits)

lemma wf_onMouseMove [wf_intros]:
  "wf_canvas s \<Longrightarrow> wf_canvas (fst (onMouseMove mx my s))"
  by (auto simp: onMouseMove_def intro!: wf_and_then wf_drag_step wf_resize_step
           split: option.splits)

lemma wf_init_canvas: "wf_canvas (init_canvas w h)"
  by (simp add: init_canvas_def setupCanvas_def wf_canvas_def)

lemma wf_canvas_step: "wf_canvas s \<Longrightarrow> wf_canvas (fst (canvas_step s ev))"
  by (cases ev) (simp_all add: wf_intros)

lemma wf_canvas_run: "wf_canvas s \<Longrightarrow> wf_canvas (canvas_run s evs)"
  by (induction evs arbitrary: s) (simp_all add: wf_canvas_step)

section \<open>Handlers on well-formed intact states\<close>

definition good_slot :: "canvas_state \<Rightarrow> jsval \<Rightarrow> bool" where
  "good_slot s v \<longleftrightarrow> (case v of Undefined \<Rightarrow> False | Obj r \<Rightarrow> r < length (layer_heap s))"

lemma good_slots: "wf_canvas s \<Longrightarrow> intact s \<Longrightarrow> v \<in> set (imageLayers s) \<Longrightarrow> good_slot s v"
  by (cases v) (auto simp: good_slot_def wf_canvas_def intact_def list_all_iff set_refs_of)

lemma layer_test_good: "good_slot s v \<Longrightarrow> layer_test s P v = Inr (P (slot_layer s v))"
  by (cases v) (simp_all add: good_slot_def layer_test_def layer_of_def obj_at_def slot_layer_def)

lemma paint_slots_good:
  "\<forall>v\<in>set vs. good_slot s v \<Longrightarrow> paint_slots s vs = (concat (map (paint_layer \<circ> slot_layer s) vs), None)"
proof (induction vs)
  case (Cons v vs)
  then have "layer_of s v = Inr (slot_layer s v)"
    by (cases v) (simp_all add: good_slot_def layer_of_def obj_at_def slot_layer_def)
  with Cons show ?case by simp
qed simp

lemma redrawCanvas_good:
  assumes "wf_canvas s" and "intact s"
  shows "redrawCanvas s = (s\<lparr>frame := render (canvas_width s) (canvas_height s) (layers s)\<rparr>, None)"
proof -
  have "\<forall>v\<in>set (imageLayers s). good_slot s v" using assms by (blast intro: good_slots)
  then show ?thesis
    by (simp add: redrawCanvas_def paint_slots_good render_def layers_def Let_def)
qed

lemma js_filter_layers:
  "wf_canvas s \<Longrightarrow> intact s \<Longrightarrow>
   js_filter (layer_test s P) (imageLayers s) = Inr (filter (P \<circ> slot_layer s) (imageLayers s))"
  using js_filter_cong [of "imageLayers s" "layer_test s P" "\<lambda>v. Inr (P (slot_layer s v))"]
  by (simp add: layer_test_good good_slots js_filter_total comp_def)

lemma js_findIndex_layers:
  "wf_canvas s \<Longrightarrow> intact s \<Longrightarrow>
   js_findIndex (layer_test s P) (imageLayers s) = Inr (find_idx P (layers s))"
  using js_findIndex_cong [of "imageLayers s" "layer_test s P" "\<lambda>v. Inr (P (slot_layer s v))"]
  by (simp add: layer_test_good good_slots js_findIndex_total layers_def find_idx_map comp_def)

lemma js_find_layers:
  "wf_canvas s \<Longrightarrow> intact s \<Longrightarrow>
   js_find (layer_test s P) (imageLayers s) = Inr (find (P \<circ> slot_layer s) (imageLayers s))"
  using js_find_cong [of "imageLayers s" "layer_test s P" "\<lambda>v. Inr (P (slot_layer s v))"]
  by (simp add: layer_test_good good_slots js_find_total comp_def)

lemmas canvas_reduce = redrawCanvas_good js_filter_layers js_findIndex_layers js_find_layers

text \<open>In a well-formed intact state the layers carry distinct ids.\<close>

lemma distinct_layer_ids:
  assumes "wf_canvas s" and "intact s"
  shows "distinct (map layer_id (layers s))"
proof -
  let ?rs = "refs_of (imageLayers s)"
  have vs: "imageLayers s = map Obj ?rs" using assms(2) by (simp add: intact_def intact_map_Obj)
  have "layers s = map (slot_layer s) (map Obj ?rs)"
    unfolding layers_def by (rule arg_cong [OF vs])
  then have "layers s = map (\<lambda>r. layer_heap s ! r) ?rs"
    by (simp add: slot_layer_def comp_def)
  moreover have "inj_on (\<lambda>r. layer_id (layer_heap s ! r)) (set ?rs)"
  proof (rule inj_onI)
    fix a b assume "a \<in> set ?rs" "b \<in> set ?rs" "layer_id (layer_heap s ! a) = layer_id (layer_heap s ! b)"
    moreover from assms(1) have "distinct (map layer_id (layer_heap s))"
      and "a < length (layer_heap s)" "b < length (layer_heap s)"
      using \<open>a \<in> set ?rs\<close> \<open>b \<in> set ?rs\<close> by (auto simp: wf_canvas_def list_all_iff)
    ultimately show "a = b" by (metis distinct_conv_nth length_map nth_map)
  qed
  ultimately show ?thesis
    using assms(1) by (simp add: wf_canvas_def distinct_map comp_def)
qed

lemma layers_intact_filter:
  "layers (s\<lparr>imageLayers := filter (P \<circ> slot_layer s) (imageLayers s)\<rparr>) = filter P (layers s)"
  by (simp add: layers_def filter_map slot_layer_def)

lemma slot_layer_update [simp]:
  "slot_layer (s\<lparr>imageLayers := vs\<rparr>) = slot_layer s"
  "slot_layer (s\<lparr>frame := f\<rparr>) = slot_layer s"
  by (simp_all add: slot_layer_def fun_eq_iff)

lemma slot_layer_start [simp]: "slot_layer (s\<lparr>startX := a, startY := b\<rparr>) = slot_layer s"
  by (simp add: slot_layer_def fun_eq_iff)

lemma layers_start [simp]: "layers (s\<lparr>startX := a, startY := b\<rparr>) = layers s"
  by (simp add: layers_def)

lemma layers_frame [simp]: "layers (s\<lparr>frame := f\<rparr>) = layers s"
  by (simp add: layers_def)

lemma length_layers [simp]: "length (layers s) = length (imageLayers s)"
  by (simp add: layers_def)

lemma layers_swap_at:
  "i < length (imageLayers s) \<Longrightarrow> j < length (imageLayers s) \<Longrightarrow>
   layers (s\<lparr>imageLayers := swap_at (imageLayers s) i j\<rparr>) = swap_at (layers s) i j"
  by (simp add: layers_def map_swap_at)

lemma intact_swap_at:
  "i < length (imageLayers s) \<Longrightarrow> j < length (imageLayers s) \<Longrightarrow>
   intact (s\<lparr>imageLayers := swap_at (imageLayers s) i j\<rparr>) = intact s"
  by (simp add: intact_def set_swap_at)

lemma intact_filter: "intact s \<Longrightarrow> intact (s\<lparr>imageLayers := filter P (imageLayers s)\<rparr>)"
  by (auto simp: intact_def)

section \<open>The pointer handlers keep the array and the ids\<close>

lemma pointer_keeps_ids:
  "imageLayers (fst (onMouseDown mx my s)) = imageLayers s \<and> nextId (fst (onMouseDown mx my s)) = nextId s
   \<and> map layer_id (layer_heap (fst (onMouseDown mx my s))) = map layer_id (layer_heap s)"
  "imageLayers (fst (onMouseUp s)) = imageLayers s \<and> nextId (fst (onMouseUp s)) = nextId s
   \<and> map layer_id (layer_heap (fst (onMouseUp s))) = map layer_id (layer_heap s)"
  "imageLayers (fst (onMouseMove mx my s)) = imageLayers s \<and> nextId (fst (onMouseMove mx my s)) = nextId s
   \<and> map layer_id (layer_heap (fst (onMouseMove mx my s))) = map layer_id (layer_heap s)"
proof -
  show "imageLayers (fst (onMouseDown mx my s)) = imageLayers s \<and> nextId (fst (onMouseDown mx my s)) = nextId s
   \<and> map layer_id (layer_heap (fst (onMouseDown mx my s))) = map layer_id (layer_heap s)"
    by (auto simp: onMouseDown_def Let_def obj_at_Some map_update_same split: sum.splits option.splits jsval.splits)
  show "imageLayers (fst (onMouseUp s)) = imageLayers s \<and> nextId (fst (onMouseUp s)) = nextId s
   \<and> map layer_id (layer_heap (fst (onMouseUp s))) = map layer_id (layer_heap s)"
    by (auto simp: onMouseUp_def modify_obj_def obj_at_Some map_update_same split: option.splits)
  have d: "imageLayers (fst (drag_step r mx my t)) = imageLayers t \<and> nextId (fst (drag_step r mx my t)) = nextId t
           \<and> map layer_id (layer_heap (fst (drag_step r mx my t))) = map layer_id (layer_heap t)" for r t
    by (auto simp: drag_step_def Let_def obj_at_Some map_update_same split: option.splits)
  have z: "imageLayers (fst (resize_step r mx my t)) = imageLayers t \<and> nextId (fst (resize_step r mx my t)) = nextId t
           \<and> map layer_id (layer_heap (fst (resize_step r mx my t))) = map layer_id (layer_heap t)" for r t
    by (auto simp: resize_step_def Let_def obj_at_Some map_update_same split: option.splits)
  show "imageLayers (fst (onMouseMove mx my s)) = imageLayers s \<and> nextId (fst (onMouseMove mx my s)) = nextId s
   \<and> map layer_id (layer_heap (fst (onMouseMove mx my s))) = map layer_id (layer_heap s)"
  proof (cases "selectedImageLayer s")
    case None
    then show ?thesis by (simp add: onMouseMove_def)
  next
    case (Some r)
    obtain t e where t: "drag_step r mx my s = (t, e)" by (cases "drag_step r mx my s")
    with d [of r s] z [of r t] Some show ?thesis
      by (cases e) (simp_all add: onMouseMove_def and_then_def)
  qed
qed


end
