(* ===== verification/Canvas_Demo.thy ===== *)
theory Canvas_Demo
  imports Canvas_Inv
begin

text \<open>
  Concrete inputs at which the theorems of the canvas theories are instantiated: three
  decoded images, one of them larger than the 800 by 600 canvas, and the component
  state after the three have been loaded (the layers \<open>image_onload\<close> builds, the
  references 0, 1, 2 in the array, \<open>nextId = 3\<close>, no selection, and the canvas showing
  the three layers).
\<close>

definition img_a :: image_el where
  "img_a = \<lparr>img_src = ''a.png'', img_width = 50, img_height = 50\<rparr>"

definition img_b :: image_el where
  "img_b = \<lparr>img_src = ''b.png'', img_width = 900, img_height = 700\<rparr>"

definition img_c :: image_el where
  "img_c = \<lparr>img_src = ''c.png'', img_width = 30, img_height = 20\<rparr>"

definition demo_layers :: "image_layer list" where
  "demo_layers = [new_layer 0 img_a 800 600, new_layer 1 img_b 800 600, new_layer 2 img_c 800 600]"

definition demo_canvas :: canvas_state where
  "demo_canvas =
     \<lparr>canvas_width = 800, canvas_height = 600, layer_heap = demo_layers,
      imageLayers = [Obj 0, Obj 1, Obj 2], selectedImageLayer = None, nextId = 3,
      startX = 0, startY = 0, frame = render 800 600 demo_layers\<rparr>"

lemma demo_canvas_ok: "wf_canvas demo_canvas" "intact demo_canvas"
  by (simp_all add: demo_canvas_def demo_layers_def wf_canvas_def intact_def)

lemma demo_canvas_layers: "layers demo_canvas = demo_layers"
  by (simp add: layers_def slot_layer_def demo_canvas_def demo_layers_def)

lemma demo_layer_ids: "map layer_id demo_layers = [0, 1, 2]"
  by (simp add: demo_layers_def)

lemma demo_canvas_fields:
  "canvas_width demo_canvas = 800" "canvas_height demo_canvas = 600"
  "imageLayers demo_canvas = [Obj 0, Obj 1, Obj 2]" "nextId demo_canvas = 3"
  "selectedImageLayer demo_canvas = None"
  by (simp_all add: demo_canvas_def)

lemmas demo_facts = demo_canvas_ok demo_canvas_layers demo_layer_ids demo_canvas_fields

end
