(* ===== verification/Canvas_Spec.thy ===== *)
theory Canvas_Spec
  imports Canvas_Demo
begin

text \<open>
  What the layer-list operations promise (spec, sections 4.1 and 4.4), written as
  functions on the list of layer values, and the refinement theorems: on a
  well-formed intact state each handler of theory \<open>Canvas\<close> raises nothing, keeps
  the state intact, turns \<open>layers\<close> into what the abstract operation gives and leaves
  the canvas showing the new list. The one exception is \<open>onMoveDownSelected\<close> with an
  id that no layer has, whose behaviour is given by its own theorem.
\<close>

section \<open>The abstract operations\<close>

definition spec_delete :: "nat \<Rightarrow> image_layer list \<Rightarrow> image_layer list" where
  "spec_delete k ls = filter (\<lambda>l. layer_id l \<noteq> k) ls"

text \<open>Move-up swaps the layer with its predecessor; nothing happens at the front or when absent.\<close>

fun spec_move_up :: "nat \<Rightarrow> image_layer list \<Rightarrow> image_layer list" where
  "spec_move_up k (a # b # vs) =
     (if layer_id a = k then a # b # vs
      else if layer_id b = k then b # a # vs
      else a # spec_move_up k (b # vs))"
| "spec_move_up k vs = vs"

text \<open>Move-down swaps the layer with its successor; nothing happens at the end or when absent.\<close>

fun spec_move_down :: "nat \<Rightarrow> image_layer list \<Rightarrow> image_layer list" where
  "spec_move_down k (a # b # vs) =
     (if layer_id a = k then b # a # vs else a # spec_move_down k (b # vs))"
| "spec_move_down k vs = vs"

definition spec_add :: "nat \<Rightarrow> image_el \<Rightarrow> nat \<Rightarrow> nat \<Rightarrow> image_layer list \<Rightarrow> image_layer list" where
  "spec_add nid img w h ls = ls @ [new_layer nid img w h]"

section \<open>The abstract operations by index\<close>

lemma find_idx_Cons_pos:
  "\<not> P a \<Longrightarrow> 0 \<le> find_idx P xs \<Longrightarrow> find_idx P (a # xs) = find_idx P xs + 1"
  by (simp add: Let_def)

lemma spec_move_up_by_index:
  "spec_move_up k ls =
     (let i = find_idx (\<lambda>l. layer_id l = k) ls in if 0 < i then swap_at ls (nat i) (nat i - 1) else ls)"
proof (induction k ls rule: spec_move_up.induct)
  case (1 k a b vs)
  let ?P = "\<lambda>l. layer_id l = k"
  show ?case
  proof (cases "?P a \<or> ?P b")
    case True
    then show ?thesis by (auto simp: Let_def)
  next
    case False
    show ?thesis
    proof (cases "find_idx ?P (b # vs) < 0")
      case True
      with False "1.IH" show ?thesis by (simp add: Let_def)
    next
      case nb: False
      then have pos: "0 < find_idx ?P (b # vs)" using False by (simp add: Let_def split: if_splits)
      then obtain m where m: "find_idx ?P (b # vs) = int m" "0 < m" by (rule pos_int_cases)
      then obtain n where n: "find_idx ?P (b # vs) = int (Suc n)" by (cases m) auto
      with False have "find_idx ?P (a # b # vs) = int (Suc (Suc n))"
        by (simp add: find_idx_Cons_pos del: find_idx.simps)
      moreover have "nat (1 + int n) = Suc n" and "nat (2 + int n) = Suc (Suc n)"
        by simp_all
      ultimately show ?thesis using False "1.IH" n by (simp add: Let_def)
    qed
  qed
qed (simp_all add: Let_def)

lemma spec_move_down_by_index:
  "spec_move_down k ls =
     (let i = find_idx (\<lambda>l. layer_id l = k) ls in
      if 0 \<le> i \<and> i < int (length ls) - 1 then swap_at ls (nat i) (Suc (nat i)) else ls)"
proof (induction k ls rule: spec_move_down.induct)
  case (1 k a b vs)
  let ?P = "\<lambda>l. layer_id l = k"
  show ?case
  proof (cases "?P a")
    case True
    then show ?thesis by (simp add: Let_def)
  next
    case False
    show ?thesis
    proof (cases "find_idx ?P (b # vs) < 0")
      case True
      with False "1.IH" show ?thesis by (simp add: Let_def)
    next
      case nb: False
      then obtain n where n: "find_idx ?P (b # vs) = int n"
        by (metis nonneg_int_cases not_less)
      with False have "find_idx ?P (a # b # vs) = int (Suc n)"
        by (simp add: find_idx_Cons_pos del: find_idx.simps)
      with False "1.IH" n show ?thesis by (simp add: Let_def)
    qed
  qed
qed (simp_all add: Let_def)

section \<open>Refinement\<close>

text \<open>
  A handler's outcome \<open>r\<close> implements the abstract list \<open>ls\<close>: it raised no
  exception, the new state is well-formed and intact, and its layers are \<open>ls\<close>.
\<close>

definition completes_with :: "outcome \<Rightarrow> image_layer list \<Rightarrow> bool" where
  "completes_with r ls \<longleftrightarrow>
     snd r = None \<and> wf_canvas (fst r) \<and> intact (fst r) \<and> layers (fst r) = ls"

lemma completes_with_redraw:
  "wf_canvas s \<Longrightarrow> intact s \<Longrightarrow> completes_with (redrawCanvas s) (layers s)"
  by (simp add: completes_with_def redrawCanvas_good)

lemma completes_with_unchanged:
  "wf_canvas s \<Longrightarrow> intact s \<Longrightarrow> completes_with (s, None) (layers s)"
  by (simp add: completes_with_def)

text \<open>Redrawing after a swap of two in-range slots.\<close>

lemma completes_with_swap:
  assumes "wf_canvas s" and "intact s"
    and "a < length (imageLayers s)" and "b < length (imageLayers s)"
  shows "completes_with (redrawCanvas (s\<lparr>imageLayers := js_swap (imageLayers s) (int a) (int b)\<rparr>))
           (swap_at (layers s) a b)"
proof -
  let ?s = "s\<lparr>imageLayers := swap_at (imageLayers s) a b\<rparr>"
  have "wf_canvas (s\<lparr>imageLayers := js_swap (imageLayers s) (int a) (int b)\<rparr>)"
    using assms by (intro wf_js_swap) auto
  then have "wf_canvas ?s" using assms(3,4) by (simp add: js_swap_in_range)
  moreover have "intact ?s" using assms by (simp add: intact_swap_at)
  ultimately show ?thesis
    using assms(3,4) completes_with_redraw [of ?s] by (simp add: js_swap_in_range layers_swap_at)
qed

lemma onDeleteSelected_eq:
  "wf_canvas s \<Longrightarrow> intact s \<Longrightarrow>
   onDeleteSelected k s =
     redrawCanvas (s\<lparr>imageLayers := filter ((\<lambda>l. layer_id l \<noteq> k) \<circ> slot_layer s) (imageLayers s)\<rparr>)"
  by (simp add: onDeleteSelected_def js_filter_layers)

lemma onDeleteSelected_completes:
  assumes "wf_canvas s" and "intact s"
  shows "completes_with (onDeleteSelected k s) (spec_delete k (layers s))"
proof -
  let ?s = "s\<lparr>imageLayers := filter ((\<lambda>l. layer_id l \<noteq> k) \<circ> slot_layer s) (imageLayers s)\<rparr>"
  have "wf_canvas ?s" and "intact ?s"
    using assms by (simp_all add: wf_filter_slots intact_filter)
  then have "completes_with (redrawCanvas ?s) (layers ?s)" by (rule completes_with_redraw)
  then show ?thesis
    using assms by (simp add: onDeleteSelected_eq layers_intact_filter spec_delete_def)
qed

text \<open>C1: deleting a layer by id implements the abstract deletion.\<close>

theorem onDeleteSelected_refines:
  assumes "wf_canvas s" and "intact s"
  shows "completes_with (onDeleteSelected k s) (spec_delete k (layers s))"
  using assms by (rule onDeleteSelected_completes)

theorem onDeleteSelected_refines_witness: "wf_canvas demo_canvas \<and> intact demo_canvas \<and>
   completes_with (onDeleteSelected 1 demo_canvas) [new_layer 0 img_a 800 600, new_layer 2 img_c 800 600]"
  using onDeleteSelected_refines [OF demo_canvas_ok, of 1]
  by (simp add: demo_facts spec_delete_def demo_layers_def)

lemma onMoveUpSelected_completes:
  assumes "wf_canvas s" and "intact s"
  shows "completes_with (onMoveUpSelected k s) (spec_move_up k (layers s))"
proof -
  let ?i = "find_idx (\<lambda>l. layer_id l = k) (layers s)"
  have eq: "onMoveUpSelected k s =
      (if ?i > 0 then redrawCanvas (s\<lparr>imageLayers := js_swap (imageLayers s) ?i (?i - 1)\<rparr>) else (s, None))"
    using assms by (simp add: onMoveUpSelected_def js_findIndex_layers)
  show ?thesis
  proof (cases "?i > 0")
    case True
    then obtain m where m: "?i = int (Suc m)" by (metis pos_int_cases Suc_pred)
    moreover have "?i < int (length (layers s))" by (rule find_idx_less_length)
    ultimately have "Suc m < length (imageLayers s)" by simp
    with assms completes_with_swap [of s "Suc m" m] have
      "completes_with (redrawCanvas (s\<lparr>imageLayers := js_swap (imageLayers s) ?i (?i - 1)\<rparr>))
         (swap_at (layers s) (Suc m) m)"
      using m by simp
    with True m show ?thesis by (simp add: eq spec_move_up_by_index Let_def)
  next
    case False
    with assms show ?thesis
      by (simp add: eq spec_move_up_by_index Let_def completes_with_unchanged)
  qed
qed

text \<open>C2: moving a layer up implements the abstract move-up.\<close>

theorem onMoveUpSelected_refines:
  assumes "wf_canvas s" and "intact s"
  shows "completes_with (onMoveUpSelected k s) (spec_move_up k (layers s))"
  using assms by (rule onMoveUpSelected_completes)

theorem onMoveUpSelected_refines_witness: "wf_canvas demo_canvas \<and> intact demo_canvas \<and>
   completes_with (onMoveUpSelected 1 demo_canvas)
     [new_layer 1 img_b 800 600, new_layer 0 img_a 800 600, new_layer 2 img_c 800 600]"
  using onMoveUpSelected_refines [OF demo_canvas_ok, of 1]
  by (simp add: demo_facts demo_layers_def)

lemma onMoveDownSelected_completes:
  assumes "wf_canvas s" and "intact s" and "k \<in> layer_id ` set (layers s)"
  shows "completes_with (onMoveDownSelected k s) (spec_move_down k (layers s))"
proof -
  let ?i = "find_idx (\<lambda>l. layer_id l = k) (layers s)"
  have "\<not> ?i < 0" using assms(3) by (auto simp: find_idx_neg_iff)
  then obtain n where n: "?i = int n" by (metis nonneg_int_cases not_less)
  have eq: "onMoveDownSelected k s =
      (if int n < int (length (imageLayers s)) - 1
       then redrawCanvas (s\<lparr>imageLayers := js_swap (imageLayers s) (int n) (int (Suc n))\<rparr>)
       else (s, None))"
    using assms n by (simp add: onMoveDownSelected_def js_findIndex_layers add.commute)
  show ?thesis
  proof (cases "int n < int (length (imageLayers s)) - 1")
    case True
    then have "Suc n < length (imageLayers s)" by simp
    with assms completes_with_swap [of s n "Suc n"] True n show ?thesis
      by (simp add: eq spec_move_down_by_index Let_def)
  next
    case False
    with assms n show ?thesis
      by (simp add: eq spec_move_down_by_index Let_def completes_with_unchanged)
  qed
qed

text \<open>C3: moving down a layer that exists implements the abstract move-down.\<close>

theorem onMoveDownSelected_refines:
  assumes "wf_canvas s" and "intact s" and "k \<in> layer_id ` set (layers s)"
  shows "completes_with (onMoveDownSelected k s) (spec_move_down k (layers s))"
  using assms by (rule onMoveDownSelected_completes)

theorem onMoveDownSelected_refines_witness: "wf_canvas demo_canvas \<and> intact demo_canvas \<and> 2 \<in> layer_id ` set (layers demo_canvas) \<and>
   completes_with (onMoveDownSelected 2 demo_canvas) demo_layers"
  using onMoveDownSelected_refines [OF demo_canvas_ok, of 2]
  by (simp add: demo_facts demo_layers_def)

lemma onMoveDownSelected_absent_eq:
  assumes "wf_canvas s" and "intact s" and "imageLayers s \<noteq> []"
    and "k \<notin> layer_id ` set (layers s)"
  shows "onMoveDownSelected k s =
           (s\<lparr>imageLayers := Undefined # tl (imageLayers s),
              frame := [ClearRect 0 0 (of_nat (canvas_width s)) (of_nat (canvas_height s)),
                        FillRect White 0 0 (of_nat (canvas_width s)) (of_nat (canvas_height s))]\<rparr>,
            Some TypeError)"
proof -
  have "find_idx (\<lambda>l. layer_id l = k) (layers s) = -1"
    using assms(4) by (intro find_idx_minus_one) auto
  moreover have "-1 < int (length (imageLayers s)) - 1" using assms(3) by simp
  ultimately have "onMoveDownSelected k s =
      redrawCanvas (s\<lparr>imageLayers := js_swap (imageLayers s) (-1) 0\<rparr>)"
    using assms(1,2) by (simp add: onMoveDownSelected_def js_findIndex_layers)
  also have "js_swap (imageLayers s) (-1) 0 = Undefined # tl (imageLayers s)"
    using assms(3) by (rule js_swap_minus_one)
  finally show ?thesis
    by (simp add: redrawCanvas_def layer_of_def Let_def)
qed

text \<open>
  C4: moving down an id that no layer has, on a non-empty list. The index \<open>-1\<close>
  passes the guard \<open>index < length - 1\<close>; the swap of positions \<open>-1\<close> and \<open>0\<close>
  writes \<open>undefined\<close> into the first slot, and the redraw that follows throws on it
  after clearing the canvas.
\<close>

theorem onMoveDownSelected_absent:
  assumes "wf_canvas s" and "intact s" and "imageLayers s \<noteq> []"
    and "k \<notin> layer_id ` set (layers s)"
  shows "onMoveDownSelected k s =
           (s\<lparr>imageLayers := Undefined # tl (imageLayers s),
              frame := [ClearRect 0 0 (of_nat (canvas_width s)) (of_nat (canvas_height s)),
                        FillRect White 0 0 (of_nat (canvas_width s)) (of_nat (canvas_height s))]\<rparr>,
            Some TypeError)"
  using assms by (rule onMoveDownSelected_absent_eq)

theorem onMoveDownSelected_absent_witness: "onMoveDownSelected 7 demo_canvas =
   (demo_canvas\<lparr>imageLayers := [Undefined, Obj 1, Obj 2],
      frame := [ClearRect 0 0 800 600, FillRect White 0 0 800 600]\<rparr>, Some TypeError)"
  using onMoveDownSelected_absent [OF demo_canvas_ok, of 7]
  by (simp add: demo_facts demo_layers_def)

text \<open>Pushing a layer object keeps the layers already there.\<close>

lemma layers_push:
  assumes "wf_canvas s" and "intact s"
  shows "layers (s\<lparr>layer_heap := layer_heap s @ [l],
            imageLayers := imageLayers s @ [Obj (length (layer_heap s))], nextId := n\<rparr>)
         = layers s @ [l]"
proof -
  have "slot_layer (s\<lparr>layer_heap := layer_heap s @ [l], imageLayers := vs, nextId := n\<rparr>) v = slot_layer s v"
    if "v \<in> set (imageLayers s)" for v vs
    using good_slots [OF assms that]
    by (cases v) (simp_all add: good_slot_def slot_layer_def nth_append)
  then show ?thesis by (simp add: layers_def slot_layer_def)
qed

lemma image_onload_completes:
  assumes "wf_canvas s" and "intact s"
  shows "completes_with (image_onload img s)
           (spec_add (nextId s) img (canvas_width s) (canvas_height s) (layers s))
         \<and> nextId (fst (image_onload img s)) = Suc (nextId s)"
proof -
  let ?l = "new_layer (nextId s) img (canvas_width s) (canvas_height s)"
  let ?s = "s\<lparr>layer_heap := layer_heap s @ [?l],
              imageLayers := imageLayers s @ [Obj (length (layer_heap s))], nextId := Suc (nextId s)\<rparr>"
  have "wf_canvas ?s" using assms(1) by (simp add: wf_push_layer)
  moreover have "intact ?s" using assms(2) by (simp add: intact_def)
  ultimately have "completes_with (redrawCanvas ?s) (layers ?s)" by (rule completes_with_redraw)
  moreover have "layers ?s = layers s @ [?l]" using assms by (rule layers_push)
  moreover have "nextId (fst (redrawCanvas ?s)) = Suc (nextId s)" by (simp add: redrawCanvas_state)
  ultimately show ?thesis by (simp add: image_onload_def spec_add_def)
qed

text \<open>
  C5: a decoded image becomes a new layer on top of the others, with the next id, at
  (50, 50), its size clamped to the canvas.
\<close>

theorem image_onload_refines:
  assumes "wf_canvas s" and "intact s"
  shows "completes_with (image_onload img s)
           (spec_add (nextId s) img (canvas_width s) (canvas_height s) (layers s))
         \<and> nextId (fst (image_onload img s)) = Suc (nextId s)"
  using assms by (rule image_onload_completes)

theorem image_onload_refines_witness: "completes_with (image_onload img_a demo_canvas) (demo_layers @ [new_layer 3 img_a 800 600])
   \<and> nextId (fst (image_onload img_a demo_canvas)) = 4"
  using image_onload_refines [OF demo_canvas_ok, of img_a]
  by (simp add: demo_facts spec_add_def)

text \<open>
  C6: once the first slot holds \<open>undefined\<close>, every handler that scans the array
  throws \<open>TypeError\<close> before changing anything, and every redraw throws: no layer can
  be deleted, reordered or picked again.
\<close>

theorem undefined_head_wedges:
  assumes "imageLayers s = Undefined # vs"
  shows "onDeleteSelected k s = (s, Some TypeError)
         \<and> onMoveUpSelected k s = (s, Some TypeError)
         \<and> onMoveDownSelected k s = (s, Some TypeError)
         \<and> onMouseDown mx my s = (s\<lparr>startX := mx, startY := my\<rparr>, Some TypeError)
         \<and> snd (redrawCanvas s) = Some TypeError"
  using assms
  by (simp add: onDeleteSelected_def onMoveUpSelected_def onMoveDownSelected_def onMouseDown_def
      redrawCanvas_def js_findIndex_def layer_test_def layer_of_def Let_def)

theorem undefined_head_wedges_witness: "onDeleteSelected 1 (demo_canvas\<lparr>imageLayers := [Undefined, Obj 1, Obj 2]\<rparr>) =
      (demo_canvas\<lparr>imageLayers := [Undefined, Obj 1, Obj 2]\<rparr>, Some TypeError)"
  using undefined_head_wedges [of "demo_canvas\<lparr>imageLayers := [Undefined, Obj 1, Obj 2]\<rparr>"] by simp

section \<open>Well-formedness of every reachable state\<close>

text \<open>
  C7: from the state \<open>ngAfterViewInit\<close> leaves, any sequence of image loads, list
  operations and mouse events, whether or not a handler throws, keeps the heap
  well-formed: slots and the selection name allocated objects, no object sits in two
  slots, and the ids of all objects ever created are distinct and below \<open>nextId\<close>.
\<close>

theorem canvas_reachable_wf: "wf_canvas (canvas_run (init_canvas w h) evs)"
  using wf_init_canvas by (rule wf_canvas_run)

end
