(* ===== verification/Canvas_Gesture.thy ===== *)
theory Canvas_Gesture
  imports Canvas_Demo
begin

text \<open>
  The pointer gestures of the canvas component: what \<open>onMouseDown\<close> selects, what a
  sequence of \<open>onMouseMove\<close> events does to a dragged or resized layer, and when a
  resize is committed. The theorems are stated on well-formed intact states, where no
  handler throws.
\<close>

section \<open>Heap reads after writes\<close>

lemma obj_at_set_obj [simp]:
  "r < length (layer_heap s) \<Longrightarrow> obj_at (set_obj r l s) r = Some l"
  by (simp add: obj_at_def)

lemma obj_at_fields [simp]:
  "obj_at (s\<lparr>startX := a, startY := b\<rparr>) = obj_at s"
  "obj_at (s\<lparr>frame := f\<rparr>) = obj_at s"
  "obj_at (s\<lparr>selectedImageLayer := q\<rparr>) = obj_at s"
  by (simp_all add: obj_at_def fun_eq_iff)

text \<open>A redraw of a well-formed intact state only repaints.\<close>

lemma redraw_keeps:
  assumes "wf_canvas s" and "intact s"
  shows "snd (redrawCanvas s) = None" and "wf_canvas (fst (redrawCanvas s))"
    and "intact (fst (redrawCanvas s))" and "obj_at (fst (redrawCanvas s)) = obj_at s"
    and "selectedImageLayer (fst (redrawCanvas s)) = selectedImageLayer s"
    and "startX (fst (redrawCanvas s)) = startX s" and "startY (fst (redrawCanvas s)) = startY s"
    and "canvas_width (fst (redrawCanvas s)) = canvas_width s"
    and "canvas_height (fst (redrawCanvas s)) = canvas_height s"
  using assms by (simp_all add: redrawCanvas_good)

section \<open>One move of a drag or a resize\<close>

lemma drag_move:
  fixes mx my :: coord
  assumes "wf_canvas s" and "intact s" and "selectedImageLayer s = Some r"
    and "obj_at s r = Some l" and "isDragging l" and "\<not> isResizing l"
  defines "l' \<equiv> l\<lparr>x := x l + (mx - startX s), y := y l + (my - startY s)\<rparr>"
  shows "snd (onMouseMove mx my s) = None \<and> wf_canvas (fst (onMouseMove mx my s))
         \<and> intact (fst (onMouseMove mx my s))
         \<and> selectedImageLayer (fst (onMouseMove mx my s)) = Some r
         \<and> obj_at (fst (onMouseMove mx my s)) r = Some l'
         \<and> startX (fst (onMouseMove mx my s)) = mx \<and> startY (fst (onMouseMove mx my s)) = my
         \<and> canvas_width (fst (onMouseMove mx my s)) = canvas_width s
         \<and> canvas_height (fst (onMouseMove mx my s)) = canvas_height s"
proof -
  let ?s = "set_obj r l' (s\<lparr>startX := mx, startY := my\<rparr>)"
  from assms(4) have r: "r < length (layer_heap s)" and l: "l = layer_heap s ! r"
    by (auto simp: obj_at_Some)
  have wf: "wf_canvas ?s" using assms(1) r l by (intro wf_set_obj) (simp_all add: l'_def)
  have ok: "intact ?s" using assms(2) by simp
  have drag: "drag_step r mx my s = redrawCanvas ?s"
    using assms(4,5) by (simp add: drag_step_def l'_def Let_def)
  obtain s1 where rd: "redrawCanvas ?s = (s1, None)"
    using redraw_keeps(1) [OF wf ok] by (cases "redrawCanvas ?s") simp
  have s1: "wf_canvas s1" "intact s1" "obj_at s1 = obj_at ?s" "selectedImageLayer s1 = Some r"
    "startX s1 = mx" "startY s1 = my" "canvas_width s1 = canvas_width s"
    "canvas_height s1 = canvas_height s"
    using redraw_keeps [OF wf ok] rd assms(3) by simp_all
  then have "obj_at s1 r = Some l'" using r by simp
  moreover have "\<not> isResizing l'" using assms(6) by (simp add: l'_def)
  ultimately have "resize_step r mx my s1 = (s1, None)"
    by (simp add: resize_step_def)
  then have "onMouseMove mx my s = (s1, None)"
    using assms(3) by (simp add: onMouseMove_def and_then_def drag rd)
  with s1 \<open>obj_at s1 r = Some l'\<close> show ?thesis by simp
qed

lemma resize_move:
  fixes mx my :: coord
  assumes "wf_canvas s" and "intact s" and "selectedImageLayer s = Some r"
    and "obj_at s r = Some l" and "\<not> isDragging l" and "isResizing l"
  defines "l' \<equiv> (if 0 < mx - x l \<and> 0 < my - y l \<and>
                    mx - x l \<le> of_nat (canvas_width s) \<and> my - y l \<le> of_nat (canvas_height s)
                 then l\<lparr>width := mx - x l, height := my - y l\<rparr> else l)"
  shows "snd (onMouseMove mx my s) = None \<and> wf_canvas (fst (onMouseMove mx my s))
         \<and> intact (fst (onMouseMove mx my s))
         \<and> selectedImageLayer (fst (onMouseMove mx my s)) = Some r
         \<and> obj_at (fst (onMouseMove mx my s)) r = Some l'
         \<and> startX (fst (onMouseMove mx my s)) = startX s \<and> startY (fst (onMouseMove mx my s)) = startY s"
proof -
  let ?s = "set_obj r l' s"
  from assms(4) have r: "r < length (layer_heap s)" and l: "l = layer_heap s ! r"
    by (auto simp: obj_at_Some)
  have wf: "wf_canvas ?s" using assms(1) r l by (intro wf_set_obj) (simp_all add: l'_def)
  have ok: "intact ?s" using assms(2) by simp
  have "?s = (if 0 < mx - x l \<and> 0 < my - y l \<and>
                 mx - x l \<le> of_nat (canvas_width s) \<and> my - y l \<le> of_nat (canvas_height s)
              then set_obj r (l\<lparr>width := mx - x l, height := my - y l\<rparr>) s else s)"
    using r l by (simp add: l'_def set_obj_def)
  then have resize: "resize_step r mx my s = redrawCanvas ?s"
    using assms(4,6) by (simp add: resize_step_def Let_def)
  have "onMouseMove mx my s = redrawCanvas ?s"
    using assms(3,4,5) by (simp add: onMouseMove_def and_then_def drag_step_def resize)
  then show ?thesis
    using redraw_keeps [OF wf ok] r assms(3) by simp
qed

section \<open>Dragging\<close>

text \<open>
  C8: during a drag, each move shifts the layer by the pointer's displacement since the
  previous event and makes the pointer the new anchor, so after any non-empty sequence
  of moves the layer has moved by the last pointer position minus the anchor of the
  press: the sum of the increments, not of the raw event positions.
\<close>

theorem drag_gesture:
  assumes "wf_canvas s" and "intact s" and "selectedImageLayer s = Some r"
    and "obj_at s r = Some l" and "isDragging l" and "\<not> isResizing l" and "ps \<noteq> []"
  shows "obj_at (canvas_run s (map (\<lambda>(a, b). MouseMove a b) ps)) r =
           Some (l\<lparr>x := x l + (fst (last ps) - startX s), y := y l + (snd (last ps) - startY s)\<rparr>)"
  using assms
proof (induction ps arbitrary: s l)
  case Nil
  then show ?case by simp
next
  case (Cons p ps)
  obtain a b where p: "p = (a, b)" by (cases p)
  let ?l = "l\<lparr>x := x l + (a - startX s), y := y l + (b - startY s)\<rparr>"
  let ?s = "fst (onMouseMove a b s)"
  have step: "wf_canvas ?s \<and> intact ?s \<and> selectedImageLayer ?s = Some r \<and> obj_at ?s r = Some ?l
              \<and> startX ?s = a \<and> startY ?s = b"
    using drag_move [OF Cons.prems(1-6), of a b] by simp
  show ?case
  proof (cases "ps = []")
    case True
    with step p show ?thesis by simp
  next
    case False
    have "obj_at (canvas_run ?s (map (\<lambda>(a, b). MouseMove a b) ps)) r =
            Some (?l\<lparr>x := x ?l + (fst (last ps) - a), y := y ?l + (snd (last ps) - b)\<rparr>)"
      using Cons.IH [of ?s ?l] step Cons.prems(5,6) False by simp
    with False p show ?thesis by simp
  qed
qed

text \<open>The example of the spec: a 50 by 50 layer at (50, 50) dragged twice by (+20, +20).\<close>

theorem drag_gesture_witness:
  "obj_at (canvas_run (demo_canvas\<lparr>layer_heap := (demo_layers)[0 := (new_layer 0 img_a 800 600)\<lparr>isDragging := True\<rparr>],
                                   selectedImageLayer := Some 0, startX := 60, startY := 60\<rparr>)
             [MouseMove 80 80, MouseMove 100 100]) 0
   = Some ((new_layer 0 img_a 800 600)\<lparr>isDragging := True, x := 90, y := 90\<rparr>)"
proof -
  let ?s = "demo_canvas\<lparr>layer_heap := (demo_layers)[0 := (new_layer 0 img_a 800 600)\<lparr>isDragging := True\<rparr>],
                        selectedImageLayer := Some 0, startX := 60, startY := 60\<rparr>"
  have "wf_canvas ?s" "intact ?s"
    by (simp_all add: demo_canvas_def demo_layers_def wf_canvas_def intact_def)
  moreover have "obj_at ?s 0 = Some ((new_layer 0 img_a 800 600)\<lparr>isDragging := True\<rparr>)"
    by (simp add: obj_at_def demo_canvas_def demo_layers_def)
  ultimately show ?thesis
    using drag_gesture [of ?s 0 "(new_layer 0 img_a 800 600)\<lparr>isDragging := True\<rparr>"
                        "[(80, 80), (100, 100)]"]
    by simp
qed

section \<open>Resizing\<close>

text \<open>
  C9: during a resize, a move sets the size to the pointer minus the layer's origin
  when both sides are positive and within the canvas, and otherwise leaves the size as
  it was (the resize is refused, not clamped); the origin never changes.
\<close>

theorem resize_gesture:
  assumes "wf_canvas s" and "intact s" and "selectedImageLayer s = Some r"
    and "obj_at s r = Some l" and "\<not> isDragging l" and "isResizing l"
  shows "snd (onMouseMove mx my s) = None \<and>
         obj_at (fst (onMouseMove mx my s)) r =
           Some (if 0 < mx - x l \<and> 0 < my - y l \<and>
                    mx - x l \<le> of_nat (canvas_width s) \<and> my - y l \<le> of_nat (canvas_height s)
                 then l\<lparr>width := mx - x l, height := my - y l\<rparr> else l)"
  using resize_move [OF assms, of mx my] by simp

theorem resize_gesture_witness:
  "obj_at (fst (onMouseMove 90 90 (demo_canvas\<lparr>layer_heap := (demo_layers)[0 := (new_layer 0 img_a 800 600)\<lparr>isResizing := True\<rparr>],
                                   selectedImageLayer := Some 0\<rparr>))) 0
   = Some ((new_layer 0 img_a 800 600)\<lparr>isResizing := True, width := 40, height := 40\<rparr>)
   \<and> obj_at (fst (onMouseMove 900 90 (demo_canvas\<lparr>layer_heap := (demo_layers)[0 := (new_layer 0 img_a 800 600)\<lparr>isResizing := True\<rparr>],
                                   selectedImageLayer := Some 0\<rparr>))) 0
   = Some ((new_layer 0 img_a 800 600)\<lparr>isResizing := True\<rparr>)"
proof -
  let ?s = "demo_canvas\<lparr>layer_heap := (demo_layers)[0 := (new_layer 0 img_a 800 600)\<lparr>isResizing := True\<rparr>],
                        selectedImageLayer := Some 0\<rparr>"
  have h: "wf_canvas ?s" "intact ?s" "selectedImageLayer ?s = Some 0"
    "obj_at ?s 0 = Some ((new_layer 0 img_a 800 600)\<lparr>isResizing := True\<rparr>)"
    by (simp_all add: demo_canvas_def demo_layers_def wf_canvas_def intact_def obj_at_def)
  show ?thesis
    using resize_gesture [OF h, of 90 90] resize_gesture [OF h, of 900 90]
    by (simp add: demo_canvas_def)
qed

section \<open>Pressing\<close>

lemma mouse_down_first_hit:
  assumes "wf_canvas s" and "intact s" and "layers s = us @ l # vs"
    and "isMouseOverLayer mx my l" and "\<forall>u\<in>set us. \<not> isMouseOverLayer mx my u"
  shows "\<exists>r. imageLayers s ! length us = Obj r \<and>
           onMouseDown mx my s =
             ((set_obj r (if onResizeHandle mx my l then l\<lparr>isResizing := True\<rparr> else l\<lparr>isDragging := True\<rparr>)
                 (s\<lparr>startX := mx, startY := my\<rparr>))\<lparr>selectedImageLayer := Some r\<rparr>, None)"
proof -
  let ?s = "s\<lparr>startX := mx, startY := my\<rparr>"
  let ?P = "isMouseOverLayer mx my"
  let ?vs = "imageLayers s"
  have len: "length us < length ?vs" using assms(3) length_layers [of s] by simp
  have split: "?vs = take (length us) ?vs @ ?vs ! length us # drop (Suc (length us)) ?vs"
    using len by (simp add: Cons_nth_drop_Suc)
  have "map (slot_layer s) ?vs = us @ l # vs" using assms(3) by (simp add: layers_def)
  then have pre: "map (slot_layer s) (take (length us) ?vs) = us"
    and at: "slot_layer s (?vs ! length us) = l"
    using len by (simp_all add: take_map [symmetric] nth_append)
      (metis length_map nth_append_length nth_map)
  have "\<forall>u\<in>set (take (length us) ?vs). \<not> (?P \<circ> slot_layer s) u"
  proof
    fix u assume "u \<in> set (take (length us) ?vs)"
    then have "slot_layer s u \<in> set us" using pre by (metis image_eqI list.set_map)
    with assms(5) show "\<not> (?P \<circ> slot_layer s) u" by simp
  qed
  then have "find (?P \<circ> slot_layer s) ?vs = Some (?vs ! length us)"
    using assms(4) at by (subst split, intro find_append_first) auto
  moreover have "good_slot s (?vs ! length us)" using good_slots [OF assms(1,2)] len by simp
  then obtain r where r: "?vs ! length us = Obj r" and rl: "r < length (layer_heap s)"
    by (auto simp: good_slot_def split: jsval.splits)
  moreover have "obj_at ?s r = Some l"
    using at r rl by (simp add: obj_at_def slot_layer_def)
  moreover have "js_find (layer_test ?s ?P) (imageLayers ?s) = Inr (find (?P \<circ> slot_layer ?s) (imageLayers ?s))"
    using assms(1,2) by (intro js_find_layers) simp_all
  ultimately show ?thesis by (simp add: onMouseDown_def Let_def)
qed

text \<open>
  C10: a press selects the first layer in array order whose rectangle holds the
  pointer, flags it resizing when the pointer is also on its handle square and dragging
  otherwise, and records the pointer as the anchor. The first layer in array order is
  the bottom-most of those drawn under the pointer: a layer painted on top of it is not
  the one picked.
\<close>

theorem onMouseDown_hit:
  assumes "wf_canvas s" and "intact s" and "layers s = us @ l # vs"
    and "isMouseOverLayer mx my l" and "\<forall>u\<in>set us. \<not> isMouseOverLayer mx my u"
  shows "\<exists>r. imageLayers s ! length us = Obj r \<and>
           onMouseDown mx my s =
             ((set_obj r (if onResizeHandle mx my l then l\<lparr>isResizing := True\<rparr> else l\<lparr>isDragging := True\<rparr>)
                 (s\<lparr>startX := mx, startY := my\<rparr>))\<lparr>selectedImageLayer := Some r\<rparr>, None)"
  using assms by (rule mouse_down_first_hit)

text \<open>
  The witness presses at (60, 60), inside the first layer (50 by 50 at (50, 50)) and
  inside the second (800 by 600 at (50, 50)), which is drawn on top of it: the first is
  picked.
\<close>

theorem onMouseDown_hit_witness:
  "onMouseDown 60 60 demo_canvas =
     ((set_obj 0 ((new_layer 0 img_a 800 600)\<lparr>isDragging := True\<rparr>)
        (demo_canvas\<lparr>startX := 60, startY := 60\<rparr>))\<lparr>selectedImageLayer := Some 0\<rparr>, None)"
proof -
  have h: "layers demo_canvas = [] @ new_layer 0 img_a 800 600 # [new_layer 1 img_b 800 600, new_layer 2 img_c 800 600]"
    by (simp add: demo_facts demo_layers_def)
  have "isMouseOverLayer 60 60 (new_layer 0 img_a 800 600)"
    "\<not> onResizeHandle 60 60 (new_layer 0 img_a 800 600)"
    by (simp_all add: isMouseOverLayer_def onResizeHandle_def img_a_def Let_def)
  with onMouseDown_hit [OF demo_canvas_ok h, of 60 60] show ?thesis
    by (simp add: demo_facts)
qed

text \<open>
  C11: a press outside every layer's rectangle only records the anchor. In particular
  a press on the part of a drawn resize handle that lies outside its layer (three
  quarters of the square) starts no resize unless another layer is under it.
\<close>

theorem onMouseDown_miss:
  assumes "wf_canvas s" and "intact s" and "\<forall>l\<in>set (layers s). \<not> isMouseOverLayer mx my l"
  shows "onMouseDown mx my s = (s\<lparr>startX := mx, startY := my\<rparr>, None)"
proof -
  let ?s = "s\<lparr>startX := mx, startY := my\<rparr>"
  have "find (isMouseOverLayer mx my \<circ> slot_layer s) (imageLayers s) = None"
    using assms(3) by (auto simp: find_None_iff layers_def)
  moreover have "js_find (layer_test ?s (isMouseOverLayer mx my)) (imageLayers ?s) =
                 Inr (find (isMouseOverLayer mx my \<circ> slot_layer ?s) (imageLayers ?s))"
    using assms(1,2) by (intro js_find_layers) simp_all
  ultimately show ?thesis by (simp add: onMouseDown_def Let_def)
qed

text \<open>The witness: one 50 by 50 layer at (50, 50), pressed at (102, 102), inside its drawn handle.\<close>

theorem onMouseDown_miss_witness:
  "onMouseDown 102 102 (demo_canvas\<lparr>imageLayers := [Obj 0]\<rparr>) =
     (demo_canvas\<lparr>imageLayers := [Obj 0], startX := 102, startY := 102\<rparr>, None)
   \<and> onResizeHandle 102 102 (new_layer 0 img_a 800 600)"
proof -
  let ?s = "demo_canvas\<lparr>imageLayers := [Obj 0]\<rparr>"
  have h: "wf_canvas ?s" "intact ?s"
    by (simp_all add: demo_canvas_def demo_layers_def wf_canvas_def intact_def)
  have "layers ?s = [new_layer 0 img_a 800 600]"
    by (simp add: layers_def slot_layer_def demo_canvas_def demo_layers_def)
  then have "\<forall>l\<in>set (layers ?s). \<not> isMouseOverLayer 102 102 l"
    by (simp add: isMouseOverLayer_def img_a_def)
  with onMouseDown_miss [OF h] show ?thesis
    by (simp add: onResizeHandle_def img_a_def Let_def)
qed

end
