(* ===== verification/Canvas_Protocol.thy ===== *)
theory Canvas_Protocol
  imports Canvas_Gesture
begin

text \<open>
  The pressing protocol of the pointer handlers: the flags \<open>isDragging\<close> and
  \<open>isResizing\<close> of the heap objects against \<open>selectedImageLayer\<close>. A run in which
  every press comes while nothing is selected (every press matched by a release) keeps
  the invariant the spec states: only the selected layer carries a flag, and exactly
  one. A second press without a release, which \<open>onMouseDown\<close> does not guard against,
  sets both flags of one layer.
\<close>

section \<open>The gesture protocol\<close>

text \<open>
  The flags of every object, and the invariant the spec states for them: only the
  selected layer has a flag set, and it has exactly one (dragging or resizing).
\<close>

definition flags_of :: "canvas_state \<Rightarrow> (bool \<times> bool) list" where
  "flags_of s = map (\<lambda>l. (isDragging l, isResizing l)) (layer_heap s)"

definition gesture_ok :: "canvas_state \<Rightarrow> bool" where
  "gesture_ok s \<longleftrightarrow>
     (\<forall>r < length (flags_of s).
        (if selectedImageLayer s = Some r then fst (flags_of s ! r) \<noteq> snd (flags_of s ! r)
         else \<not> fst (flags_of s ! r) \<and> \<not> snd (flags_of s ! r)))"

text \<open>
  An event respects the gesture protocol when a press comes only while no layer is
  selected, that is, every press is matched by a release before the next.
\<close>

fun bracketed :: "canvas_state \<Rightarrow> canvas_event \<Rightarrow> bool" where
  "bracketed s (MouseDown mx my) = (selectedImageLayer s = None)"
| "bracketed s ev = True"

inductive gesture_reach :: "nat \<Rightarrow> nat \<Rightarrow> canvas_state \<Rightarrow> bool" for w h where
  start: "gesture_reach w h (init_canvas w h)"
| step: "gesture_reach w h s \<Longrightarrow> bracketed s ev \<Longrightarrow> gesture_reach w h (fst (canvas_step s ev))"

inductive_cases gesture_reach_stepE: "gesture_reach w h t"

text \<open>The state after the first image (\<open>img_a\<close>, 50 by 50) has been loaded into an 800 by 600 canvas.\<close>

definition loaded :: canvas_state where
  "loaded = fst (canvas_step (init_canvas 800 600) (ImageLoaded img_a))"

subsection \<open>Which handlers touch the flags\<close>

lemma gesture_ok_keep:
  "gesture_ok s \<Longrightarrow> flags_of t = flags_of s \<Longrightarrow> selectedImageLayer t = selectedImageLayer s \<Longrightarrow>
   gesture_ok t"
  by (simp add: gesture_ok_def)

lemma gesture_ok_heap_keep:
  "gesture_ok s \<Longrightarrow> layer_heap t = layer_heap s \<Longrightarrow> selectedImageLayer t = selectedImageLayer s \<Longrightarrow>
   gesture_ok t"
  by (erule gesture_ok_keep) (simp_all add: flags_of_def)

lemma flags_of_simps [simp]:
  "flags_of (s\<lparr>frame := f\<rparr>) = flags_of s"
  "flags_of (s\<lparr>startX := a, startY := b\<rparr>) = flags_of s"
  "flags_of (s\<lparr>imageLayers := vs\<rparr>) = flags_of s"
  "flags_of (s\<lparr>selectedImageLayer := q\<rparr>) = flags_of s"
  by (simp_all add: flags_of_def)

lemma flags_of_redraw [simp]: "flags_of (fst (redrawCanvas s)) = flags_of s"
  by (simp add: redrawCanvas_state)

lemma flags_of_set_obj:
  assumes "isDragging l = isDragging (layer_heap s ! r)" and "isResizing l = isResizing (layer_heap s ! r)"
  shows "flags_of (set_obj r l s) = flags_of s"
  unfolding flags_of_def using assms by (intro map_set_obj) simp

text \<open>The list operations change neither the heap nor the selection.\<close>

lemma list_ops_keep_heap:
  "layer_heap (fst (onDeleteSelected k s)) = layer_heap s \<and> selectedImageLayer (fst (onDeleteSelected k s)) = selectedImageLayer s"
  "layer_heap (fst (onMoveUpSelected k s)) = layer_heap s \<and> selectedImageLayer (fst (onMoveUpSelected k s)) = selectedImageLayer s"
  "layer_heap (fst (onMoveDownSelected k s)) = layer_heap s \<and> selectedImageLayer (fst (onMoveDownSelected k s)) = selectedImageLayer s"
  by (simp_all add: onDeleteSelected_def onMoveUpSelected_def onMoveDownSelected_def split: sum.splits)

text \<open>A move changes the position or the size of the selected object, never its flags.\<close>

lemma move_keeps_flags:
  "flags_of (fst (onMouseMove mx my s)) = flags_of s \<and>
   selectedImageLayer (fst (onMouseMove mx my s)) = selectedImageLayer s"
proof -
  have d: "flags_of (fst (drag_step r mx my t)) = flags_of t \<and>
           selectedImageLayer (fst (drag_step r mx my t)) = selectedImageLayer t" for r t
    by (auto simp: drag_step_def Let_def obj_at_Some flags_of_set_obj split: option.splits)
  have z: "flags_of (fst (resize_step r mx my t)) = flags_of t \<and>
           selectedImageLayer (fst (resize_step r mx my t)) = selectedImageLayer t" for r t
    by (auto simp: resize_step_def Let_def obj_at_Some flags_of_set_obj split: option.splits)
  have "flags_of (fst (and_then (drag_step r mx my s) (resize_step r mx my))) = flags_of s \<and>
        selectedImageLayer (fst (and_then (drag_step r mx my s) (resize_step r mx my))) = selectedImageLayer s" for r
    using d [of r s] z [of r "fst (drag_step r mx my s)"]
    by (auto simp: and_then_def split: prod.splits option.splits)
  then show ?thesis by (simp add: onMouseMove_def split: option.splits)
qed

subsection \<open>Each bracketed step keeps the protocol\<close>

lemma gesture_ok_image_onload:
  assumes "wf_canvas s" and "gesture_ok s"
  shows "gesture_ok (fst (image_onload img s))"
proof -
  have "flags_of (fst (image_onload img s)) = flags_of s @ [(False, False)]"
    and sel: "selectedImageLayer (fst (image_onload img s)) = selectedImageLayer s"
    by (simp_all add: image_onload_def flags_of_def)
  moreover have "pred_option (\<lambda>r. r < length (flags_of s)) (selectedImageLayer s)"
    using assms(1) by (simp add: wf_canvas_def flags_of_def)
  ultimately show ?thesis
    using assms(2) by (auto simp: gesture_ok_def nth_append less_Suc_eq)
qed

lemma gesture_ok_mouse_down:
  assumes "gesture_ok s" and "selectedImageLayer s = None"
  shows "gesture_ok (fst (onMouseDown mx my s))"
proof -
  let ?s = "s\<lparr>startX := mx, startY := my\<rparr>"
  have base: "gesture_ok ?s" using assms(1) by (simp add: gesture_ok_def)
  have "gesture_ok ((set_obj r l' ?s)\<lparr>selectedImageLayer := Some r\<rparr>)"
    if "obj_at ?s r = Some sel" and "l' = sel\<lparr>isResizing := True\<rparr> \<or> l' = sel\<lparr>isDragging := True\<rparr>"
    for r sel l'
  proof -
    from that(1) have r: "r < length (layer_heap s)" and "sel = layer_heap s ! r"
      by (auto simp: obj_at_Some)
    with assms have "\<not> isDragging sel" "\<not> isResizing sel"
      by (auto simp: gesture_ok_def flags_of_def)
    with that(2) assms r show ?thesis
      by (auto simp: gesture_ok_def flags_of_def set_obj_def nth_list_update)
  qed
  with base show ?thesis
    by (auto simp: onMouseDown_def Let_def split: sum.splits option.splits jsval.splits)
qed

lemma gesture_ok_mouse_up:
  assumes "gesture_ok s"
  shows "gesture_ok (fst (onMouseUp s))"
proof (cases "selectedImageLayer s")
  case None
  with assms show ?thesis by (simp add: onMouseUp_def)
next
  case (Some r)
  let ?t = "fst (onMouseUp s)"
  have sel: "selectedImageLayer ?t = None"
    using Some by (simp add: onMouseUp_def modify_obj_def split: option.splits)
  have heap: "layer_heap ?t = (layer_heap s)[r := (layer_heap s ! r)\<lparr>isDragging := False, isResizing := False\<rparr>]"
    using Some by (simp add: onMouseUp_def modify_obj_def obj_at_def list_update_beyond)
  have "\<not> isDragging (layer_heap ?t ! q) \<and> \<not> isResizing (layer_heap ?t ! q)"
    if q: "q < length (layer_heap ?t)" for q
  proof (cases "q = r")
    case True
    with q show ?thesis unfolding heap by simp
  next
    case False
    with q have "q < length (flags_of s)" by (simp add: heap flags_of_def)
    with assms Some False have "\<not> fst (flags_of s ! q) \<and> \<not> snd (flags_of s ! q)"
      unfolding gesture_ok_def by fastforce
    with q False show ?thesis unfolding heap by (simp add: flags_of_def)
  qed
  with sel show ?thesis by (simp add: gesture_ok_def flags_of_def)
qed

lemma gesture_step_ok:
  assumes "wf_canvas s" and "gesture_ok s" and "bracketed s ev"
  shows "gesture_ok (fst (canvas_step s ev))"
proof (cases ev)
  case (ImageLoaded img)
  then show ?thesis using gesture_ok_image_onload [OF assms(1,2)] by simp
next
  case (DeleteLayer k)
  then show ?thesis using list_ops_keep_heap(1) [of k s] gesture_ok_heap_keep [OF assms(2)] by simp
next
  case (MoveUpLayer k)
  then show ?thesis using list_ops_keep_heap(2) [of k s] gesture_ok_heap_keep [OF assms(2)] by simp
next
  case (MoveDownLayer k)
  then show ?thesis using list_ops_keep_heap(3) [of k s] gesture_ok_heap_keep [OF assms(2)] by simp
next
  case (MouseDown mx my)
  with assms(3) have "selectedImageLayer s = None" by simp
  with MouseDown show ?thesis using gesture_ok_mouse_down [OF assms(2)] by simp
next
  case (MouseMove mx my)
  then show ?thesis using move_keeps_flags [of mx my s] gesture_ok_keep [OF assms(2)] by simp
next
  case MouseUp
  then show ?thesis using gesture_ok_mouse_up [OF assms(2)] by simp
qed

subsection \<open>Reachable states\<close>

lemma gesture_ok_init: "gesture_ok (init_canvas w h)"
  by (simp add: gesture_ok_def flags_of_def init_canvas_def setupCanvas_def)

lemma gesture_ok_selected:
  "gesture_ok s \<Longrightarrow> selectedImageLayer s = Some r \<Longrightarrow> r < length (layer_heap s) \<Longrightarrow>
   isDragging (layer_heap s ! r) \<noteq> isResizing (layer_heap s ! r)"
  unfolding gesture_ok_def flags_of_def by (drule spec [of _ r]) simp

lemma loaded_fields:
  "layer_heap loaded = [new_layer 0 img_a 800 600]" "imageLayers loaded = [Obj 0]"
  "selectedImageLayer loaded = None"
  by (simp_all add: loaded_def image_onload_def init_canvas_def setupCanvas_def)

lemma loaded_reach: "gesture_reach 800 600 loaded"
  unfolding loaded_def by (rule gesture_reach.step [OF gesture_reach.start]) simp

lemma gesture_reach_inv: "gesture_reach w h s \<Longrightarrow> wf_canvas s \<and> gesture_ok s"
proof (induction rule: gesture_reach.induct)
  case start
  show ?case by (simp add: wf_init_canvas gesture_ok_init)
next
  case (step s ev)
  then show ?case by (simp add: wf_canvas_step gesture_step_ok)
qed

text \<open>
  C12: in every state reached from the initial canvas by events in which each press
  comes while no layer is selected, the heap is well-formed and the gesture flags are
  consistent: a layer other than the selected one has neither flag, and the selected
  layer has exactly one of isDragging and isResizing.
\<close>

theorem gesture_reach_ok: "gesture_reach w h s \<Longrightarrow> wf_canvas s \<and> gesture_ok s"
  by (rule gesture_reach_inv)

text \<open>The witness: after loading one image and pressing on it, the layer is being dragged.\<close>

theorem gesture_reach_ok_witness:
  "gesture_reach 800 600 (fst (onMouseDown 60 60 loaded))
   \<and> gesture_ok (fst (onMouseDown 60 60 loaded))
   \<and> selectedImageLayer (fst (onMouseDown 60 60 loaded)) = Some 0
   \<and> isDragging (layer_heap (fst (onMouseDown 60 60 loaded)) ! 0)"
proof -
  have r: "gesture_reach 800 600 (fst (onMouseDown 60 60 loaded))"
    using gesture_reach.step [OF loaded_reach, of "MouseDown 60 60"] by (simp add: loaded_fields)
  have "selectedImageLayer (fst (onMouseDown 60 60 loaded)) = Some 0
        \<and> isDragging (layer_heap (fst (onMouseDown 60 60 loaded)) ! 0)"
    by (simp add: onMouseDown_def loaded_fields layer_test_def layer_of_def obj_at_def set_obj_def
        isMouseOverLayer_def onResizeHandle_def new_layer_def img_a_def)
  with r gesture_reach_ok [OF r] show ?thesis by simp
qed

text \<open>
  C13: the protocol premise of C12 is needed. \<open>onMouseDown\<close> does not check whether a
  layer is already selected: in any state the protocol reaches where a layer is being
  dragged, a second press without a release that hits the same layer first, on its
  resize handle, leaves that layer flagged both dragging and resizing, and the
  invariant of C12, which held before the press, fails.
\<close>

theorem double_press_both_flags:
  assumes "gesture_reach w h s" and "intact s" and "selectedImageLayer s = Some r"
    and "isDragging (layer_heap s ! r)" and "imageLayers s = ws @ Obj r # zs"
    and "\<forall>u\<in>set ws. \<not> isMouseOverLayer mx my (slot_layer s u)"
    and "isMouseOverLayer mx my (layer_heap s ! r)" and "onResizeHandle mx my (layer_heap s ! r)"
  shows "gesture_ok s \<and> snd (onMouseDown mx my s) = None
         \<and> selectedImageLayer (fst (onMouseDown mx my s)) = Some r
         \<and> isDragging (layer_heap (fst (onMouseDown mx my s)) ! r)
         \<and> isResizing (layer_heap (fst (onMouseDown mx my s)) ! r)
         \<and> \<not> gesture_ok (fst (onMouseDown mx my s))"
proof -
  let ?l = "layer_heap s ! r"
  have inv: "wf_canvas s" "gesture_ok s" using gesture_reach_inv [OF assms(1)] by simp_all
  have "good_slot s (Obj r)" using good_slots [OF inv(1) assms(2)] assms(5) by simp
  then have rl: "r < length (layer_heap s)" by (simp add: good_slot_def)
  have ls: "layers s = map (slot_layer s) ws @ ?l # map (slot_layer s) zs"
    using assms(5) by (simp add: layers_def slot_layer_def)
  have miss: "\<forall>u\<in>set (map (slot_layer s) ws). \<not> isMouseOverLayer mx my u" using assms(6) by simp
  obtain r' where r': "imageLayers s ! length (map (slot_layer s) ws) = Obj r'"
    and eq: "onMouseDown mx my s =
               ((set_obj r' (if onResizeHandle mx my ?l then ?l\<lparr>isResizing := True\<rparr> else ?l\<lparr>isDragging := True\<rparr>)
                  (s\<lparr>startX := mx, startY := my\<rparr>))\<lparr>selectedImageLayer := Some r'\<rparr>, None)"
    using mouse_down_first_hit [OF inv(1) assms(2) ls assms(7) miss] by blast
  have "r' = r" using r' assms(5) by simp
  with eq assms(8) have t: "onMouseDown mx my s =
      ((set_obj r (?l\<lparr>isResizing := True\<rparr>) (s\<lparr>startX := mx, startY := my\<rparr>))\<lparr>selectedImageLayer := Some r\<rparr>, None)"
    by simp
  let ?t = "fst (onMouseDown mx my s)"
  have f: "isDragging (layer_heap ?t ! r) \<and> isResizing (layer_heap ?t ! r) \<and> selectedImageLayer ?t = Some r
           \<and> r < length (layer_heap ?t)"
    using t rl assms(4) by simp
  then have "\<not> gesture_ok ?t" using gesture_ok_selected [of ?t r] by auto
  with f t inv(2) rl assms(4) show ?thesis by simp
qed

text \<open>
  The witness: after loading one 50 by 50 image at (50, 50) and pressing at (60, 60),
  which starts a drag, a second press at (100, 100) lands on the layer's corner handle.
\<close>

theorem double_press_both_flags_witness:
  "gesture_reach 800 600 (fst (onMouseDown 60 60 loaded))
   \<and> \<not> gesture_ok (fst (onMouseDown 100 100 (fst (onMouseDown 60 60 loaded))))"
proof -
  let ?s = "fst (onMouseDown 60 60 loaded)"
  have r: "gesture_reach 800 600 ?s"
    using gesture_reach.step [OF loaded_reach, of "MouseDown 60 60"] by (simp add: loaded_fields)
  have h: "intact ?s \<and> selectedImageLayer ?s = Some 0 \<and> isDragging (layer_heap ?s ! 0)
           \<and> imageLayers ?s = [] @ Obj 0 # []
           \<and> isMouseOverLayer 100 100 (layer_heap ?s ! 0) \<and> onResizeHandle 100 100 (layer_heap ?s ! 0)"
    by (simp add: onMouseDown_def loaded_fields layer_test_def layer_of_def obj_at_def set_obj_def
        isMouseOverLayer_def onResizeHandle_def new_layer_def img_a_def intact_def)
  then show ?thesis
    using r double_press_both_flags [OF r, of 0 "[]" "[]" 100 100] by simp
qed

end
