(* ===== verification/Canvas_Props.thy ===== *)
theory Canvas_Props
  imports Canvas_Spec Canvas_Protocol
begin

text \<open>
  Further properties of the canvas component: the sizes a layer can take, the round
  trip of moving a layer up and then down again, and the return to the idle state of
  the gesture machine on a release.
\<close>

section \<open>Sizes stay within the canvas\<close>

text \<open>
  Every layer object has a size between zero and the canvas's size, and the handle
  size 10 it was created with. Positions are not bounded: a drag may move a layer off
  the canvas.
\<close>

definition sizes_ok :: "canvas_state \<Rightarrow> bool" where
  "sizes_ok s \<longleftrightarrow>
     list_all (\<lambda>l. 0 \<le> width l \<and> width l \<le> of_nat (canvas_width s) \<and>
                  0 \<le> height l \<and> height l \<le> of_nat (canvas_height s) \<and> resizeHandleSize l = 10)
       (layer_heap s)"

lemma sizes_ok_set_obj:
  assumes "sizes_ok s" and "0 \<le> width l" and "width l \<le> of_nat (canvas_width s)"
    and "0 \<le> height l" and "height l \<le> of_nat (canvas_height s)" and "resizeHandleSize l = 10"
  shows "sizes_ok (set_obj r l s)"
  using assms set_update_subset_insert [of "layer_heap s" r l]
  by (auto simp: sizes_ok_def list_all_iff set_obj_def)

text \<open>Writing back a layer read from the heap with the same size keeps the bounds.\<close>

lemma sizes_ok_set_same:
  assumes "sizes_ok s" and "r < length (layer_heap s)"
    and "width l = width (layer_heap s ! r)" and "height l = height (layer_heap s ! r)"
    and "resizeHandleSize l = resizeHandleSize (layer_heap s ! r)"
  shows "sizes_ok (set_obj r l s)"
proof -
  have "layer_heap s ! r \<in> set (layer_heap s)" using assms(2) by simp
  with assms show ?thesis by (intro sizes_ok_set_obj) (auto simp: sizes_ok_def list_all_iff)
qed

lemma sizes_ok_fields [simp]:
  "sizes_ok (s\<lparr>frame := f\<rparr>) = sizes_ok s"
  "sizes_ok (s\<lparr>startX := a, startY := b\<rparr>) = sizes_ok s"
  "sizes_ok (s\<lparr>selectedImageLayer := q\<rparr>) = sizes_ok s"
  "sizes_ok (s\<lparr>imageLayers := vs\<rparr>) = sizes_ok s"
  "sizes_ok (fst (redrawCanvas s)) = sizes_ok s"
  by (simp_all add: sizes_ok_def redrawCanvas_state)

lemma sizes_ok_image_onload: "sizes_ok s \<Longrightarrow> sizes_ok (fst (image_onload img s))"
  by (simp add: image_onload_def sizes_ok_def)

lemma sizes_ok_list_ops:
  "sizes_ok s \<Longrightarrow> sizes_ok (fst (onDeleteSelected k s))"
  "sizes_ok s \<Longrightarrow> sizes_ok (fst (onMoveUpSelected k s))"
  "sizes_ok s \<Longrightarrow> sizes_ok (fst (onMoveDownSelected k s))"
  by (simp_all add: onDeleteSelected_def onMoveUpSelected_def onMoveDownSelected_def split: sum.splits)

lemma sizes_ok_mouse_down: "sizes_ok s \<Longrightarrow> sizes_ok (fst (onMouseDown mx my s))"
  by (auto simp: onMouseDown_def Let_def obj_at_Some intro!: sizes_ok_set_same
           split: sum.splits option.splits jsval.splits)

lemma sizes_ok_mouse_up: "sizes_ok s \<Longrightarrow> sizes_ok (fst (onMouseUp s))"
  by (auto simp: onMouseUp_def modify_obj_def obj_at_Some intro!: sizes_ok_set_same split: option.splits)

lemma sizes_ok_mouse_move: "sizes_ok s \<Longrightarrow> sizes_ok (fst (onMouseMove mx my s))"
proof -
  assume ok: "sizes_ok s"
  have d: "sizes_ok (fst (drag_step r mx my t))" if "sizes_ok t" for r t
    using that by (auto simp: drag_step_def Let_def obj_at_Some intro!: sizes_ok_set_same split: option.splits)
  have z: "sizes_ok (fst (resize_step r mx my t))" if "sizes_ok t" for r t
  proof -
    have "sizes_ok (set_obj r (sel\<lparr>width := mx - x sel, height := my - y sel\<rparr>) t)"
      if "obj_at t r = Some sel" and "0 < mx - x sel" and "0 < my - y sel"
        and "mx - x sel \<le> of_nat (canvas_width t)" and "my - y sel \<le> of_nat (canvas_height t)" for sel
    proof -
      from that(1) have "sel \<in> set (layer_heap t)" by (auto simp: obj_at_Some)
      with \<open>sizes_ok t\<close> have "resizeHandleSize sel = 10" by (auto simp: sizes_ok_def list_all_iff)
      with that \<open>sizes_ok t\<close> show ?thesis by (intro sizes_ok_set_obj) simp_all
    qed
    with that show ?thesis by (auto simp: resize_step_def Let_def split: option.splits)
  qed
  show ?thesis
  proof (cases "selectedImageLayer s")
    case None
    with ok show ?thesis by (simp add: onMouseMove_def)
  next
    case (Some r)
    obtain t e where t: "drag_step r mx my s = (t, e)" by (cases "drag_step r mx my s")
    with d [OF ok, of r] z [of t r] Some show ?thesis
      by (cases e) (simp_all add: onMouseMove_def and_then_def)
  qed
qed

lemma sizes_ok_step: "sizes_ok s \<Longrightarrow> sizes_ok (fst (canvas_step s ev))"
  by (cases ev) (simp_all add: sizes_ok_image_onload sizes_ok_list_ops sizes_ok_mouse_down
      sizes_ok_mouse_up sizes_ok_mouse_move)

lemma sizes_ok_run: "sizes_ok s \<Longrightarrow> sizes_ok (canvas_run s evs)"
  by (induction evs arbitrary: s) (simp_all add: sizes_ok_step)

lemma canvas_dims_step:
  "canvas_width (fst (canvas_step s ev)) = canvas_width s \<and> canvas_height (fst (canvas_step s ev)) = canvas_height s"
proof -
  have d: "canvas_width (fst (drag_step r mx my t)) = canvas_width t \<and> canvas_height (fst (drag_step r mx my t)) = canvas_height t"
    for r mx my t by (simp add: drag_step_def Let_def set_obj_def split: option.splits)
  have z: "canvas_width (fst (resize_step r mx my t)) = canvas_width t \<and> canvas_height (fst (resize_step r mx my t)) = canvas_height t"
    for r mx my t by (simp add: resize_step_def Let_def set_obj_def split: option.splits)
  have m: "canvas_width (fst (onMouseMove mx my s)) = canvas_width s \<and> canvas_height (fst (onMouseMove mx my s)) = canvas_height s"
    for mx my
  proof (cases "selectedImageLayer s")
    case None
    then show ?thesis by (simp add: onMouseMove_def)
  next
    case (Some r)
    obtain t e where t: "drag_step r mx my s = (t, e)" by (cases "drag_step r mx my s")
    with d [of r mx my s] z [of r mx my t] Some show ?thesis
      by (cases e) (simp_all add: onMouseMove_def and_then_def)
  qed
  show ?thesis
    by (cases ev) (simp_all add: m image_onload_def onDeleteSelected_def onMoveUpSelected_def
        onMoveDownSelected_def onMouseDown_def onMouseUp_def modify_obj_def set_obj_def Let_def
        split: sum.splits option.splits jsval.splits)
qed

lemma canvas_dims_run:
  "canvas_width (canvas_run s evs) = canvas_width s \<and> canvas_height (canvas_run s evs) = canvas_height s"
  by (induction evs arbitrary: s) (simp_all add: canvas_dims_step)

text \<open>
  C24: in every state reached from the initial canvas, whatever the events (errors
  included), every layer object's width and height lie between 0 and the canvas's
  width and height, and its handle size is 10: image loads clamp, resizes commit only
  within the canvas, and nothing else writes a size.
\<close>

theorem reachable_sizes_bounded:
  "list_all (\<lambda>l. 0 \<le> width l \<and> width l \<le> of_nat w \<and> 0 \<le> height l \<and> height l \<le> of_nat h
                 \<and> resizeHandleSize l = 10)
     (layer_heap (canvas_run (init_canvas w h) evs))"
proof -
  have "sizes_ok (init_canvas w h)" by (simp add: sizes_ok_def init_canvas_def setupCanvas_def)
  then have "sizes_ok (canvas_run (init_canvas w h) evs)" by (rule sizes_ok_run)
  moreover have "canvas_width (canvas_run (init_canvas w h) evs) = w"
    and "canvas_height (canvas_run (init_canvas w h) evs) = h"
    using canvas_dims_run [of "init_canvas w h" evs] by (simp_all add: init_canvas_def setupCanvas_def)
  ultimately show ?thesis by (simp add: sizes_ok_def)
qed

section \<open>Moving up, then down\<close>

lemma spec_move_up_split:
  assumes "\<forall>a\<in>set us. layer_id a \<noteq> k" and "layer_id u \<noteq> k" and "layer_id l = k"
  shows "spec_move_up k (us @ u # l # vs) = us @ l # u # vs"
  using assms
proof (induction us)
  case Nil
  then show ?case by simp
next
  case (Cons a us)
  then show ?case by (cases us) simp_all
qed

lemma spec_move_down_split:
  assumes "\<forall>a\<in>set us. layer_id a \<noteq> k" and "layer_id l = k"
  shows "spec_move_down k (us @ l # u # vs) = us @ u # l # vs"
  using assms
proof (induction us)
  case Nil
  then show ?case by simp
next
  case (Cons a us)
  then show ?case by (cases us) simp_all
qed

text \<open>
  C25: on a well-formed intact canvas, moving a layer that is not the bottom one up
  and then down again raises nothing and restores the order of the layers.
\<close>

theorem move_up_then_down:
  assumes "wf_canvas s" and "intact s" and "layers s = us @ u # l # vs" and "layer_id l = k"
  shows "snd (onMoveUpSelected k s) = None
         \<and> snd (onMoveDownSelected k (fst (onMoveUpSelected k s))) = None
         \<and> layers (fst (onMoveDownSelected k (fst (onMoveUpSelected k s)))) = layers s"
proof -
  have "distinct (map layer_id (us @ u # l # vs))"
    using distinct_layer_ids [OF assms(1,2)] assms(3) by simp
  then have us: "\<forall>a\<in>set us. layer_id a \<noteq> k" and u: "layer_id u \<noteq> k"
    using assms(4) by (auto simp: image_iff)
  let ?t = "fst (onMoveUpSelected k s)"
  have c1: "completes_with (onMoveUpSelected k s) (spec_move_up k (layers s))"
    using assms(1,2) by (rule onMoveUpSelected_completes)
  then have t: "wf_canvas ?t" "intact ?t" "layers ?t = us @ l # u # vs"
    using spec_move_up_split [OF us u assms(4)] assms(3) by (simp_all add: completes_with_def)
  have "k \<in> layer_id ` set (layers ?t)" using t(3) assms(4) by auto
  with t(1,2) have "completes_with (onMoveDownSelected k ?t) (spec_move_down k (layers ?t))"
    by (rule onMoveDownSelected_completes)
  with c1 t(3) assms(3) show ?thesis
    by (simp add: completes_with_def spec_move_down_split [OF us assms(4)] spec_move_up_split [OF us u assms(4)])
qed

theorem move_up_then_down_witness:
  "wf_canvas demo_canvas \<and> intact demo_canvas
   \<and> snd (onMoveUpSelected 1 demo_canvas) = None
   \<and> snd (onMoveDownSelected 1 (fst (onMoveUpSelected 1 demo_canvas))) = None
   \<and> layers (fst (onMoveDownSelected 1 (fst (onMoveUpSelected 1 demo_canvas)))) = demo_layers"
proof -
  have "layers demo_canvas = [] @ new_layer 0 img_a 800 600 # new_layer 1 img_b 800 600 # [new_layer 2 img_c 800 600]"
    by (simp add: demo_facts demo_layers_def)
  from move_up_then_down [OF demo_canvas_ok this] show ?thesis
    by (simp add: demo_facts)
qed

section \<open>A release returns the gesture machine to idle\<close>

lemma mouse_up_unselects: "selectedImageLayer (fst (onMouseUp s)) = None"
  by (simp add: onMouseUp_def split: option.splits)

lemma moves_when_idle: "selectedImageLayer t = None \<Longrightarrow> canvas_run t (map (\<lambda>(a, b). MouseMove a b) ps) = t"
  by (induction ps) (auto simp: onMouseMove_def)

text \<open>
  C26: from any state where the gesture flags are consistent, one release reaches the
  idle state: nothing selected and no layer flagged; from there, any sequence of mouse
  moves changes nothing.
\<close>

theorem release_returns_idle:
  assumes "gesture_ok s"
  shows "selectedImageLayer (fst (onMouseUp s)) = None
         \<and> list_all (\<lambda>l. \<not> isDragging l \<and> \<not> isResizing l) (layer_heap (fst (onMouseUp s)))
         \<and> canvas_run (fst (onMouseUp s)) (map (\<lambda>(a, b). MouseMove a b) ps) = fst (onMouseUp s)"
proof -
  have ok: "gesture_ok (fst (onMouseUp s))" using assms by (rule gesture_ok_mouse_up)
  have none: "selectedImageLayer (fst (onMouseUp s)) = None" by (rule mouse_up_unselects)
  then have "list_all (\<lambda>l. \<not> isDragging l \<and> \<not> isResizing l) (layer_heap (fst (onMouseUp s)))"
    using ok by (auto simp: gesture_ok_def flags_of_def list_all_length)
  with none show ?thesis by (simp add: moves_when_idle)
qed

text \<open>The witness: the layer of \<open>loaded\<close> pressed at (60, 60), being dragged, then released.\<close>

theorem release_returns_idle_witness:
  "gesture_ok (fst (onMouseDown 60 60 loaded))
   \<and> isDragging (layer_heap (fst (onMouseDown 60 60 loaded)) ! 0)
   \<and> selectedImageLayer (fst (onMouseUp (fst (onMouseDown 60 60 loaded)))) = None
   \<and> \<not> isDragging (layer_heap (fst (onMouseUp (fst (onMouseDown 60 60 loaded)))) ! 0)"
proof -
  have ok: "gesture_ok (fst (onMouseDown 60 60 loaded))"
    and drag: "isDragging (layer_heap (fst (onMouseDown 60 60 loaded)) ! 0)"
    by (simp_all add: onMouseDown_def loaded_fields layer_test_def layer_of_def obj_at_def set_obj_def
        isMouseOverLayer_def onResizeHandle_def new_layer_def img_a_def gesture_ok_def flags_of_def)
  have "length (layer_heap (fst (onMouseUp (fst (onMouseDown 60 60 loaded))))) = 1"
    by (simp add: onMouseDown_def onMouseUp_def modify_obj_def loaded_fields layer_test_def layer_of_def
        obj_at_def set_obj_def isMouseOverLayer_def new_layer_def img_a_def Let_def)
  with release_returns_idle [OF ok, of "[]"] ok drag show ?thesis
    by (simp add: list_all_length)
qed

end
