(* ===== verification/Canvas_Display.thy ===== *)
theory Canvas_Display
  imports Canvas_Spec
begin

text \<open>
  What the canvas shows and what its array may hold. A handler that completes leaves
  the canvas showing the current layers (spec, section 4.2: every change is followed by
  a redraw). The array \<open>imageLayers\<close> of a reachable state holds objects in every slot
  but possibly the first, and once the first slot is \<open>undefined\<close> it stays so: the
  corruption of theorem C4 is permanent. Before that corruption, the move-down of an
  absent id is the only event that throws.
\<close>

section \<open>What is shown and what the array holds\<close>

definition shows_layers :: "canvas_state \<Rightarrow> bool" where
  "shows_layers s \<longleftrightarrow> frame s = render (canvas_width s) (canvas_height s) (layers s)"

text \<open>The shape of \<open>imageLayers\<close>: no \<open>undefined\<close> slot after the first.\<close>

definition slots_shape :: "canvas_state \<Rightarrow> bool" where
  "slots_shape s \<longleftrightarrow> Undefined \<notin> set (tl (imageLayers s))"

text \<open>A \<open>forEach\<close> of \<open>redrawCanvas\<close> that does not throw paints every slot's layer.\<close>

lemma paint_slots_complete:
  "snd (paint_slots s vs) = None \<Longrightarrow> fst (paint_slots s vs) = concat (map (paint_layer \<circ> slot_layer s) vs)"
proof (induction vs)
  case Nil
  then show ?case by simp
next
  case (Cons v vs)
  show ?case
  proof (cases "layer_of s v")
    case (Inl e)
    with Cons.prems show ?thesis by simp
  next
    case (Inr l)
    then have "l = slot_layer s v"
      by (cases v) (auto simp: layer_of_def obj_at_def slot_layer_def split: if_splits)
    with Inr Cons show ?thesis by (cases "paint_slots s vs") simp
  qed
qed

lemma shows_redraw: "snd (redrawCanvas t) = None \<Longrightarrow> shows_layers (fst (redrawCanvas t))"
  using paint_slots_complete [of t "imageLayers t"]
  by (cases "paint_slots t (imageLayers t)")
     (simp add: redrawCanvas_def shows_layers_def render_def layers_def Let_def comp_def)

lemma paint_update_same:
  "paint_layer l = paint_layer (xs ! r) \<Longrightarrow> paint_layer (xs[r := l] ! i) = paint_layer (xs ! i)"
  by (cases "i = r"; cases "r < length xs") (simp_all add: list_update_beyond)

text \<open>Changing only what is not painted (the flags) keeps the canvas showing the layers.\<close>

lemma shows_set_obj:
  assumes "shows_layers s" and "paint_layer l = paint_layer (layer_heap s ! r)"
  shows "shows_layers (set_obj r l s)"
proof -
  have "map paint_layer (layers (set_obj r l s)) = map paint_layer (layers s)"
    using assms(2) by (simp add: layers_def slot_layer_def paint_update_same)
  with assms(1) show ?thesis
    by (simp add: shows_layers_def render_def set_obj_def map_map [symmetric] del: map_map)
qed

lemma slot_layer_sel [simp]: "slot_layer (s\<lparr>selectedImageLayer := q\<rparr>) = slot_layer s"
  by (simp add: fun_eq_iff slot_layer_def)

lemma shows_fields [simp]:
  "shows_layers (s\<lparr>startX := a, startY := b\<rparr>) = shows_layers s"
  "shows_layers (s\<lparr>selectedImageLayer := q\<rparr>) = shows_layers s"
  by (simp_all add: shows_layers_def layers_def)

lemma shows_list_ops:
  "snd (onDeleteSelected k s) = None \<Longrightarrow> shows_layers s \<Longrightarrow> shows_layers (fst (onDeleteSelected k s))"
  "snd (onMoveUpSelected k s) = None \<Longrightarrow> shows_layers s \<Longrightarrow> shows_layers (fst (onMoveUpSelected k s))"
  "snd (onMoveDownSelected k s) = None \<Longrightarrow> shows_layers s \<Longrightarrow> shows_layers (fst (onMoveDownSelected k s))"
  "snd (image_onload img s) = None \<Longrightarrow> shows_layers (fst (image_onload img s))"
  by (auto simp: onDeleteSelected_def onMoveUpSelected_def onMoveDownSelected_def image_onload_def
           intro: shows_redraw split: sum.splits if_splits)

lemma shows_mouse_down:
  "shows_layers s \<Longrightarrow> shows_layers (fst (onMouseDown mx my s))"
  by (auto simp: onMouseDown_def Let_def obj_at_Some intro!: shows_set_obj
           split: sum.splits option.splits jsval.splits)

lemma shows_mouse_up:
  "shows_layers s \<Longrightarrow> shows_layers (fst (onMouseUp s))"
  by (auto simp: onMouseUp_def modify_obj_def obj_at_Some intro!: shows_set_obj split: option.splits)

lemma shows_mouse_move:
  assumes "shows_layers s" and "snd (onMouseMove mx my s) = None"
  shows "shows_layers (fst (onMouseMove mx my s))"
proof (cases "selectedImageLayer s")
  case None
  with assms show ?thesis by (simp add: onMouseMove_def)
next
  case (Some r)
  have d: "shows_layers (fst (drag_step r mx my s))" if "snd (drag_step r mx my s) = None"
    using that assms(1) by (auto simp: drag_step_def Let_def intro: shows_redraw split: option.splits if_splits)
  have z: "shows_layers (fst (resize_step r mx my t))"
    if "snd (resize_step r mx my t) = None" and "shows_layers t" for t
    using that by (auto simp: resize_step_def Let_def intro: shows_redraw split: option.splits if_splits)
  obtain t e where t: "drag_step r mx my s = (t, e)" by (cases "drag_step r mx my s")
  with d z Some assms(2) show ?thesis
    by (cases e) (auto simp: onMouseMove_def and_then_def)
qed


lemma shows_step:
  "shows_layers s \<Longrightarrow> snd (canvas_step s ev) = None \<Longrightarrow> shows_layers (fst (canvas_step s ev))"
  by (cases ev) (simp_all add: shows_list_ops shows_mouse_down shows_mouse_up shows_mouse_move)

section \<open>The array keeps its shape\<close>

lemma intact_shape: "intact s \<Longrightarrow> slots_shape s"
  by (cases "imageLayers s") (simp_all add: intact_def slots_shape_def)

lemma shape_cases:
  "slots_shape s \<Longrightarrow> intact s \<or> (\<exists>vs. imageLayers s = Undefined # vs \<and> Undefined \<notin> set vs)"
  by (cases "imageLayers s") (auto simp: intact_def slots_shape_def)

text \<open>
  On an array whose first slot is \<open>undefined\<close> the list handlers throw before any
  change, the pointer handlers leave the array alone, and a decoded image is appended.
\<close>

lemma undefined_head_step:
  "imageLayers s = Undefined # vs \<Longrightarrow>
   imageLayers (fst (canvas_step s ev)) = Undefined # vs
   \<or> (\<exists>r. imageLayers (fst (canvas_step s ev)) = Undefined # vs @ [Obj r])"
  by (cases ev) (simp_all add: onDeleteSelected_def onMoveUpSelected_def onMoveDownSelected_def
      js_findIndex_def layer_test_def layer_of_def image_onload_def Let_def pointer_keeps_ids)

lemma move_down_shape:
  assumes "wf_canvas s" and "intact s"
  shows "slots_shape (fst (onMoveDownSelected k s))"
proof (cases "k \<in> layer_id ` set (layers s)")
  case True
  with assms onMoveDownSelected_completes [of s k] show ?thesis
    by (simp add: completes_with_def intact_shape)
next
  case False
  show ?thesis
  proof (cases "imageLayers s = []")
    case True
    then show ?thesis
      by (simp add: onMoveDownSelected_def js_findIndex_def slots_shape_def)
  next
    case ne: False
    have "Undefined \<notin> set (tl (imageLayers s))"
      using assms(2) by (cases "imageLayers s") (simp_all add: intact_def)
    with onMoveDownSelected_absent_eq [OF assms ne False] show ?thesis
      by (simp add: slots_shape_def)
  qed
qed

lemma shape_step_intact:
  assumes "wf_canvas s" and "intact s"
  shows "slots_shape (fst (canvas_step s ev))"
proof (cases ev)
  case (ImageLoaded img)
  with assms image_onload_completes [of s img] show ?thesis
    by (simp add: completes_with_def intact_shape)
next
  case (DeleteLayer k)
  with assms onDeleteSelected_completes [of s k] show ?thesis
    by (simp add: completes_with_def intact_shape)
next
  case (MoveUpLayer k)
  with assms onMoveUpSelected_completes [of s k] show ?thesis
    by (simp add: completes_with_def intact_shape)
next
  case (MoveDownLayer k)
  with assms show ?thesis by (simp add: move_down_shape)
qed (use assms(2) in \<open>simp_all add: pointer_keeps_ids intact_shape intact_def\<close>)

lemma shape_step:
  assumes "wf_canvas s" and "slots_shape s"
  shows "slots_shape (fst (canvas_step s ev))"
  using shape_cases [OF assms(2)]
proof
  assume "intact s"
  with assms(1) show ?thesis by (rule shape_step_intact)
next
  assume "\<exists>vs. imageLayers s = Undefined # vs \<and> Undefined \<notin> set vs"
  then obtain vs where vs: "imageLayers s = Undefined # vs" and u: "Undefined \<notin> set vs" by blast
  from undefined_head_step [OF vs, of ev] u show ?thesis
    by (auto simp: slots_shape_def)
qed

lemma shape_run: "wf_canvas s \<Longrightarrow> slots_shape s \<Longrightarrow> slots_shape (canvas_run s evs)"
  by (induction evs arbitrary: s) (simp_all add: shape_step wf_canvas_step)


lemma undefined_head_run:
  "imageLayers s = Undefined # vs \<Longrightarrow> \<exists>ws. imageLayers (canvas_run s evs) = Undefined # vs @ ws"
proof (induction evs arbitrary: s vs)
  case Nil
  then show ?case by simp
next
  case (Cons ev evs)
  from undefined_head_step [OF Cons.prems, of ev] show ?case
  proof
    assume "imageLayers (fst (canvas_step s ev)) = Undefined # vs"
    with Cons.IH show ?thesis by simp
  next
    assume "\<exists>r. imageLayers (fst (canvas_step s ev)) = Undefined # vs @ [Obj r]"
    then obtain r where "imageLayers (fst (canvas_step s ev)) = Undefined # vs @ [Obj r]" by blast
    from Cons.IH [OF this] show ?thesis by auto
  qed
qed

section \<open>Which events throw on an intact array\<close>

lemma redraw_no_error: "wf_canvas s \<Longrightarrow> intact s \<Longrightarrow> snd (redrawCanvas s) = None"
  by (simp add: redrawCanvas_good)

lemma drag_step_keeps:
  "imageLayers (fst (drag_step r mx my s)) = imageLayers s
   \<and> length (layer_heap (fst (drag_step r mx my s))) = length (layer_heap s)"
  by (auto simp: drag_step_def Let_def split: option.splits)

lemma drag_step_no_error:
  "wf_canvas s \<Longrightarrow> intact s \<Longrightarrow> r < length (layer_heap s) \<Longrightarrow> snd (drag_step r mx my s) = None"
  by (auto simp: drag_step_def obj_at_def Let_def intro!: redraw_no_error wf_set_obj)

lemma resize_step_no_error:
  "wf_canvas s \<Longrightarrow> intact s \<Longrightarrow> r < length (layer_heap s) \<Longrightarrow> snd (resize_step r mx my s) = None"
  by (auto simp: resize_step_def obj_at_def Let_def intro!: redraw_no_error wf_set_obj)

lemma mouse_move_no_error:
  assumes "wf_canvas s" and "intact s"
  shows "snd (onMouseMove mx my s) = None"
proof (cases "selectedImageLayer s")
  case None
  then show ?thesis by (simp add: onMouseMove_def)
next
  case (Some r)
  with assms(1) have r: "r < length (layer_heap s)" by (simp add: wf_canvas_def)
  obtain t e where t: "drag_step r mx my s = (t, e)" by (cases "drag_step r mx my s")
  with drag_step_no_error [OF assms r, of mx my] have e: "e = None" by simp
  have "wf_canvas t" using wf_drag_step [OF assms(1), of r mx my] t by simp
  moreover have "intact t" and "r < length (layer_heap t)"
    using drag_step_keeps [of r mx my s] t assms(2) r by (simp_all add: intact_def)
  ultimately have "snd (resize_step r mx my t) = None" by (rule resize_step_no_error)
  with Some t e show ?thesis by (simp add: onMouseMove_def and_then_def)
qed

lemma mouse_down_no_error:
  assumes "wf_canvas s" and "intact s"
  shows "snd (onMouseDown mx my s) = None"
proof -
  let ?t = "s\<lparr>startX := mx, startY := my\<rparr>"
  have find: "js_find (layer_test ?t (isMouseOverLayer mx my)) (imageLayers ?t)
              = Inr (find (isMouseOverLayer mx my \<circ> slot_layer ?t) (imageLayers s))"
    using js_find_layers [of ?t] assms by simp
  show ?thesis
  proof (cases "find (isMouseOverLayer mx my \<circ> slot_layer ?t) (imageLayers s)")
    case None
    with find show ?thesis by (simp add: onMouseDown_def Let_def)
  next
    case (Some v)
    then have "v \<in> set (imageLayers s)" by (auto simp: find_Some_iff)
    with assms have "good_slot s v" by (rule good_slots)
    then obtain r where v: "v = Obj r" and r: "r < length (layer_heap s)"
      by (cases v) (auto simp: good_slot_def)
    with find Some show ?thesis by (simp add: onMouseDown_def Let_def obj_at_def)
  qed
qed

lemma list_ops_no_error:
  assumes "wf_canvas s" and "intact s"
  shows "snd (onDeleteSelected k s) = None" and "snd (onMoveUpSelected k s) = None"
    and "snd (image_onload img s) = None"
  using onDeleteSelected_completes [OF assms, of k] onMoveUpSelected_completes [OF assms, of k]
    image_onload_completes [OF assms, of img]
  by (simp_all add: completes_with_def)

lemma move_down_throws_iff:
  assumes "wf_canvas s" and "intact s"
  shows "snd (onMoveDownSelected k s) \<noteq> None \<longleftrightarrow>
           imageLayers s \<noteq> [] \<and> k \<notin> layer_id ` set (layers s)"
proof (cases "k \<in> layer_id ` set (layers s)")
  case True
  with onMoveDownSelected_completes [OF assms True] show ?thesis by (simp add: completes_with_def)
next
  case False
  show ?thesis
  proof (cases "imageLayers s = []")
    case True
    then show ?thesis by (simp add: onMoveDownSelected_def js_findIndex_def)
  next
    case ne: False
    with onMoveDownSelected_absent_eq [OF assms ne False] False show ?thesis by simp
  qed
qed

section \<open>Properties\<close>

text \<open>
  C27: every event handled without an exception leaves the canvas showing the current
  layers, in array order, over a cleared white background, provided it showed them
  before: the handlers that change a layer's position, size or place in the list redraw,
  and the others change only what is not drawn.
\<close>

theorem canvas_step_shows:
  "shows_layers s \<Longrightarrow> snd (canvas_step s ev) = None \<Longrightarrow> shows_layers (fst (canvas_step s ev))"
  by (rule shows_step)

theorem canvas_step_shows_witness:
  "shows_layers demo_canvas \<and> snd (canvas_step demo_canvas (DeleteLayer 1)) = None
   \<and> shows_layers (fst (canvas_step demo_canvas (DeleteLayer 1)))"
proof -
  have a: "shows_layers demo_canvas"
    by (simp add: shows_layers_def demo_canvas_layers demo_canvas_fields) (simp add: demo_canvas_def)
  have b: "snd (canvas_step demo_canvas (DeleteLayer 1)) = None"
    using onDeleteSelected_completes [of demo_canvas 1] demo_canvas_ok by (simp add: completes_with_def)
  show ?thesis using a b canvas_step_shows [OF a b] by simp
qed

text \<open>
  C28: in every reachable state the array \<open>imageLayers\<close> holds a layer object in every
  slot but possibly the first: the only \<open>undefined\<close> any handler writes is the one
  the move-down of an absent id (C4) writes into slot 0.
\<close>

theorem reachable_slots_shape:
  "Undefined \<notin> set (tl (imageLayers (canvas_run (init_canvas w h) evs)))"
proof -
  have "slots_shape (init_canvas w h)"
    by (simp add: slots_shape_def init_canvas_def setupCanvas_def)
  with wf_init_canvas have "slots_shape (canvas_run (init_canvas w h) evs)" by (rule shape_run)
  then show ?thesis by (simp add: slots_shape_def)
qed

text \<open>
  C29: once the first slot is \<open>undefined\<close> it stays so for every later sequence of
  events: the slots after it are never removed or reordered, decoded images are only
  appended, and every later delete, move up and move down throws \<open>TypeError\<close>. The
  corruption of C4 makes the list buttons useless until the page is reloaded.
\<close>

theorem undefined_head_permanent:
  assumes "imageLayers s = Undefined # vs"
  shows "(\<exists>ws. imageLayers (canvas_run s evs) = Undefined # vs @ ws)
         \<and> snd (onDeleteSelected k (canvas_run s evs)) = Some TypeError
         \<and> snd (onMoveUpSelected k (canvas_run s evs)) = Some TypeError
         \<and> snd (onMoveDownSelected k (canvas_run s evs)) = Some TypeError"
proof -
  obtain ws where "imageLayers (canvas_run s evs) = Undefined # vs @ ws"
    using undefined_head_run [OF assms] by blast
  then show ?thesis
    by (simp add: onDeleteSelected_def onMoveUpSelected_def onMoveDownSelected_def
        js_findIndex_def layer_test_def layer_of_def)
qed

theorem undefined_head_permanent_witness:
  "imageLayers (demo_canvas\<lparr>imageLayers := [Undefined, Obj 1, Obj 2]\<rparr>) = Undefined # [Obj 1, Obj 2]
   \<and> snd (onMoveDownSelected 2 (canvas_run (demo_canvas\<lparr>imageLayers := [Undefined, Obj 1, Obj 2]\<rparr>)
          [ImageLoaded img_a, MouseDown 10 10, MouseUp])) = Some TypeError"
  using undefined_head_permanent [of "demo_canvas\<lparr>imageLayers := [Undefined, Obj 1, Obj 2]\<rparr>"
      "[Obj 1, Obj 2]" "[ImageLoaded img_a, MouseDown 10 10, MouseUp]" 2]
  by simp


text \<open>
  C30: on a well-formed array with no \<open>undefined\<close> slot, an event raises an exception
  exactly when it is the move-down of an id no layer has while the list is not empty:
  adding, deleting and moving up always complete, and so do the three pointer handlers,
  whose selection always refers to an allocated layer object.
\<close>

theorem intact_step_throws:
  assumes "wf_canvas s" and "intact s"
  shows "snd (canvas_step s ev) \<noteq> None \<longleftrightarrow>
           (\<exists>k. ev = MoveDownLayer k \<and> imageLayers s \<noteq> [] \<and> k \<notin> layer_id ` set (layers s))"
proof (cases ev)
  case (MoveDownLayer k)
  with move_down_throws_iff [OF assms, of k] show ?thesis by simp
next
  case MouseUp
  then show ?thesis by (simp add: onMouseUp_def split: option.splits)
qed (use assms in \<open>simp_all add: list_ops_no_error mouse_down_no_error mouse_move_no_error\<close>)

theorem intact_step_throws_witness:
  "wf_canvas demo_canvas \<and> intact demo_canvas
   \<and> snd (canvas_step demo_canvas (MoveDownLayer 7)) \<noteq> None
   \<and> snd (canvas_step demo_canvas (MoveUpLayer 7)) = None"
proof -
  have n: "imageLayers demo_canvas \<noteq> [] \<and> (7::nat) \<notin> layer_id ` set (layers demo_canvas)"
    by (simp add: demo_canvas_fields demo_canvas_layers demo_layers_def new_layer_def)
  show ?thesis
    using demo_canvas_ok n intact_step_throws [OF demo_canvas_ok, of "MoveDownLayer 7"]
      intact_step_throws [OF demo_canvas_ok, of "MoveUpLayer 7"]
    by blast
qed

end
