(* ===== verification/Routing.thy ===== *)
theory Routing
  imports Canvas_Prelude
begin

text \<open>
  The routing module (\<open>src/src/app/app-routing.module.ts\<close>): the table of two routes
  and what the router does with it. The table is the code; the matching is Angular's
  \<open>RouterModule\<close>, modelled for the case this table has: leaf routes (no children,
  no redirects, the default \<open>pathMatch: 'prefix'\<close>), where a route is taken only when
  its path segments consume the whole URL, and the first such route in table order
  wins. A URL no route matches is a navigation error.
\<close>

datatype route_target = HomeComponent | CanvasComponent

record route =
  path :: string
  component :: route_target

text \<open>The \<open>routes\<close> constant (lines 6--9).\<close>

definition routes :: "route list" where
  "routes = [\<lparr>path = '''', component = HomeComponent\<rparr>, \<lparr>path = ''canvas'', component = CanvasComponent\<rparr>]"

text \<open>Splitting a path at \<open>/\<close> into its non-empty segments.\<close>

fun split_on :: "char \<Rightarrow> string \<Rightarrow> string list" where
  "split_on c [] = [[]]"
| "split_on c (x # xs) =
     (if x = c then [] # split_on c xs
      else (case split_on c xs of [] \<Rightarrow> [[x]] | w # ws \<Rightarrow> (x # w) # ws))"

definition path_segments :: "string \<Rightarrow> string list" where
  "path_segments p = filter (\<lambda>w. w \<noteq> []) (split_on (CHR ''/'') p)"

text \<open>The routing outcome: the component shown, or \<open>None\<close> for "Cannot match any routes".\<close>

definition recognize :: "route list \<Rightarrow> string list \<Rightarrow> route_target option" where
  "recognize rs url = map_option component (find (\<lambda>r. path_segments (path r) = url) rs)"

lemma path_segments_routes:
  "path_segments '''' = []" "path_segments ''canvas'' = [''canvas'']"
  by (simp_all add: path_segments_def)

text \<open>
  The table shows the home view at the empty URL, the canvas view at \<open>/canvas\<close>, and
  matches no other URL: there is no wildcard route.
\<close>

lemma recognize_routes:
  "recognize routes url =
     (if url = [] then Some HomeComponent
      else if url = [''canvas''] then Some CanvasComponent else None)"
  by (simp add: recognize_def routes_def path_segments_routes)

end
