(* ===== verification/Sidebar.thy ===== *)
theory Sidebar
  imports Canvas_Prelude
begin

text \<open>
  The sidebar component (\<open>src/src/app/sidebar/sidebar.component.ts\<close>): the list of
  chosen files with the local sequence ids it assigns, and the four outputs it emits to
  its parent. Files are opaque to the component, so their type is a parameter
  \<open>'f\<close>. A handler returns the new state and the list of values it emitted, in
  emission order. The file input's own value (reset to \<open>null\<close> after each choice) is
  the field \<open>fileSelect_value\<close>: the list of files the input holds.
\<close>

section \<open>State and outputs\<close>

text \<open>The entries of \<open>files\<close> (line 21): \<open>{ id: number; file: File }\<close>.\<close>

record 'f file_entry =
  entry_id :: nat
  entry_file :: 'f

text \<open>The component's fields (lines 15--22); \<open>nextId\<close> is \<open>sb_nextId\<close>.\<close>

record 'f sidebar_state =
  files :: "'f file_entry list"
  sb_nextId :: nat
  fileSelect_value :: "'f list"

text \<open>The four \<open>@Output()\<close> emitters (lines 16--19), one constructor each.\<close>

datatype 'f sidebar_output =
    FileSelected 'f
  | DeleteSelected nat
  | MoveUpSelected nat
  | MoveDownSelected nat

definition init_sidebar :: "'f sidebar_state" where
  "init_sidebar = \<lparr>files = [], sb_nextId = 0, fileSelect_value = []\<rparr>"

section \<open>Handlers\<close>

text \<open>
  \<open>onFileChange\<close> (lines 24--33), given the \<open>files\<close> list of the change event's
  target: with at least one file, take the first, give it the next id, push the entry,
  emit \<open>fileSelected\<close> and clear the input; with none, do nothing.
\<close>

definition onFileChange :: "'f list \<Rightarrow> 'f sidebar_state \<Rightarrow> 'f sidebar_state \<times> 'f sidebar_output list" where
  "onFileChange selectedFiles s =
     (if length selectedFiles > 0 then
        let file = selectedFiles ! 0;
            nid = sb_nextId s
        in (s\<lparr>files := files s @ [\<lparr>entry_id = nid, entry_file = file\<rparr>], sb_nextId := Suc nid,
              fileSelect_value := []\<rparr>, [FileSelected file])
      else (s, []))"

text \<open>\<open>onDelete\<close> (lines 35--38): drop every entry with that id, then emit it.\<close>

definition onDelete :: "nat \<Rightarrow> 'f sidebar_state \<Rightarrow> 'f sidebar_state \<times> 'f sidebar_output list" where
  "onDelete lid s = (s\<lparr>files := filter (\<lambda>f. entry_id f \<noteq> lid) (files s)\<rparr>, [DeleteSelected lid])"

text \<open>\<open>onMoveUp\<close> and \<open>onMoveDown\<close> (lines 40--46) only emit: the sidebar's own list keeps its order.\<close>

definition onMoveUp :: "nat \<Rightarrow> 'f sidebar_state \<Rightarrow> 'f sidebar_state \<times> 'f sidebar_output list" where
  "onMoveUp lid s = (s, [MoveUpSelected lid])"

definition onMoveDown :: "nat \<Rightarrow> 'f sidebar_state \<Rightarrow> 'f sidebar_state \<times> 'f sidebar_output list" where
  "onMoveDown lid s = (s, [MoveDownSelected lid])"

text \<open>
  The template's bindings (the change event of the file input and the three buttons of
  each entry; the template file is not part of the repository) as events, and runs
  that collect what was emitted.
\<close>

datatype 'f sidebar_event =
    FileChange "'f list"
  | DeleteClick nat
  | MoveUpClick nat
  | MoveDownClick nat

fun sidebar_step :: "'f sidebar_state \<Rightarrow> 'f sidebar_event \<Rightarrow> 'f sidebar_state \<times> 'f sidebar_output list" where
  "sidebar_step s (FileChange fs) = onFileChange fs s"
| "sidebar_step s (DeleteClick lid) = onDelete lid s"
| "sidebar_step s (MoveUpClick lid) = onMoveUp lid s"
| "sidebar_step s (MoveDownClick lid) = onMoveDown lid s"

fun sidebar_run :: "'f sidebar_state \<Rightarrow> 'f sidebar_event list \<Rightarrow> 'f sidebar_state \<times> 'f sidebar_output list" where
  "sidebar_run s [] = (s, [])"
| "sidebar_run s (e # es) =
     (let (s1, out1) = sidebar_step s e; (s2, out2) = sidebar_run s1 es in (s2, out1 @ out2))"

section \<open>Invariant\<close>

text \<open>The ids of the list strictly increase along it and are all below \<open>nextId\<close>.\<close>

definition sb_wf :: "'f sidebar_state \<Rightarrow> bool" where
  "sb_wf s \<longleftrightarrow> sorted_wrt (<) (map entry_id (files s)) \<and> list_all (\<lambda>f. entry_id f < sb_nextId s) (files s)"

text \<open>The entries that \<open>n\<close> successive non-empty choices add, from id \<open>i\<close> on.\<close>

primrec entries_from :: "nat \<Rightarrow> 'f list list \<Rightarrow> 'f file_entry list" where
  "entries_from i [] = []"
| "entries_from i (fs # fss) = \<lparr>entry_id = i, entry_file = hd fs\<rparr> # entries_from (Suc i) fss"

section \<open>Lemmas\<close>

lemma sidebar_run_append:
  "sidebar_run s (es @ es') =
     (let (s1, out1) = sidebar_run s es; (s2, out2) = sidebar_run s1 es' in (s2, out1 @ out2))"
  by (induction es arbitrary: s) (auto simp: split_def Let_def)

lemma onFileChange_nonempty:
  "fs \<noteq> [] \<Longrightarrow> onFileChange fs s =
     (s\<lparr>files := files s @ [\<lparr>entry_id = sb_nextId s, entry_file = hd fs\<rparr>], sb_nextId := Suc (sb_nextId s),
        fileSelect_value := []\<rparr>, [FileSelected (hd fs)])"
  by (simp add: onFileChange_def hd_conv_nth Let_def)

lemma entries_from_ids: "map entry_id (entries_from i fss) = [i..<i + length fss]"
  by (induction fss arbitrary: i) (simp_all add: upt_rec)

lemma entries_from_files: "map entry_file (entries_from i fss) = map hd fss"
  by (induction fss arbitrary: i) simp_all

lemma sb_wf_onFileChange: "sb_wf s \<Longrightarrow> sb_wf (fst (onFileChange fs s))"
  by (auto simp: onFileChange_def sb_wf_def sorted_wrt_append list_all_iff Let_def)

lemma sb_wf_onDelete: "sb_wf s \<Longrightarrow> sb_wf (fst (onDelete lid s))"
  by (auto simp: onDelete_def sb_wf_def list_all_iff sorted_wrt_map sorted_wrt_filter)

lemma sb_wf_step: "sb_wf s \<Longrightarrow> sb_wf (fst (sidebar_step s e))"
  by (cases e) (simp_all add: sb_wf_onFileChange sb_wf_onDelete onMoveUp_def onMoveDown_def)

lemma sb_wf_init: "sb_wf init_sidebar"
  by (simp add: sb_wf_def init_sidebar_def)

lemma onFileChange_empty [simp]: "onFileChange [] s = (s, [])"
  by (simp add: onFileChange_def)

lemma sb_wf_run: "sb_wf s \<Longrightarrow> sb_wf (fst (sidebar_run s es))"
  by (induction es arbitrary: s) (simp_all add: split_def Let_def sb_wf_step)

lemma sb_wf_distinct: "sb_wf s \<Longrightarrow> distinct (map entry_id (files s))"
  by (simp add: sb_wf_def strict_sorted_iff)

section \<open>Properties\<close>

text \<open>
  C14: choosing files \<open>n\<close> times, each time with at least one file, appends one entry
  per choice, holding the first file of that choice, with the consecutive ids from the
  current \<open>nextId\<close> on, emits \<open>fileSelected\<close> with each of those files in order, and
  leaves the input cleared.
\<close>

theorem sidebar_run_loads:
  assumes "\<forall>fs\<in>set fss. fs \<noteq> []"
  shows "sidebar_run s (map FileChange fss) =
           (if fss = [] then (s, [])
            else (s\<lparr>files := files s @ entries_from (sb_nextId s) fss,
                    sb_nextId := sb_nextId s + length fss, fileSelect_value := []\<rparr>,
                  map (FileSelected \<circ> hd) fss))"
  using assms
proof (induction fss arbitrary: s)
  case Nil
  then show ?case by simp
next
  case (Cons fs fss)
  then have fs: "fs \<noteq> []" and IH: "\<And>t. sidebar_run t (map FileChange fss) =
           (if fss = [] then (t, [])
            else (t\<lparr>files := files t @ entries_from (sb_nextId t) fss,
                    sb_nextId := sb_nextId t + length fss, fileSelect_value := []\<rparr>,
                  map (FileSelected \<circ> hd) fss))"
    by simp_all
  show ?case
    by (simp add: onFileChange_nonempty [OF fs] IH)
qed

text \<open>The witness: two choices from the initial sidebar, the first of two files, the second of one.\<close>

theorem sidebar_run_loads_witness:
  "sidebar_run init_sidebar [FileChange [''a.png'', ''b.png''], FileChange [''c.png'']] =
     (\<lparr>files = [\<lparr>entry_id = 0, entry_file = ''a.png''\<rparr>, \<lparr>entry_id = 1, entry_file = ''c.png''\<rparr>],
       sb_nextId = 2, fileSelect_value = []\<rparr>,
      [FileSelected ''a.png'', FileSelected ''c.png''])"
  using sidebar_run_loads [of "[[''a.png'', ''b.png''], [''c.png'']]" init_sidebar]
  by (simp add: init_sidebar_def)

text \<open>
  C15: a change event whose file list is empty is ignored: a run of choices behaves
  exactly as the run of its non-empty choices, so empty choices neither take an id nor
  emit anything.
\<close>

theorem sidebar_run_skips_empty:
  "sidebar_run s (map FileChange fss) = sidebar_run s (map FileChange (filter (\<lambda>fs. fs \<noteq> []) fss))"
  by (induction fss arbitrary: s) (simp_all add: split_def Let_def)

text \<open>
  C16: every state the sidebar reaches from its initial state keeps its entries in
  strictly increasing id order with all ids below \<open>nextId\<close>; in particular no two
  entries share an id.
\<close>

theorem sidebar_reachable_wf:
  "sb_wf (fst (sidebar_run init_sidebar es)) \<and> distinct (map entry_id (files (fst (sidebar_run init_sidebar es))))"
  using sb_wf_run [OF sb_wf_init, of es] by (simp add: sb_wf_distinct)

text \<open>
  C17: on a well-formed sidebar, deleting the id of an entry removes exactly that entry,
  keeping the order of the others, and emits \<open>deleteSelected\<close> with the id.
\<close>

theorem onDelete_removes_entry:
  assumes "sb_wf s" and "files s = us @ f # vs" and "entry_id f = k"
  shows "onDelete k s = (s\<lparr>files := us @ vs\<rparr>, [DeleteSelected k])"
proof -
  have "sorted_wrt (<) (map entry_id us @ k # map entry_id vs)"
    using assms by (simp add: sb_wf_def)
  then have "\<forall>u\<in>set us. entry_id u \<noteq> k" "\<forall>v\<in>set vs. entry_id v \<noteq> k"
    by (auto simp: sorted_wrt_append)
  then show ?thesis using assms(2,3) by (simp add: onDelete_def)
qed

theorem onDelete_removes_entry_witness:
  "onDelete 1 \<lparr>files = [\<lparr>entry_id = 0, entry_file = ''a.png''\<rparr>, \<lparr>entry_id = 1, entry_file = ''c.png''\<rparr>,
                      \<lparr>entry_id = 4, entry_file = ''d.png''\<rparr>], sb_nextId = 5, fileSelect_value = []\<rparr> =
     (\<lparr>files = [\<lparr>entry_id = 0, entry_file = ''a.png''\<rparr>, \<lparr>entry_id = 4, entry_file = ''d.png''\<rparr>],
       sb_nextId = 5, fileSelect_value = []\<rparr>, [DeleteSelected 1])"
  using onDelete_removes_entry [of "\<lparr>files = [\<lparr>entry_id = 0, entry_file = ''a.png''\<rparr>, \<lparr>entry_id = 1, entry_file = ''c.png''\<rparr>,
                      \<lparr>entry_id = 4, entry_file = ''d.png''\<rparr>], sb_nextId = 5, fileSelect_value = []\<rparr>"
      "[\<lparr>entry_id = 0, entry_file = ''a.png''\<rparr>]" "\<lparr>entry_id = 1, entry_file = ''c.png''\<rparr>"
      "[\<lparr>entry_id = 4, entry_file = ''d.png''\<rparr>]" 1]
  by (simp add: sb_wf_def)

end
