(* ===== verification/App.thy ===== *)
theory App
  imports Canvas_Spec Sidebar
begin

text \<open>
  The composition of the two components. The parent template that binds the sidebar's
  outputs to the canvas's handlers is not part of the repository; the wiring modelled
  here is the one the spec describes (\<open>fileSelected\<close> to \<open>onFileSelected\<close>,
  \<open>deleteSelected\<close> to \<open>onDeleteSelected\<close>, \<open>moveUpSelected\<close> and
  \<open>moveDownSelected\<close> to their canvas handlers). A file the canvas receives starts a
  \<open>FileReader\<close>; the browser later finishes or fails each read-and-decode, in an order
  it chooses, which is the list \<open>decoding\<close> of files in flight and the events
  \<open>DecodeDone i\<close> and \<open>DecodeFailed i\<close> naming which of them completes.

  An exception a canvas handler raises goes to the Angular error handler; the emitting
  sidebar handler has already made its state change (\<open>onDelete\<close> filters before it
  emits, and the only handler that emits before a further statement,
  \<open>onFileChange\<close>, is bound to \<open>onFileSelected\<close>, which does not throw), so the
  wiring keeps the new state of both components.
\<close>

section \<open>State and events\<close>

record 'f app_state =
  sidebar :: "'f sidebar_state"
  canvas :: canvas_state
  decoding :: "'f list"

definition init_app :: "nat \<Rightarrow> nat \<Rightarrow> 'f app_state" where
  "init_app w h = \<lparr>sidebar = init_sidebar, canvas = init_canvas w h, decoding = []\<rparr>"

text \<open>One emitted sidebar output, delivered to the canvas handler it is bound to.\<close>

fun deliver :: "'f app_state \<Rightarrow> 'f sidebar_output \<Rightarrow> 'f app_state" where
  "deliver a (FileSelected f) = a\<lparr>decoding := decoding a @ onFileSelected f\<rparr>"
| "deliver a (DeleteSelected k) = a\<lparr>canvas := fst (onDeleteSelected k (canvas a))\<rparr>"
| "deliver a (MoveUpSelected k) = a\<lparr>canvas := fst (onMoveUpSelected k (canvas a))\<rparr>"
| "deliver a (MoveDownSelected k) = a\<lparr>canvas := fst (onMoveDownSelected k (canvas a))\<rparr>"

definition sidebar_then :: "'f app_state \<Rightarrow> 'f sidebar_state \<times> 'f sidebar_output list \<Rightarrow> 'f app_state" where
  "sidebar_then a r = foldl deliver (a\<lparr>sidebar := fst r\<rparr>) (snd r)"

datatype 'f app_event =
    ChooseFiles "'f list"
  | ClickDelete nat
  | ClickMoveUp nat
  | ClickMoveDown nat
  | DecodeDone nat image_el
  | DecodeFailed nat
  | PointerDown coord coord
  | PointerMove coord coord
  | PointerUp

text \<open>Removing the \<open>i\<close>-th file in flight.\<close>

definition drop_at :: "nat \<Rightarrow> 'a list \<Rightarrow> 'a list" where
  "drop_at i xs = take i xs @ drop (Suc i) xs"

fun app_step :: "'f app_state \<Rightarrow> 'f app_event \<Rightarrow> 'f app_state" where
  "app_step a (ChooseFiles fs) = sidebar_then a (onFileChange fs (sidebar a))"
| "app_step a (ClickDelete k) = sidebar_then a (onDelete k (sidebar a))"
| "app_step a (ClickMoveUp k) = sidebar_then a (onMoveUp k (sidebar a))"
| "app_step a (ClickMoveDown k) = sidebar_then a (onMoveDown k (sidebar a))"
| "app_step a (DecodeDone i img) =
     (if i < length (decoding a)
      then a\<lparr>decoding := drop_at i (decoding a), canvas := fst (image_onload img (canvas a))\<rparr>
      else a)"
| "app_step a (DecodeFailed i) =
     (if i < length (decoding a) then a\<lparr>decoding := drop_at i (decoding a)\<rparr> else a)"
| "app_step a (PointerDown mx my) = a\<lparr>canvas := fst (onMouseDown mx my (canvas a))\<rparr>"
| "app_step a (PointerMove mx my) = a\<lparr>canvas := fst (onMouseMove mx my (canvas a))\<rparr>"
| "app_step a PointerUp = a\<lparr>canvas := fst (onMouseUp (canvas a))\<rparr>"

fun app_run :: "'f app_state \<Rightarrow> 'f app_event list \<Rightarrow> 'f app_state" where
  "app_run a [] = a"
| "app_run a (e # es) = app_run (app_step a e) es"

text \<open>
  The use the spec assumes: every decode succeeds, and the buttons of an entry are used
  only once its image is a layer of the canvas.
\<close>

fun app_ok :: "'f app_state \<Rightarrow> 'f app_event \<Rightarrow> bool" where
  "app_ok a (ClickDelete k) = (k \<in> layer_id ` set (layers (canvas a)))"
| "app_ok a (ClickMoveUp k) = (k \<in> layer_id ` set (layers (canvas a)))"
| "app_ok a (ClickMoveDown k) = (k \<in> layer_id ` set (layers (canvas a)))"
| "app_ok a (DecodeFailed i) = False"
| "app_ok a e = True"

inductive app_reach :: "nat \<Rightarrow> nat \<Rightarrow> 'f app_state \<Rightarrow> bool" for w h where
  start: "app_reach w h (init_app w h)"
| step: "app_reach w h a \<Longrightarrow> app_ok a e \<Longrightarrow> app_reach w h (app_step a e)"

text \<open>Every event of a run respects that use.\<close>

fun app_ok_run :: "'f app_state \<Rightarrow> 'f app_event list \<Rightarrow> bool" where
  "app_ok_run a [] = True"
| "app_ok_run a (e # es) = (app_ok a e \<and> app_ok_run (app_step a e) es)"

text \<open>
  The two components agree: both are well-formed, the canvas is intact, every file the
  sidebar has numbered is either a layer with the same id or in flight, and the ids the
  files in flight will get when they finish are the ids the sidebar gave them (as a
  multiset: the two lists may be in different orders, since moves reorder only the
  canvas).
\<close>

definition app_sync :: "'f app_state \<Rightarrow> bool" where
  "app_sync a \<longleftrightarrow>
     wf_canvas (canvas a) \<and> intact (canvas a) \<and> sb_wf (sidebar a) \<and>
     nextId (canvas a) + length (decoding a) = sb_nextId (sidebar a) \<and>
     mset (map entry_id (files (sidebar a))) =
       mset (map layer_id (layers (canvas a))) + mset [nextId (canvas a)..<sb_nextId (sidebar a)]"

text \<open>
  The reads that fail along a run: a \<open>DecodeFailed i\<close> that names a read in flight.
  This counts events of the run; it is not a part of the program.
\<close>

fun failed_read :: "'f app_state \<Rightarrow> 'f app_event \<Rightarrow> nat" where
  "failed_read a (DecodeFailed i) = (if i < length (decoding a) then 1 else 0)"
| "failed_read a e = 0"

fun failed_reads :: "'f app_state \<Rightarrow> 'f app_event list \<Rightarrow> nat" where
  "failed_reads a [] = 0"
| "failed_reads a (e # es) = failed_read a e + failed_reads (app_step a e) es"

section \<open>Concrete runs\<close>

text \<open>
  Runs from an 800 by 600 canvas in which the user picks \<open>a.png\<close> and then
  \<open>b.png\<close> (decoding to the images \<open>img_a\<close> and \<open>img_b\<close> of theory
  \<open>Canvas_Demo\<close>), and the browser finishes the second decode first.
\<close>

definition two_files :: "string app_event list" where
  "two_files = [ChooseFiles [''a.png''], ChooseFiles [''b.png'']]"

definition out_of_order_run :: "string app_event list" where
  "out_of_order_run = two_files @ [DecodeDone 1 img_b, DecodeDone 0 img_a]"

section \<open>Layer ids on the canvas side\<close>

lemma layer_ids_below:
  assumes "wf_canvas s" and "intact s" and "l \<in> set (layers s)"
  shows "layer_id l < nextId s"
proof -
  obtain v where v: "v \<in> set (imageLayers s)" "l = slot_layer s v"
    using assms(3) by (auto simp: layers_def)
  with good_slots [OF assms(1,2) v(1)] obtain r where "v = Obj r" "r < length (layer_heap s)"
    by (auto simp: good_slot_def split: jsval.splits)
  with v have "l \<in> set (layer_heap s)" by (simp add: slot_layer_def)
  with assms(1) show ?thesis by (auto simp: wf_canvas_def list_all_iff)
qed

lemma layer_ids_cong:
  assumes "wf_canvas s" and "intact s" and "imageLayers t = imageLayers s"
    and "map layer_id (layer_heap t) = map layer_id (layer_heap s)"
  shows "map layer_id (layers t) = map layer_id (layers s)"
proof -
  have "layer_id (slot_layer t v) = layer_id (slot_layer s v)" if "v \<in> set (imageLayers s)" for v
  proof -
    from good_slots [OF assms(1,2) that] obtain r where r: "v = Obj r" "r < length (layer_heap s)"
      by (auto simp: good_slot_def split: jsval.splits)
    moreover have "length (layer_heap t) = length (layer_heap s)"
      using assms(4) by (metis length_map)
    ultimately show ?thesis using assms(4) by (metis nth_map slot_layer_def slot_refs.simps(2) list.sel(1))
  qed
  then show ?thesis using assms(3) by (simp add: layers_def)
qed

lemma mset_filter_ne:
  "mset (map f (filter (\<lambda>x. f x \<noteq> k) xs)) = filter_mset (\<lambda>y. y \<noteq> k) (mset (map f xs))"
  by (induction xs) auto

lemma filter_upt_below:
  assumes "k < a"
  shows "filter_mset (\<lambda>x. x \<noteq> k) (mset [a..<b]) = mset [a..<b]"
proof -
  have "filter (\<lambda>x. x \<noteq> k) [a..<b] = [a..<b]" using assms by (auto simp: filter_id_conv)
  then show ?thesis by (metis mset_filter)
qed

lemma mset_spec_move_up: "mset (spec_move_up k ls) = mset ls"
  by (induction k ls rule: spec_move_up.induct) auto

lemma mset_spec_move_down: "mset (spec_move_down k ls) = mset ls"
  by (induction k ls rule: spec_move_down.induct) auto

lemma list_ops_keep_nextId:
  "nextId (fst (onDeleteSelected k s)) = nextId s"
  "nextId (fst (onMoveUpSelected k s)) = nextId s"
  "nextId (fst (onMoveDownSelected k s)) = nextId s"
  by (simp_all add: onDeleteSelected_def onMoveUpSelected_def onMoveDownSelected_def split: sum.splits)

section \<open>Each step keeps the components in agreement\<close>

lemma sidebar_then_simps [simp]:
  "sidebar_then a (t, []) = a\<lparr>sidebar := t\<rparr>"
  "sidebar_then a (t, [o1]) = deliver (a\<lparr>sidebar := t\<rparr>) o1"
  by (simp_all add: sidebar_then_def)

lemma length_drop_at [simp]: "i < length xs \<Longrightarrow> length (drop_at i xs) = length xs - 1"
  by (simp add: drop_at_def)

lemma app_sync_init: "app_sync (init_app w h)"
  using wf_init_canvas [of w h] sb_wf_init by (simp add: app_sync_def init_app_def wf_init_canvas sb_wf_init layers_def intact_def
      init_canvas_def setupCanvas_def init_sidebar_def)

lemma app_sync_choose:
  assumes "app_sync a"
  shows "app_sync (app_step a (ChooseFiles fs))"
proof (cases "fs = []")
  case True
  with assms show ?thesis by simp
next
  case False
  have "nextId (canvas a) \<le> sb_nextId (sidebar a)" using assms by (simp add: app_sync_def)
  moreover have "sb_wf (fst (onFileChange fs (sidebar a)))"
    using assms by (simp add: app_sync_def sb_wf_onFileChange)
  ultimately show ?thesis using assms False
    by (simp add: app_sync_def onFileChange_nonempty onFileSelected_def file_setter_def)
qed

lemma app_sync_delete:
  assumes "app_sync a" and "k \<in> layer_id ` set (layers (canvas a))"
  shows "app_sync (app_step a (ClickDelete k))"
proof -
  let ?c = "canvas a" and ?b = "sidebar a"
  have wf: "wf_canvas ?c" "intact ?c" using assms(1) by (simp_all add: app_sync_def)
  have c: "completes_with (onDeleteSelected k ?c) (spec_delete k (layers ?c))"
    using wf by (rule onDeleteSelected_completes)
  have "k < nextId ?c" using assms(2) layer_ids_below [OF wf] by auto
  then have r: "filter_mset (\<lambda>x. x \<noteq> k) (mset [nextId ?c..<sb_nextId ?b]) = mset [nextId ?c..<sb_nextId ?b]"
    by (rule filter_upt_below)
  have "mset (map entry_id (filter (\<lambda>f. entry_id f \<noteq> k) (files ?b))) =
        mset (map layer_id (spec_delete k (layers ?c))) + mset [nextId ?c..<sb_nextId ?b]"
    using assms(1) r unfolding spec_delete_def mset_filter_ne by (simp add: app_sync_def)
  moreover have "sb_wf (fst (onDelete k ?b))" using assms(1) by (simp add: app_sync_def sb_wf_onDelete)
  ultimately show ?thesis
    using assms(1) c by (simp add: app_sync_def completes_with_def onDelete_def list_ops_keep_nextId)
qed

lemma app_sync_move_up:
  assumes "app_sync a"
  shows "app_sync (app_step a (ClickMoveUp k))"
proof -
  have wf: "wf_canvas (canvas a)" "intact (canvas a)" using assms by (simp_all add: app_sync_def)
  have "completes_with (onMoveUpSelected k (canvas a)) (spec_move_up k (layers (canvas a)))"
    using wf by (rule onMoveUpSelected_completes)
  with assms show ?thesis
    by (simp add: app_sync_def completes_with_def onMoveUp_def list_ops_keep_nextId mset_map
        mset_spec_move_up)
qed

lemma app_sync_move_down:
  assumes "app_sync a" and "k \<in> layer_id ` set (layers (canvas a))"
  shows "app_sync (app_step a (ClickMoveDown k))"
proof -
  have wf: "wf_canvas (canvas a)" "intact (canvas a)" using assms by (simp_all add: app_sync_def)
  have "completes_with (onMoveDownSelected k (canvas a)) (spec_move_down k (layers (canvas a)))"
    using wf assms(2) by (rule onMoveDownSelected_completes)
  with assms show ?thesis
    by (simp add: app_sync_def completes_with_def onMoveDown_def list_ops_keep_nextId mset_map
        mset_spec_move_down)
qed

lemma app_sync_decoded:
  assumes "app_sync a"
  shows "app_sync (app_step a (DecodeDone i img))"
proof (cases "i < length (decoding a)")
  case True
  let ?c = "canvas a"
  have wf: "wf_canvas ?c" "intact ?c" using assms by (simp_all add: app_sync_def)
  have c: "completes_with (image_onload img ?c) (spec_add (nextId ?c) img (canvas_width ?c) (canvas_height ?c) (layers ?c))
           \<and> nextId (fst (image_onload img ?c)) = Suc (nextId ?c)"
    using wf by (rule image_onload_completes)
  have lt: "nextId ?c < sb_nextId (sidebar a)" using assms True by (simp add: app_sync_def)
  then have "mset [nextId ?c..<sb_nextId (sidebar a)] = add_mset (nextId ?c) (mset [Suc (nextId ?c)..<sb_nextId (sidebar a)])"
    by (simp add: upt_conv_Cons)
  with assms True c show ?thesis
    by (simp add: app_sync_def completes_with_def spec_add_def)
next
  case False
  with assms show ?thesis by simp
qed

lemma app_sync_canvas:
  assumes "app_sync a" and "wf_canvas t" and "imageLayers t = imageLayers (canvas a)"
    and "nextId t = nextId (canvas a)" and "map layer_id (layer_heap t) = map layer_id (layer_heap (canvas a))"
  shows "app_sync (a\<lparr>canvas := t\<rparr>)"
proof -
  have wf: "wf_canvas (canvas a)" "intact (canvas a)" using assms(1) by (simp_all add: app_sync_def)
  have "map layer_id (layers t) = map layer_id (layers (canvas a))"
    using wf assms(3,5) by (rule layer_ids_cong)
  then have "mset (map layer_id (layers t)) = mset (map layer_id (layers (canvas a)))" by (rule arg_cong)
  with assms show ?thesis by (simp add: app_sync_def intact_def)
qed

lemma app_sync_pointer:
  assumes "app_sync a"
  shows "app_sync (app_step a (PointerDown mx my))" and "app_sync (app_step a (PointerMove mx my))"
    and "app_sync (app_step a PointerUp)"
proof -
  have wf: "wf_canvas (canvas a)" using assms by (simp add: app_sync_def)
  show "app_sync (app_step a (PointerDown mx my))"
    using app_sync_canvas [OF assms wf_onMouseDown [OF wf]] pointer_keeps_ids(1) by simp
  show "app_sync (app_step a (PointerMove mx my))"
    using app_sync_canvas [OF assms wf_onMouseMove [OF wf]] pointer_keeps_ids(3) by simp
  show "app_sync (app_step a PointerUp)"
    using app_sync_canvas [OF assms wf_onMouseUp [OF wf]] pointer_keeps_ids(2) by simp
qed

lemma app_sync_step:
  assumes "app_sync a" and "app_ok a e"
  shows "app_sync (app_step a e)"
proof (cases e)
  case (ChooseFiles fs)
  with app_sync_choose [OF assms(1), of fs] show ?thesis by simp
next
  case (ClickDelete k)
  with assms app_sync_delete [of a k] show ?thesis by simp
next
  case (ClickMoveUp k)
  with app_sync_move_up [OF assms(1), of k] show ?thesis by simp
next
  case (ClickMoveDown k)
  with assms app_sync_move_down [of a k] show ?thesis by simp
next
  case (DecodeDone i img)
  with app_sync_decoded [OF assms(1), of i img] show ?thesis by simp
next
  case (DecodeFailed i)
  with assms(2) show ?thesis by simp
next
  case (PointerDown mx my)
  with app_sync_pointer(1) [OF assms(1), of mx my] show ?thesis by simp
next
  case (PointerMove mx my)
  with app_sync_pointer(2) [OF assms(1), of mx my] show ?thesis by simp
next
  case PointerUp
  with app_sync_pointer(3) [OF assms(1)] show ?thesis by simp
qed

lemma app_sync_reach: "app_reach w h a \<Longrightarrow> app_sync a"
  by (induction rule: app_reach.induct) (simp_all add: app_sync_init app_sync_step)


lemma app_reach_run: "app_reach w h a \<Longrightarrow> app_ok_run a es \<Longrightarrow> app_reach w h (app_run a es)"
  by (induction es arbitrary: a) (auto intro: app_reach.step)

lemma app_run_append [simp]: "app_run a (es @ es') = app_run (app_run a es) es'"
  by (induction es arbitrary: a) simp_all

text \<open>The definitions a concrete run evaluates.\<close>

lemmas app_eval = sidebar_then_def onFileChange_def onFileSelected_def file_setter_def image_onload_def
  drop_at_def init_app_def init_canvas_def setupCanvas_def init_sidebar_def onDelete_def onMoveDown_def
  onDeleteSelected_def onMoveDownSelected_def layer_test_def layer_of_def obj_at_def layers_def
  slot_layer_def redrawCanvas_def two_files_def out_of_order_run_def js_findIndex_def js_swap_def
  js_get_def js_set_def Let_def

section \<open>Id counters and entries along any run\<close>

text \<open>
  Every step moves the sidebar's counter and the canvas's counter plus the reads in
  flight by the same amount, except a failed read, which drops a read the sidebar has
  already numbered.
\<close>

lemma id_count_step:
  "sb_nextId (sidebar (app_step a e)) + nextId (canvas a) + length (decoding a)
   = sb_nextId (sidebar a) + nextId (canvas (app_step a e)) + length (decoding (app_step a e))
     + failed_read a e"
proof (cases e)
  case (ChooseFiles fs)
  then show ?thesis
    by (cases "fs = []") (simp_all add: onFileChange_def Let_def onFileSelected_def file_setter_def)
next
  case (DecodeDone i img)
  then show ?thesis by (cases "decoding a") (simp_all add: image_onload_def Let_def)
next
  case (DecodeFailed i)
  then show ?thesis by (cases "decoding a") simp_all
qed (simp_all add: onDelete_def onMoveUp_def onMoveDown_def list_ops_keep_nextId pointer_keeps_ids)

lemma id_count_run:
  "sb_nextId (sidebar (app_run a es)) + nextId (canvas a) + length (decoding a)
   = sb_nextId (sidebar a) + nextId (canvas (app_run a es)) + length (decoding (app_run a es))
     + failed_reads a es"
proof (induction es arbitrary: a)
  case Nil
  then show ?case by simp
next
  case (Cons e es)
  from Cons.IH [of "app_step a e"] id_count_step [of a e] show ?case by simp
qed

lemma id_count_init:
  "sb_nextId (sidebar (app_run (init_app w h) es))
   = nextId (canvas (app_run (init_app w h) es)) + length (decoding (app_run (init_app w h) es))
     + failed_reads (init_app w h) es"
  using id_count_run [of "init_app w h" es]
  by (simp add: init_app_def init_canvas_def setupCanvas_def init_sidebar_def)

text \<open>An entry the sidebar lists after a step was listed before or has a fresh id.\<close>

lemma entries_step:
  "entry_id ` set (files (sidebar (app_step a e))) \<subseteq> entry_id ` set (files (sidebar a)) \<union> {sb_nextId (sidebar a)..}
   \<and> sb_nextId (sidebar a) \<le> sb_nextId (sidebar (app_step a e))"
proof (cases e)
  case (ChooseFiles fs)
  then show ?thesis
    by (cases "fs = []") (auto simp: onFileChange_def Let_def onFileSelected_def file_setter_def)
qed (auto simp: onDelete_def onMoveUp_def onMoveDown_def)

lemma entries_run:
  "n \<in> entry_id ` set (files (sidebar (app_run a es))) \<Longrightarrow>
   n \<in> entry_id ` set (files (sidebar a)) \<or> sb_nextId (sidebar a) \<le> n"
proof (induction es arbitrary: a)
  case Nil
  then show ?case by simp
next
  case (Cons e es)
  from Cons.IH [of "app_step a e"] Cons.prems entries_step [of a e] show ?case by auto
qed

text \<open>In a synchronised state, the canvas's next id is listed by the sidebar exactly when a read is in flight.\<close>

lemma next_id_pending:
  assumes "app_sync a" and "decoding a \<noteq> []"
  shows "nextId (canvas a) \<in> entry_id ` set (files (sidebar a))"
    and "nextId (canvas a) \<notin> layer_id ` set (layers (canvas a))"
    and "nextId (canvas a) < sb_nextId (sidebar a)"
proof -
  have wf: "wf_canvas (canvas a)" "intact (canvas a)" using assms(1) by (simp_all add: app_sync_def)
  show lt: "nextId (canvas a) < sb_nextId (sidebar a)"
    using assms by (cases "decoding a") (simp_all add: app_sync_def)
  have "nextId (canvas a) \<in># mset (map entry_id (files (sidebar a)))"
    using assms(1) lt by (simp add: app_sync_def)
  then show "nextId (canvas a) \<in> entry_id ` set (files (sidebar a))" by simp
  show "nextId (canvas a) \<notin> layer_id ` set (layers (canvas a))"
  proof
    assume "nextId (canvas a) \<in> layer_id ` set (layers (canvas a))"
    then obtain l where "l \<in> set (layers (canvas a))" and "layer_id l = nextId (canvas a)" by auto
    with layer_ids_below [OF wf] show False by fastforce
  qed
qed

section \<open>Properties of the composition\<close>

text \<open>
  C19: as long as every decode succeeds and the buttons of an entry are used only once
  its image is on the canvas, the two components agree: the canvas stays well-formed
  and intact (no handler throws), the sidebar well-formed, the sidebar's ids are the
  canvas's layer ids plus the ids the files in flight will get, and once nothing is in
  flight the sidebar lists exactly the ids of the canvas's layers. This holds whatever
  order the decodes finish in.
\<close>

theorem app_components_agree:
  assumes "app_reach w h a"
  shows "app_sync a \<and>
         (decoding a = [] \<longrightarrow> mset (map entry_id (files (sidebar a))) = mset (map layer_id (layers (canvas a))))"
proof -
  have "app_sync a" using assms by (rule app_sync_reach)
  then show ?thesis by (auto simp: app_sync_def)
qed

text \<open>The witness: both files chosen, the decodes finishing in reverse order.\<close>

theorem app_components_agree_witness:
  "app_reach 800 600 (app_run (init_app 800 600) out_of_order_run)
   \<and> decoding (app_run (init_app 800 600) out_of_order_run) = []
   \<and> app_sync (app_run (init_app 800 600) out_of_order_run)
   \<and> mset (map entry_id (files (sidebar (app_run (init_app 800 600) out_of_order_run))))
       = mset (map layer_id (layers (canvas (app_run (init_app 800 600) out_of_order_run))))"
proof -
  have r: "app_reach 800 600 (app_run (init_app 800 600) out_of_order_run)"
    by (rule app_reach_run [OF app_reach.start]) (simp add: app_eval)
  moreover have "decoding (app_run (init_app 800 600) out_of_order_run) = []"
    by (simp add: app_eval)
  ultimately show ?thesis using app_components_agree [OF r] by simp
qed


text \<open>
  C18: in every run from the initial page, whatever the user and the browser do (failed
  reads and buttons of any id included), the sidebar's counter \<open>nextId\<close> equals the
  canvas's counter plus the reads in flight plus the reads that failed: the two counters
  advance together except that a failed read leaves the sidebar one id ahead.
\<close>

theorem app_id_accounting:
  "sb_nextId (sidebar (app_run (init_app w h) es))
   = nextId (canvas (app_run (init_app w h) es)) + length (decoding (app_run (init_app w h) es))
     + failed_reads (init_app w h) es"
  by (rule id_count_init)

text \<open>
  C20: the canvas numbers images in the order their reads finish. Whichever of the reads
  in flight completes, its image becomes the top layer with id \<open>nextId\<close> of the canvas
  and the sidebar is unchanged, while the sidebar lists every id from that \<open>nextId\<close> to
  \<open>nextId\<close> plus the number of reads in flight, one for each file in flight. With two
  or more reads in flight, only one of them can get the id its entry has, whichever
  finishes first.
\<close>

theorem decode_numbered_by_completion:
  assumes "app_reach w h a" and "i < length (decoding a)"
  shows "sidebar (app_step a (DecodeDone i img)) = sidebar a
         \<and> layers (canvas (app_step a (DecodeDone i img)))
             = layers (canvas a) @ [new_layer (nextId (canvas a)) img (canvas_width (canvas a)) (canvas_height (canvas a))]
         \<and> {nextId (canvas a)..<nextId (canvas a) + length (decoding a)} \<subseteq> entry_id ` set (files (sidebar a))"
proof -
  have sync: "app_sync a" using assms(1) by (rule app_sync_reach)
  then have wf: "wf_canvas (canvas a)" "intact (canvas a)" by (simp_all add: app_sync_def)
  have c: "completes_with (image_onload img (canvas a))
             (spec_add (nextId (canvas a)) img (canvas_width (canvas a)) (canvas_height (canvas a)) (layers (canvas a)))"
    using image_onload_completes [OF wf, of img] by simp
  have "set [nextId (canvas a)..<sb_nextId (sidebar a)] \<subseteq> set (map entry_id (files (sidebar a)))"
    using sync by (simp add: app_sync_def flip: set_mset_mset)
  with sync have "{nextId (canvas a)..<nextId (canvas a) + length (decoding a)} \<subseteq> entry_id ` set (files (sidebar a))"
    by (simp add: app_sync_def)
  with assms(2) c show ?thesis by (simp add: completes_with_def spec_add_def)
qed

theorem decode_numbered_by_completion_witness:
  "app_reach 800 600 (app_run (init_app 800 600) two_files)
   \<and> 1 < length (decoding (app_run (init_app 800 600) two_files))
   \<and> layers (canvas (app_step (app_run (init_app 800 600) two_files) (DecodeDone 1 img_b)))
       = [new_layer 0 img_b 800 600]"
proof -
  have r: "app_reach 800 600 (app_run (init_app 800 600) two_files)"
    by (rule app_reach_run [OF app_reach.start]) (simp add: app_eval)
  moreover have l: "1 < length (decoding (app_run (init_app 800 600) two_files))"
    by (simp add: app_eval)
  moreover have "layers (canvas (app_run (init_app 800 600) two_files)) = []"
    and "nextId (canvas (app_run (init_app 800 600) two_files)) = 0"
    and "canvas_width (canvas (app_run (init_app 800 600) two_files)) = 800"
    and "canvas_height (canvas (app_run (init_app 800 600) two_files)) = 600"
    by (simp_all add: app_eval)
  ultimately show ?thesis using decode_numbered_by_completion [OF r l, of img_b] by simp
qed



text \<open>
  C22: while a read is in flight and the canvas is not empty, the sidebar lists the id
  the canvas will give the next image, which no layer has yet; pressing that entry's
  move-down button runs \<open>onMoveDownSelected\<close> on an absent id (C4): the first slot of
  the canvas's array becomes \<open>undefined\<close> and the first layer is lost. This happens in
  runs that keep every condition of C19.
\<close>

theorem pending_move_down_wedges:
  assumes "app_reach w h a" and "decoding a \<noteq> []" and "imageLayers (canvas a) \<noteq> []"
  shows "nextId (canvas a) \<in> entry_id ` set (files (sidebar a))
         \<and> nextId (canvas a) \<notin> layer_id ` set (layers (canvas a))
         \<and> imageLayers (canvas (app_step a (ClickMoveDown (nextId (canvas a)))))
             = Undefined # tl (imageLayers (canvas a))"
proof -
  have sync: "app_sync a" using assms(1) by (rule app_sync_reach)
  then have wf: "wf_canvas (canvas a)" "intact (canvas a)" by (simp_all add: app_sync_def)
  note n = next_id_pending [OF sync assms(2)]
  with onMoveDownSelected_absent_eq [OF wf assms(3) n(2)] show ?thesis
    by (simp add: onMoveDown_def)
qed

theorem pending_move_down_wedges_witness:
  "app_reach 800 600 (app_run (init_app 800 600) [ChooseFiles [''a.png''], DecodeDone 0 img_a, ChooseFiles [''b.png'']])
   \<and> decoding (app_run (init_app 800 600) [ChooseFiles [''a.png''], DecodeDone 0 img_a, ChooseFiles [''b.png'']]) \<noteq> []
   \<and> imageLayers (canvas (app_run (init_app 800 600) [ChooseFiles [''a.png''], DecodeDone 0 img_a, ChooseFiles [''b.png'']])) \<noteq> []
   \<and> imageLayers (canvas (app_step (app_run (init_app 800 600) [ChooseFiles [''a.png''], DecodeDone 0 img_a, ChooseFiles [''b.png'']])
       (ClickMoveDown 1))) = [Undefined]"
proof -
  let ?a = "app_run (init_app 800 600) [ChooseFiles [''a.png''], DecodeDone 0 img_a, ChooseFiles [''b.png'']]"
  have r: "app_reach 800 600 ?a"
    by (rule app_reach_run [OF app_reach.start]) (simp add: app_eval)
  moreover have d: "decoding ?a \<noteq> []" and i: "imageLayers (canvas ?a) \<noteq> []"
    and n: "nextId (canvas ?a) = 1" and t: "imageLayers (canvas ?a) = [Obj 0]"
    by (simp_all add: app_eval)
  ultimately show ?thesis using pending_move_down_wedges [OF r d i] by simp
qed

text \<open>
  C23: deleting the entry of a file whose read is in flight removes it from the sidebar
  only. When any of the reads in flight then finishes, its image becomes a layer with
  that entry's id, and no entry of the sidebar ever names that id again, whatever
  happens next: no button can delete or move the image.
\<close>

theorem pending_delete_leaves_orphan:
  assumes "app_reach w h a" and "i < length (decoding a)"
  shows "nextId (canvas a) \<in> layer_id ` set (layers (canvas (app_run a [ClickDelete (nextId (canvas a)), DecodeDone i img])))
         \<and> (\<forall>es. nextId (canvas a) \<notin>
               entry_id ` set (files (sidebar (app_run a (ClickDelete (nextId (canvas a)) # DecodeDone i img # es)))))"
proof -
  let ?n = "nextId (canvas a)"
  let ?b = "app_step a (ClickDelete ?n)"
  have sync: "app_sync a" using assms(1) by (rule app_sync_reach)
  then have wf: "wf_canvas (canvas a)" "intact (canvas a)" by (simp_all add: app_sync_def)
  have dec: "decoding a \<noteq> []" using assms(2) by auto
  note n = next_id_pending [OF sync dec]
  have del: "completes_with (onDeleteSelected ?n (canvas a)) (spec_delete ?n (layers (canvas a)))"
    using wf by (rule onDeleteSelected_completes)
  have "spec_delete ?n (layers (canvas a)) = layers (canvas a)"
    using n(2) by (auto simp: spec_delete_def filter_id_conv image_iff)
  with del have c: "completes_with (onDeleteSelected ?n (canvas a)) (layers (canvas a))" by simp
  then have wfb: "wf_canvas (canvas ?b)" "intact (canvas ?b)" and lb: "layers (canvas ?b) = layers (canvas a)"
    by (simp_all add: completes_with_def onDelete_def)
  have nb: "nextId (canvas ?b) = ?n" and db: "decoding ?b = decoding a"
    and sb: "files (sidebar ?b) = filter (\<lambda>f. entry_id f \<noteq> ?n) (files (sidebar a))"
    and kb: "sb_nextId (sidebar ?b) = sb_nextId (sidebar a)"
    by (simp_all add: onDelete_def list_ops_keep_nextId)
  have "completes_with (image_onload img (canvas ?b))
          (spec_add (nextId (canvas ?b)) img (canvas_width (canvas ?b)) (canvas_height (canvas ?b)) (layers (canvas ?b)))"
    using image_onload_completes [OF wfb, of img] by simp
  then have "?n \<in> layer_id ` set (layers (canvas (app_step ?b (DecodeDone i img))))"
    using assms(2) nb db by (simp add: completes_with_def spec_add_def new_layer_def)
  moreover have "?n \<notin> entry_id ` set (files (sidebar (app_run (app_step ?b (DecodeDone i img)) es)))" for es
  proof
    assume "?n \<in> entry_id ` set (files (sidebar (app_run (app_step ?b (DecodeDone i img)) es)))"
    then have "?n \<in> entry_id ` set (files (sidebar (app_step ?b (DecodeDone i img))))
               \<or> sb_nextId (sidebar (app_step ?b (DecodeDone i img))) \<le> ?n"
      by (rule entries_run)
    moreover have "files (sidebar (app_step ?b (DecodeDone i img))) = filter (\<lambda>f. entry_id f \<noteq> ?n) (files (sidebar a))"
      and "sb_nextId (sidebar (app_step ?b (DecodeDone i img))) = sb_nextId (sidebar a)"
      using sb kb by simp_all
    ultimately have "?n \<in> entry_id ` set (filter (\<lambda>f. entry_id f \<noteq> ?n) (files (sidebar a)))
                     \<or> sb_nextId (sidebar a) \<le> ?n"
      by (simp only:)
    then show False using n(3) by auto
  qed
  ultimately show ?thesis by simp
qed

theorem pending_delete_leaves_orphan_witness:
  "app_reach 800 600 (app_run (init_app 800 600) [ChooseFiles [''a.png'']])
   \<and> 0 < length (decoding (app_run (init_app 800 600) [ChooseFiles [''a.png'']]))
   \<and> (0::nat) \<in> layer_id ` set (layers (canvas (app_run (init_app 800 600) [ChooseFiles [''a.png''], ClickDelete 0, DecodeDone 0 img_a])))"
proof -
  let ?a = "app_run (init_app 800 600) [ChooseFiles [''a.png'']]"
  have r: "app_reach 800 600 ?a"
    by (rule app_reach_run [OF app_reach.start]) (simp add: app_eval)
  moreover have d: "0 < length (decoding ?a)" and n: "nextId (canvas ?a) = 0"
    by (simp_all add: app_eval)
  ultimately show ?thesis using pending_delete_leaves_orphan [OF r d, of img_a] by simp
qed

end
