(* ===== verification/Spec2Isabelle.thy ===== *)
theory Spec2Isabelle
  imports Canvas_Props Canvas_Display Routing App
begin

text \<open>
  \<^bold>\<open>A verification development of canvas-app.\<close>

  The application is a browser image compositor written in Angular. Three source files
  hold its logic: \<open>src/src/app/canvas/canvas.component.ts\<close> (the canvas: a list of
  image layers, their drawing, and the pointer gestures that move and resize them),
  \<open>src/src/app/sidebar/sidebar.component.ts\<close> (the list of chosen files, which
  numbers them and emits \<open>fileSelected\<close>, \<open>deleteSelected\<close>, \<open>moveUpSelected\<close> and
  \<open>moveDownSelected\<close>), and \<open>src/src/app/app-routing.module.ts\<close> (two routes). The
  sidebar's outputs drive the canvas's handlers; a chosen file reaches the canvas as a
  \<open>FileReader\<close> whose decoded image is later pushed as a layer.

  \<^bold>\<open>Theories and what they model.\<close>
  \<^item> \<open>Canvas_Prelude\<close>: numeric types (coordinates are exact rationals, ids naturals),
    the first-match index \<open>find_idx\<close> and the swap \<open>swap_at\<close> with their list lemmas.
  \<^item> \<open>Js_Runtime\<close>: the ECMAScript behaviour the canvas relies on, from the language
    semantics: array slots holding a reference or \<open>undefined\<close>, element reads and
    writes by index (\<open>js_get\<close>, \<open>js_set\<close>, the destructuring swap \<open>js_swap\<close>), and
    \<open>findIndex\<close>, \<open>find\<close>, \<open>filter\<close> with callbacks that may throw \<open>TypeError\<close>.
  \<^item> \<open>Layer\<close>: the \<open>ImageLayer\<close> interface (record \<open>image_layer\<close>), the hit tests
    \<open>isMouseOverLayer\<close> and \<open>onResizeHandle\<close>, the layer built by \<open>img.onload\<close>
    (\<open>new_layer\<close>) and its drawing commands (\<open>paint_layer\<close>, \<open>drawResizeHandles\<close>).
  \<^item> \<open>Canvas\<close>: the component's fields as record \<open>canvas_state\<close>, with an explicit heap
    of layer objects because \<open>imageLayers\<close> and \<open>selectedImageLayer\<close> share them by
    reference; one definition per method (\<open>setupCanvas\<close>, \<open>redrawCanvas\<close>,
    \<open>file_setter\<close>, \<open>onFileSelected\<close>, \<open>image_onload\<close>, \<open>onDeleteSelected\<close>,
    \<open>onMoveUpSelected\<close>, \<open>onMoveDownSelected\<close>, \<open>onMouseDown\<close>, \<open>onMouseUp\<close>,
    \<open>onMouseMove\<close> with its branches \<open>drag_step\<close> and \<open>resize_step\<close>). A handler returns
    the new state and the exception it raised, if any; the canvas pixels are the list of
    drawing commands issued since the last clear. \<open>canvas_step\<close> and \<open>canvas_run\<close>
    apply events in sequence.
  \<^item> \<open>Canvas_Inv\<close>: the heap invariant \<open>wf_canvas\<close> (references allocated and unshared,
    ids distinct and below \<open>nextId\<close>), \<open>intact\<close> (no \<open>undefined\<close> slot), preservation
    of \<open>wf_canvas\<close> by every handler, and the reductions of the array methods on intact
    states to \<open>filter\<close>, \<open>find\<close> and \<open>find_idx\<close> over \<open>layers\<close>, the list of layer
    values.
  \<^item> \<open>Canvas_Demo\<close>: the concrete inputs of the witnesses (three images, the state
    after loading them into an 800 by 600 canvas).
  \<^item> \<open>Canvas_Spec\<close>: the abstract list operations of the spec (\<open>spec_delete\<close>,
    \<open>spec_move_up\<close>, \<open>spec_move_down\<close>, \<open>spec_add\<close>) and the refinement theorems
    C1--C3 and C5 (each handler completes, keeps the invariants and maps \<open>layers\<close> to
    the abstract result), the move-down bug C4 and its consequence C6, and C7 (every
    reachable canvas is well-formed).
  \<^item> \<open>Canvas_Gesture\<close>: dragging (C8, any number of moves), resizing (C9, commit or
    refusal), and what a press selects (C10, C11).
  \<^item> \<open>Canvas_Protocol\<close>: the flag invariant \<open>gesture_ok\<close> of the gesture state
    machine, reachability \<open>gesture_reach\<close> under the press--release protocol as an
    inductive relation, the invariant by rule induction (C12), and the necessity of
    the protocol: in any reachable state with a drag in progress, a second press on the
    same layer's handle sets both flags (C13).
  \<^item> \<open>Canvas_Props\<close>: the size bounds every reachable layer keeps (C24), the
    round trip of moving a layer up then down (C25), and the return to idle after a
    release (C26).
  \<^item> \<open>Canvas_Display\<close>: what the canvas shows and what the array may hold.
    \<open>shows_layers\<close> says the command list since the last clear paints the current
    layers in array order; every event handled without exception keeps it (C27). The
    shape \<open>slots_shape\<close> (no \<open>undefined\<close> after the first slot) holds in every
    reachable state (C28, the type of \<open>imageLayers\<close>), and a first slot that is
    \<open>undefined\<close> stays so under any later events, with every later list operation
    throwing (C29). On an array with no \<open>undefined\<close> slot the only event that
    throws is the move-down of an absent id (C30).
  \<^item> \<open>Sidebar\<close>: record \<open>sidebar_state\<close>, the handlers \<open>onFileChange\<close>, \<open>onDelete\<close>,
    \<open>onMoveUp\<close>, \<open>onMoveDown\<close>, each returning the list of values it emitted, and the
    properties C14--C17 (numbering of chosen files, empty choices ignored, id order
    invariant, deletion).
  \<^item> \<open>Routing\<close>: the route table, with leaf-route recognition as a check of
    the missing wildcard; the table is a constant and carries no property.
  \<^item> \<open>App\<close>: the composition. The parent template is not in the repository; its
    bindings are modelled from the spec (\<open>deliver\<close>), and the browser's pending reads
    as the list \<open>decoding\<close>, completed or failed in any order by the events
    \<open>DecodeDone\<close> and \<open>DecodeFailed\<close>. C19 is the agreement invariant of the two
    components, proved by rule induction over \<open>app_reach\<close> from the refinement lemmas of
    \<open>Canvas_Spec\<close>. C18 is the accounting of the two id counters along every run,
    the reads that fail (\<open>failed_reads\<close>, a count of events, not program code)
    included; C21 derives that a failed read breaks the agreement for good. C20 shows
    that the canvas numbers images in the order their reads finish, C22 that a move-down
    of a listed entry whose read is pending corrupts the array (C4), and C23 that
    deleting such an entry leaves an image no entry will ever name.
  \<^item> This theory: C31 joins the agreement invariant of \<open>App\<close> with the error
    characterisation of \<open>Canvas_Display\<close>: once no decode is in flight, every button of
    a listed entry reaches a canvas handler that completes.

  \<^bold>\<open>Bounds and termination.\<close> Every loop of the code is a traversal of a finite list
  (\<open>forEach\<close>, \<open>find\<close>, \<open>findIndex\<close>, \<open>filter\<close>), modelled by structural recursion:
  no fuel is needed and every definition is total. JavaScript numbers are doubles; the
  coordinates are sums of pointer offsets, image sizes and the constants 50 and 5,
  and the ids are counters incremented once per file, all far below \<open>2^53\<close>, where
  doubles are exact, so exact rationals and naturals are faithful.

  \<^bold>\<open>Not modelled.\<close> The pixels a 2D context draws (a frame is its command list); the
  contents of files and the decoding itself (an image is its source and natural
  size, and which file decodes to which image is the browser's); Angular change
  detection, the templates and style sheets (not in the repository: the event
  bindings of the sidebar and of the parent are taken from the spec); the
  \<open>HomeComponent\<close> the routing module imports, whose source is not in the repository;
  the router beyond matching leaf routes.
\<close>


section \<open>Properties spanning the components\<close>

lemma synced_listed_is_layer:
  assumes "app_sync a" and "decoding a = []" and "k \<in> entry_id ` set (files (sidebar a))"
  shows "k \<in> layer_id ` set (layers (canvas a))"
proof -
  have "mset (map entry_id (files (sidebar a))) = mset (map layer_id (layers (canvas a)))"
    using assms(1,2) by (simp add: app_sync_def)
  then have "set (map entry_id (files (sidebar a))) = set (map layer_id (layers (canvas a)))"
    by (rule mset_eq_setD)
  with assms(3) show ?thesis by simp
qed

text \<open>
  C31: once no decode is in flight, in any state the spec's use reaches, the delete,
  move-up and move-down buttons of every entry the sidebar lists reach a canvas handler
  that completes: the entry's id is a layer's id and the canvas is intact, so the
  move-down bug (C4) cannot fire. C22 shows that the condition on pending
  decodes cannot be dropped.
\<close>

theorem listed_buttons_complete:
  assumes "app_reach w h a" and "decoding a = []" and "k \<in> entry_id ` set (files (sidebar a))"
  shows "k \<in> layer_id ` set (layers (canvas a))
         \<and> snd (onDeleteSelected k (canvas a)) = None
         \<and> snd (onMoveUpSelected k (canvas a)) = None
         \<and> snd (onMoveDownSelected k (canvas a)) = None"
proof -
  have sync: "app_sync a" using assms(1) by (rule app_sync_reach)
  then have wf: "wf_canvas (canvas a)" and it: "intact (canvas a)" by (simp_all add: app_sync_def)
  have k: "k \<in> layer_id ` set (layers (canvas a))"
    using sync assms(2,3) by (rule synced_listed_is_layer)
  with move_down_throws_iff [OF wf it, of k] list_ops_no_error [OF wf it] show ?thesis by simp
qed

theorem listed_buttons_complete_witness:
  "app_reach 800 600 (app_run (init_app 800 600) out_of_order_run)
   \<and> decoding (app_run (init_app 800 600) out_of_order_run) = []
   \<and> (0::nat) \<in> entry_id ` set (files (sidebar (app_run (init_app 800 600) out_of_order_run)))
   \<and> snd (onMoveDownSelected 0 (canvas (app_run (init_app 800 600) out_of_order_run))) = None"
proof -
  have r: "app_reach 800 600 (app_run (init_app 800 600) out_of_order_run)"
    by (rule app_reach_run [OF app_reach.start]) (simp add: app_eval)
  moreover have d: "decoding (app_run (init_app 800 600) out_of_order_run) = []"
    by (simp add: app_eval)
  moreover have f: "(0::nat) \<in> entry_id ` set (files (sidebar (app_run (init_app 800 600) out_of_order_run)))"
    by (simp add: app_eval)
  ultimately show ?thesis using listed_buttons_complete [OF r d f] by simp
qed

end
